(* ===== verification/Prelude.thy ===== *)
theory Prelude
  imports Main "HOL-Library.AList"
begin

text \<open>
  Shared vocabulary of the development.

  \<^item> JavaScript strings are \<^typ>\<open>string\<close>s whose characters are code units in the range U+0000 to
    U+00FF; \<open>length\<close> counts code units as \<open>String.prototype.length\<close> does.  White space is the part of
    the language's white space in that range (TAB, LF, VT, FF, CR, SP and NBSP).
  \<^item> A \<open>Map\<close> is an association list in insertion order; \<open>AList.update\<close> replaces a value in
    place and appends a new key, exactly as \<open>Map.prototype.set\<close> does.
  \<^item> A plain object used as a dictionary is an association list of its \<^emph>\<open>own\<close> properties.  Reading a
    missing key falls through to \<open>Object.prototype\<close>; \<open>js_proto\<close> names what is found there.
  \<^item> A request either returns a value (\<open>Inr\<close>) or throws (\<open>Inl\<close>); \<open>exn\<close> is the exception with the
    HTTP status the framework turns it into, over a type of reasons per component.
\<close>

named_theorems js_simps \<open>evaluation of the string and object primitives\<close>
named_theorems inv_intros \<open>preservation of component invariants\<close>

type_synonym 'v obj = "(string \<times> 'v) list"
type_synonym ('k, 'v) jsmap = "('k \<times> 'v) list"

section \<open>Exceptions\<close>

datatype 'r exn =
    BadRequest 'r
  | Unauthorized 'r
  | Forbidden 'r
  | NotFound 'r
  | Conflict 'r
  | ServerError 'r
  | TypeErr

type_synonym ('r, 'a) res = "'r exn + 'a"

definition rbind :: "'e + 'a \<Rightarrow> ('a \<Rightarrow> 'e + 'b) \<Rightarrow> 'e + 'b" where
  "rbind x f = (case x of Inl e \<Rightarrow> Inl e | Inr a \<Rightarrow> f a)"

lemma rbind_simps [simp]:
  "rbind (Inl e) f = Inl e"
  "rbind (Inr a) f = f a"
  by (simp_all add: rbind_def)

lemma rbind_eq_Inr [simp]: "rbind x f = Inr b \<longleftrightarrow> (\<exists>a. x = Inr a \<and> f a = Inr b)"
  by (cases x) simp_all

lemma rbind_eq_Inl: "rbind x f = Inl e \<longleftrightarrow> x = Inl e \<or> (\<exists>a. x = Inr a \<and> f a = Inl e)"
  by (cases x) simp_all

lemma if_Inl_eq_Inr [simp]:
  "(if b then Inl e else x) = Inr a \<longleftrightarrow> \<not> b \<and> x = Inr a"
  "(if b then x else Inl e) = Inr a \<longleftrightarrow> b \<and> x = Inr a"
  by auto

section \<open>Strings\<close>

abbreviation LF :: char where "LF \<equiv> CHR 0x0A"
abbreviation CR :: char where "CR \<equiv> CHR 0x0D"

definition js_ws :: "char \<Rightarrow> bool" where
  "js_ws c \<longleftrightarrow> c \<in> set [CHR 0x09, CHR 0x0A, CHR 0x0B, CHR 0x0C, CHR 0x0D, CHR '' '', CHR 0xA0]"

definition trimStart :: "string \<Rightarrow> string" where
  "trimStart s = dropWhile js_ws s"

definition trimEnd :: "string \<Rightarrow> string" where
  "trimEnd s = rev (dropWhile js_ws (rev s))"

definition trim :: "string \<Rightarrow> string" where
  "trim s = trimEnd (trimStart s)"

definition is_lower :: "char \<Rightarrow> bool" where
  "is_lower c \<longleftrightarrow> 97 \<le> (of_char c :: nat) \<and> (of_char c :: nat) \<le> 122"

definition is_upper :: "char \<Rightarrow> bool" where
  "is_upper c \<longleftrightarrow> 65 \<le> (of_char c :: nat) \<and> (of_char c :: nat) \<le> 90"

definition is_digit :: "char \<Rightarrow> bool" where
  "is_digit c \<longleftrightarrow> 48 \<le> (of_char c :: nat) \<and> (of_char c :: nat) \<le> 57"

definition is_alpha :: "char \<Rightarrow> bool" where
  "is_alpha c \<longleftrightarrow> is_lower c \<or> is_upper c"

definition starts_with :: "string \<Rightarrow> string \<Rightarrow> bool" where
  "starts_with p s \<longleftrightarrow> take (length p) s = p"

text \<open>\<open>toLowerCase\<close> on the modelled code units (ASCII and the Latin-1 letters).\<close>

definition lower_char :: "char \<Rightarrow> char" where
  "lower_char c = (if is_upper c \<or> (192 \<le> (of_char c :: nat) \<and> (of_char c :: nat) \<le> 222 \<and> (of_char c :: nat) \<noteq> 215)
     then char_of (of_char c + 32 :: nat) else c)"

definition toLowerCase :: "string \<Rightarrow> string" where
  "toLowerCase s = map lower_char s"

text \<open>\<open>s.split(c)\<close> for one character.\<close>

fun split_on :: "char \<Rightarrow> string \<Rightarrow> string list" where
  "split_on d [] = [[]]"
| "split_on d (c # cs) =
     (if c = d then [] # split_on d cs
      else (case split_on d cs of [] \<Rightarrow> [[c]] | l # ls \<Rightarrow> (c # l) # ls))"

text \<open>\<open>s.indexOf(c)\<close> for one character; \<open>None\<close> is \<open>-1\<close>.\<close>

fun index_of :: "char \<Rightarrow> string \<Rightarrow> nat option" where
  "index_of c [] = None"
| "index_of c (d # s) = (if d = c then Some 0 else map_option Suc (index_of c s))"

text \<open>\<open>text.split(/\r?\n/)\<close>.\<close>

fun split_lines :: "string \<Rightarrow> string list" where
  "split_lines [] = [[]]"
| "split_lines (c # cs) =
     (if c = LF then [] # split_lines cs
      else if c = CR \<and> cs \<noteq> [] \<and> hd cs = LF then split_lines cs
      else (case split_lines cs of [] \<Rightarrow> [[c]] | l # ls \<Rightarrow> (c # l) # ls))"

text \<open>\<open>lines.join('\n')\<close>.\<close>

fun join_lines :: "string list \<Rightarrow> string" where
  "join_lines [] = []"
| "join_lines [l] = l"
| "join_lines (l # ls) = l @ LF # join_lines ls"

text \<open>\<open>xs.join(sep)\<close>.\<close>

fun join_with :: "string \<Rightarrow> string list \<Rightarrow> string" where
  "join_with sep [] = []"
| "join_with sep [x] = x"
| "join_with sep (x # xs) = x @ sep @ join_with sep xs"

text \<open>\<open>[...new Set(xs)]\<close>: first occurrences, in order.\<close>

fun nub :: "'a list \<Rightarrow> 'a list" where
  "nub [] = []"
| "nub (x # xs) = x # filter (\<lambda>y. y \<noteq> x) (nub xs)"

text \<open>\<open>s.includes(t)\<close>.\<close>

fun str_includes :: "string \<Rightarrow> string \<Rightarrow> bool" where
  "str_includes [] t = (t = [])"
| "str_includes (c # s) t = (starts_with t (c # s) \<or> str_includes s t)"

section \<open>Objects used as dictionaries\<close>

definition js_proto :: "string list" where
  "js_proto = [''constructor'', ''__defineGetter__'', ''__defineSetter__'', ''hasOwnProperty'',
     ''__lookupGetter__'', ''__lookupSetter__'', ''isPrototypeOf'', ''propertyIsEnumerable'',
     ''toString'', ''valueOf'', ''__proto__'', ''toLocaleString'']"

text \<open>
  What \<open>o[k]\<close> evaluates to: an own property, something inherited from \<open>Object.prototype\<close> (a
  function or an object: truthy, neither a boolean nor a string), or \<open>undefined\<close>.
\<close>

datatype 'v got = Undef | Inherited | Own 'v

definition obj_get :: "'v obj \<Rightarrow> string \<Rightarrow> 'v got" where
  "obj_get ob k = (case map_of ob k of Some v \<Rightarrow> Own v
     | None \<Rightarrow> if k \<in> set js_proto then Inherited else Undef)"

text \<open>
  \<open>o[k] = v\<close>.  Assigning a primitive to \<open>__proto__\<close> of a plain object is silently ignored; any
  other name becomes (or replaces) an own property.
\<close>

definition obj_set :: "string \<Rightarrow> 'v \<Rightarrow> 'v obj \<Rightarrow> 'v obj" where
  "obj_set k v ob = (if k = ''__proto__'' \<and> map_of ob k = None then ob else AList.update k v ob)"

definition obj_delete :: "string \<Rightarrow> 'v obj \<Rightarrow> 'v obj" where
  "obj_delete k ob = AList.delete k ob"

section \<open>Search for a free name\<close>

text \<open>
  The loop \<open>for (let i = 2; ; i++) { const c = candidate(i); if (!used.has(c)) return c; }\<close>, with fuel.
  The candidates of the program are pairwise different, so one more round than there are used names
  always finds a free one; the locale proves that once for every such loop.
\<close>

fun first_free :: "nat \<Rightarrow> (nat \<Rightarrow> 'a) \<Rightarrow> ('a \<Rightarrow> bool) \<Rightarrow> nat \<Rightarrow> 'a option" where
  "first_free 0 cand used i = None"
| "first_free (Suc n) cand used i =
     (if used (cand i) then first_free n cand used (Suc i) else Some (cand i))"

lemma first_free_SomeD: "first_free n cand used i = Some c \<Longrightarrow> \<not> used c \<and> (\<exists>j \<ge> i. c = cand j)"
proof (induction n arbitrary: i)
  case (Suc n)
  show ?case
  proof (cases "used (cand i)")
    case True
    then obtain j where "\<not> used c" "Suc i \<le> j" "c = cand j" using Suc by auto
    then show ?thesis by (auto intro: exI [of _ j])
  qed (use Suc.prems in auto)
qed simp

lemma first_free_index:
  "first_free n cand used i = Some c \<Longrightarrow> \<exists>j. i \<le> j \<and> j < i + n \<and> c = cand j"
proof (induction n arbitrary: i)
  case (Suc n)
  show ?case
  proof (cases "used (cand i)")
    case True
    then have "first_free n cand used (Suc i) = Some c" using Suc.prems by simp
    from Suc.IH [OF this] obtain j where "Suc i \<le> j" "j < Suc i + n" "c = cand j" by blast
    then show ?thesis by (intro exI [of _ j]) simp
  qed (use Suc.prems in auto)
qed simp

lemma first_free_None:
  "first_free n cand used i = None \<Longrightarrow> (\<forall>j. i \<le> j \<and> j < i + n \<longrightarrow> used (cand j))"
proof (induction n arbitrary: i)
  case (Suc n)
  then have u: "used (cand i)" and r: "first_free n cand used (Suc i) = None" by (auto split: if_splits)
  show ?case using Suc.IH [OF r] u by (metis Suc_leI add_Suc_right add_Suc le_neq_implies_less)
qed auto

locale fresh_namer =
  fixes cand :: "nat \<Rightarrow> 'a" and key :: "'a \<Rightarrow> 'b"
  assumes cand_inj: "key (cand i) = key (cand j) \<Longrightarrow> i = j"
begin

lemma enough_fuel:
  assumes "finite U" and "card U < n"
  shows "\<exists>c. first_free n cand (\<lambda>c. key c \<in> U) i = Some c"
proof (rule ccontr)
  assume "\<not> ?thesis"
  then have "first_free n cand (\<lambda>c. key c \<in> U) i = None" by auto
  then have sub: "(\<lambda>j. key (cand j)) ` {i..<i + n} \<subseteq> U" using first_free_None by fastforce
  have "inj_on (\<lambda>j. key (cand j)) {i..<i + n}" by (auto intro: inj_onI cand_inj)
  then have "card ((\<lambda>j. key (cand j)) ` {i..<i + n}) = n" by (simp add: card_image)
  then show False using card_mono [OF assms(1) sub] assms(2) by simp
qed

lemma finds_free:
  assumes "length us < n"
  shows "\<exists>c. first_free n cand (\<lambda>c. key c \<in> set us) i = Some c \<and> key c \<notin> set us"
proof -
  have "card (set us) < n" using card_length [of us] assms by simp
  then obtain c where "first_free n cand (\<lambda>c. key c \<in> set us) i = Some c" using enough_fuel by blast
  then show ?thesis using first_free_SomeD by fastforce
qed

end

section \<open>Lemmas\<close>

subsection \<open>Trimming\<close>

lemma dropWhile_idem_pred: "dropWhile P (dropWhile P xs) = dropWhile P xs"
  by (induction xs) simp_all

lemma trimEnd_Nil [simp]: "trimEnd [] = []"
  by (simp add: trimEnd_def)

lemma trim_Nil [simp]: "trim [] = []"
  by (simp add: trim_def trimStart_def)

lemma trimEnd_snoc: "trimEnd (s @ [c]) = (if js_ws c then trimEnd s else s @ [c])"
  by (simp add: trimEnd_def)

lemma trimEnd_append_nonws: "trimEnd s \<noteq> [] \<Longrightarrow> trimEnd (p @ s) = p @ trimEnd s"
  by (induction s rule: rev_induct) (auto simp: trimEnd_snoc append_assoc [symmetric] simp del: append_assoc)

lemma trimEnd_id_iff: "trimEnd s = s \<longleftrightarrow> s = [] \<or> \<not> js_ws (last s)"
proof (cases s rule: rev_cases)
  case (snoc p c)
  have "length (trimEnd p) \<le> length p"
    by (simp add: trimEnd_def length_dropWhile_le [of js_ws "rev p", simplified])
  then show ?thesis using snoc by (auto simp: trimEnd_snoc)
qed simp

lemma trimEnd_idem [simp]: "trimEnd (trimEnd s) = trimEnd s"
  by (simp add: trimEnd_def dropWhile_idem_pred)

lemma trimEnd_last: "trimEnd s \<noteq> [] \<Longrightarrow> \<not> js_ws (last (trimEnd s))"
  using trimEnd_id_iff [of "trimEnd s"] by simp

lemma trimEnd_prefix: "\<exists>w. s = trimEnd s @ w \<and> (\<forall>c \<in> set w. js_ws c)"
proof (induction s rule: rev_induct)
  case (snoc c s)
  then obtain w where "s = trimEnd s @ w" "\<forall>c \<in> set w. js_ws c" by blast
  then show ?case
    by (cases "js_ws c") (auto simp: trimEnd_snoc intro!: exI [of _ "w @ [c]"])
qed simp

lemma set_trimEnd: "set (trimEnd s) \<subseteq> set s"
  using trimEnd_prefix [of s] by (metis Un_upper1 set_append)

lemma set_trimStart: "set (trimStart s) \<subseteq> set s"
  by (auto simp: trimStart_def dest: set_dropWhileD)

lemma set_trim: "set (trim s) \<subseteq> set s"
  unfolding trim_def using set_trimEnd set_trimStart by blast

lemma hd_trimEnd: "trimEnd s \<noteq> [] \<Longrightarrow> hd (trimEnd s) = hd s"
  using trimEnd_prefix [of s] by (metis hd_append2)

lemma trim_hd: "trim s \<noteq> [] \<Longrightarrow> \<not> js_ws (hd (trim s))"
proof -
  assume ne: "trim s \<noteq> []"
  then have "trimStart s \<noteq> []" by (auto simp: trim_def)
  then have "\<not> js_ws (hd (trimStart s))" unfolding trimStart_def by (rule hd_dropWhile)
  then show ?thesis using ne by (simp add: trim_def hd_trimEnd)
qed

lemma trim_last: "trim s \<noteq> [] \<Longrightarrow> \<not> js_ws (last (trim s))"
  unfolding trim_def by (rule trimEnd_last)

lemma trim_id_iff: "trim s = s \<longleftrightarrow> s = [] \<or> (\<not> js_ws (hd s) \<and> \<not> js_ws (last s))"
proof
  assume "trim s = s"
  then show "s = [] \<or> (\<not> js_ws (hd s) \<and> \<not> js_ws (last s))"
    using trim_hd trim_last by metis
next
  assume a: "s = [] \<or> (\<not> js_ws (hd s) \<and> \<not> js_ws (last s))"
  show "trim s = s"
  proof (cases s)
    case (Cons c cs)
    with a have "trimStart s = s" by (simp add: trimStart_def)
    then show ?thesis using a by (auto simp: trim_def trimEnd_id_iff)
  qed simp
qed

lemma trim_idem [simp]: "trim (trim s) = trim s"
  using trim_hd trim_last trim_id_iff by blast

lemma all_dropWhile_iff: "(\<forall>c \<in> set (dropWhile P s). P c) \<longleftrightarrow> (\<forall>c \<in> set s. P c)"
  by (induction s) auto

lemma trim_eq_Nil_iff: "trim s = [] \<longleftrightarrow> (\<forall>c \<in> set s. js_ws c)"
proof -
  have "trimEnd t = [] \<longleftrightarrow> (\<forall>c \<in> set t. js_ws c)" for t
    by (simp add: trimEnd_def)
  then have "trim s = [] \<longleftrightarrow> (\<forall>c \<in> set (dropWhile js_ws s). js_ws c)"
    by (simp add: trim_def trimStart_def)
  also have "\<dots> \<longleftrightarrow> (\<forall>c \<in> set s. js_ws c)" by (rule all_dropWhile_iff)
  finally show ?thesis .
qed

subsection \<open>Lines\<close>

lemma split_lines_nonempty [simp]: "split_lines s \<noteq> []"
  by (induction s) (auto split: list.splits)

lemma split_lines_no_LF: "l \<in> set (split_lines s) \<Longrightarrow> LF \<notin> set l"
proof (induction s arbitrary: l)
  case (Cons c cs)
  show ?case
  proof (cases "c = LF \<or> (c = CR \<and> cs \<noteq> [] \<and> hd cs = LF)")
    case True
    then show ?thesis using Cons by (auto split: if_splits)
  next
    case False
    obtain l1 ls where "split_lines cs = l1 # ls" by (metis neq_Nil_conv split_lines_nonempty)
    then show ?thesis using Cons False by auto
  qed
qed simp

lemma split_lines_single:
  assumes "LF \<notin> set l"
  shows "split_lines l = [l]"
  using assms by (induction l) (auto, (metis hd_in_set)+)

text \<open>A line can be joined and split again unless it contains a line feed or ends in a carriage return.\<close>

definition line_ok :: "string \<Rightarrow> bool" where
  "line_ok l \<longleftrightarrow> LF \<notin> set l \<and> (l = [] \<or> last l \<noteq> CR)"

lemma split_lines_append_LF:
  assumes "line_ok l"
  shows "split_lines (l @ LF # rest) = l # split_lines rest"
  using assms
proof (induction l)
  case (Cons c l)
  then have "line_ok l" by (auto simp: line_ok_def split: if_splits)
  with Cons show ?case by (cases l) (auto simp: line_ok_def)
qed simp

lemma split_join_lines:
  assumes "ls \<noteq> []" and "\<forall>l \<in> set ls. line_ok l"
  shows "split_lines (join_lines ls) = ls"
  using assms
proof (induction ls rule: join_lines.induct)
  case (2 l)
  then show ?case by (simp add: line_ok_def split_lines_single)
next
  case (3 l l' ls)
  then show ?case by (simp add: split_lines_append_LF)
qed simp

text \<open>Every line but the last of a split ends without a carriage return of its separator.\<close>

lemma index_of_SomeD:
  "index_of c s = Some i \<Longrightarrow> i < length s \<and> s ! i = c \<and> c \<notin> set (take i s)"
  by (induction s arbitrary: i) (auto split: if_splits)

lemma index_of_None_iff: "index_of c s = None \<longleftrightarrow> c \<notin> set s"
  by (induction s) auto

lemma index_of_append:
  "index_of c (s @ t) = (case index_of c s of Some i \<Rightarrow> Some i | None \<Rightarrow> map_option (\<lambda>i. i + length s) (index_of c t))"
  by (induction s) (auto split: option.splits simp: option.map_comp comp_def option.map_ident)

lemma index_of_split: "c \<notin> set p \<Longrightarrow> index_of c (p @ c # s) = Some (length p)"
  by (induction p) auto

subsection \<open>Maps and sets in insertion order\<close>

lemma find_SomeD: "find P xs = Some x \<Longrightarrow> x \<in> set xs \<and> P x"
  by (auto simp: find_Some_iff)

lemma set_nub [simp]: "set (nub xs) = set xs"
  by (induction xs) auto

lemma distinct_nub [simp]: "distinct (nub xs)"
  by (induction xs) auto

lemma nub_distinct: "distinct xs \<Longrightarrow> nub xs = xs"
  by (induction xs) (auto simp: filter_id_conv)

text \<open>\<open>new Map(entries)\<close>.\<close>

definition map_of_entries :: "('k \<times> 'v) list \<Rightarrow> ('k, 'v) jsmap" where
  "map_of_entries es = fold (\<lambda>(k, v) m. AList.update k v m) es []"

lemma map_of_fold_update:
  "map_of (fold (\<lambda>(k, v) m. AList.update k v m) es m0) = map_of m0 ++ map_of (rev es)"
proof (induction es arbitrary: m0)
  case (Cons e es)
  then show ?case by (cases e) (simp add: AList.update_conv' fun_upd_def map_add_def fun_eq_iff split: option.splits)
qed simp

lemma map_of_map_of_entries: "map_of (map_of_entries es) = map_of (rev es)"
  by (simp add: map_of_entries_def map_of_fold_update)

lemma distinct_fold_update:
  "distinct (map fst m0) \<Longrightarrow> distinct (map fst (fold (\<lambda>(k, v) m. AList.update k v m) es m0))"
  by (induction es arbitrary: m0) (auto simp: distinct_update)

lemma distinct_map_of_entries [simp]: "distinct (map fst (map_of_entries es))"
  by (simp add: map_of_entries_def distinct_fold_update)

lemma keys_fold_update:
  "set (map fst (fold (\<lambda>(k, v) m. AList.update k v m) es m0)) = fst ` set m0 \<union> fst ` set es"
proof (induction es arbitrary: m0)
  case (Cons e es)
  then show ?case by (cases e) (simp add: AList.dom_update Un_assoc)
qed simp

lemma keys_map_of_entries: "fst ` set (map_of_entries es) = fst ` set es"
  using keys_fold_update [of es "[]"] by (simp add: map_of_entries_def)

lemma map_of_entries_subset: "set (map_of_entries es) \<subseteq> set es"
proof
  fix kv assume a: "kv \<in> set (map_of_entries es)"
  obtain k v where kv: "kv = (k, v)" by fastforce
  have "map_of (map_of_entries es) k = Some v"
    using a kv by (simp add: map_of_is_SomeI)
  then have "map_of (rev es) k = Some v" by (simp add: map_of_map_of_entries)
  then show "kv \<in> set es" using kv map_of_SomeD by fastforce
qed

lemma obj_get_set_same: "k \<noteq> ''__proto__'' \<Longrightarrow> obj_get (obj_set k v ob) k = Own v"
  by (simp add: obj_get_def obj_set_def AList.update_conv')

lemma obj_get_set_other: "k \<noteq> k' \<Longrightarrow> obj_get (obj_set k v ob) k' = obj_get ob k'"
  by (simp add: obj_get_def obj_set_def AList.update_conv')

lemma obj_keys_set: "fst ` set (obj_set k v ob) \<subseteq> insert k (fst ` set ob)"
  by (auto simp: obj_set_def AList.dom_update split: if_splits)

lemma obj_distinct_set: "distinct (map fst ob) \<Longrightarrow> distinct (map fst (obj_set k v ob))"
  by (simp add: obj_set_def distinct_update)

end
