(* ===== verification/Env_Text.thy ===== *)
theory Env_Text
  imports Prelude "HOL-Library.Monad_Syntax"
begin

text \<open>
  The pure helpers on \<open>KEY=VALUE\<close> text of \<open>src/src/modules/variable-set/env-text.ts\<close>: parsing,
  strict validation, references, notes, secret flags, change summaries and key-wise writes.
  Messages are values of \<open>env_problem\<close>; reading a note of a variable whose name
  is also a member of \<open>Object.prototype\<close> throws a \<open>TypeError\<close>, written \<open>None\<close>.
\<close>

section \<open>Parsing\<close>

text \<open>The part of a trimmed line before and after the first \<open>=\<close>, when that is not at position 0.\<close>

definition split_eq :: "string \<Rightarrow> (string \<times> string) option" where
  "split_eq line = (case index_of CHR ''='' line of
       None \<Rightarrow> None
     | Some eq \<Rightarrow> if eq = 0 then None else Some (trim (take eq line), drop (Suc eq) line))"

definition skip_line :: "string \<Rightarrow> bool" where
  "skip_line line \<longleftrightarrow> line = [] \<or> starts_with ''#'' line"

definition parse_line :: "string \<Rightarrow> (string \<times> string) option" where
  "parse_line raw = (let line = trim raw in if skip_line line then None else split_eq line)"

definition parseEnvLines :: "string \<Rightarrow> (string \<times> string) list" where
  "parseEnvLines text = List.map_filter parse_line (split_lines text)"

definition name_start :: "char \<Rightarrow> bool" where
  "name_start c \<longleftrightarrow> is_alpha c \<or> c = CHR ''_''"

definition name_rest :: "char \<Rightarrow> bool" where
  "name_rest c \<longleftrightarrow> is_alpha c \<or> is_digit c \<or> c = CHR ''_''"

definition ENV_NAME :: "string \<Rightarrow> bool" where
  "ENV_NAME s \<longleftrightarrow> s \<noteq> [] \<and> name_start (hd s) \<and> list_all name_rest (tl s)"

definition keysOf :: "string \<Rightarrow> string list" where
  "keysOf text = nub (map fst (parseEnvLines text))"

definition envMap :: "string \<Rightarrow> (string, string) jsmap" where
  "envMap text = map_of_entries (parseEnvLines text)"

section \<open>References\<close>

record refm =
  whole :: string
  scope :: string
  refname :: string
  field :: "string option"
  dbname :: "string option"

definition ref_name_char :: "char \<Rightarrow> bool" where
  "ref_name_char c \<longleftrightarrow> is_alpha c \<or> is_digit c \<or> c = CHR ''_'' \<or> c = CHR ''-''"

definition ref_db_char :: "char \<Rightarrow> bool" where
  "ref_db_char c \<longleftrightarrow> ref_name_char c \<or> c = CHR ''$''"

text \<open>\<open>(?:c([P]+))?\<close>, greedy.\<close>

definition opt_group :: "char \<Rightarrow> (char \<Rightarrow> bool) \<Rightarrow> string \<Rightarrow> string option \<times> string" where
  "opt_group c P s = (if s \<noteq> [] \<and> hd s = c \<and> takeWhile P (tl s) \<noteq> []
     then (Some (takeWhile P (tl s)), dropWhile P (tl s)) else (None, s))"

text \<open>The \<open>REFERENCE\<close> expression matched at the start of \<open>s\<close>: the match and the text behind it.\<close>

definition match_ref :: "string \<Rightarrow> (refm \<times> string) option" where
  "match_ref s =
     (if \<not> starts_with ''${{'' s then None
      else let s1 = dropWhile js_ws (drop 3 s); sc = takeWhile is_lower s1; s2 = dropWhile is_lower s1
        in if sc = [] \<or> s2 = [] \<or> hd s2 \<noteq> CHR ''.'' then None
        else let nm = takeWhile ref_name_char (tl s2); s3 = dropWhile ref_name_char (tl s2)
        in if nm = [] then None
        else case opt_group CHR ''.'' is_lower s3 of (fd, s4) \<Rightarrow>
          case opt_group CHR '':'' ref_db_char s4 of (db, s5) \<Rightarrow>
          let s6 = dropWhile js_ws s5
          in if starts_with ''}}'' s6
             then Some (\<lparr>whole = take (length s - length (drop 2 s6)) s, scope = sc, refname = nm,
                         field = fd, dbname = db\<rparr>, drop 2 s6)
             else None)"

lemma length_opt_group: "opt_group c P s = (g, t) \<Longrightarrow> length t \<le> length s"
  by (auto simp: opt_group_def split: if_splits)
     (metis Suc_leD length_Cons length_dropWhile_le list.collapse not_less_eq_eq le_SucI)

lemma match_ref_shorter: "match_ref s = Some (m, rest) \<Longrightarrow> length rest < length s"
proof -
  assume h: "match_ref s = Some (m, rest)"
  let ?s1 = "dropWhile js_ws (drop 3 s)"
  let ?s2 = "dropWhile is_lower ?s1"
  let ?s3 = "dropWhile ref_name_char (tl ?s2)"
  obtain fd s4 where g1: "opt_group CHR ''.'' is_lower ?s3 = (fd, s4)" by fastforce
  obtain db s5 where g2: "opt_group CHR '':'' ref_db_char s4 = (db, s5)" by fastforce
  from h g1 g2 have ne: "?s2 \<noteq> []" and r: "rest = drop 2 (dropWhile js_ws s5)"
    by (auto simp: match_ref_def Let_def split: if_splits)
  have "length rest \<le> length s5"
    using length_dropWhile_le [of js_ws s5] by (simp add: r)
  also have "\<dots> \<le> length s4" using g2 by (rule length_opt_group)
  also have "\<dots> \<le> length ?s3" using g1 by (rule length_opt_group)
  also have "\<dots> \<le> length (tl ?s2)" by (rule length_dropWhile_le)
  also have "\<dots> < length ?s2" using ne by simp
  also have "\<dots> \<le> length ?s1" by (rule length_dropWhile_le)
  also have "\<dots> \<le> length s"
    using length_dropWhile_le [of js_ws "drop 3 s"] by simp
  finally show ?thesis .
qed

text \<open>
  \<open>value.matchAll(REFERENCE)\<close>: the matches from left to right, each with the literal text since
  the previous one, and the text after the last.
\<close>

function segments :: "string \<Rightarrow> (string \<times> refm) list \<times> string" where
  "segments [] = ([], [])"
| "segments (c # cs) =
     (case match_ref (c # cs) of
        Some (m, rest) \<Rightarrow> (([], m) # fst (segments rest), snd (segments rest))
      | None \<Rightarrow>
          (case fst (segments cs) of
             [] \<Rightarrow> ([], c # snd (segments cs))
           | (l, m) # ms \<Rightarrow> ((c # l, m) # ms, snd (segments cs))))"
  by pat_completeness auto
termination
  by (relation "measure length") (auto dest: match_ref_shorter)

definition match_all :: "string \<Rightarrow> refm list" where
  "match_all v = map snd (fst (segments v))"

text \<open>\<open>(value.match(/\$\{\{/g) ?? []).length\<close>.\<close>

fun count_opens :: "string \<Rightarrow> nat" where
  "count_opens [] = 0"
| "count_opens (c # cs) =
     (if starts_with ''${{'' (c # cs) then Suc (count_opens (drop 2 cs)) else count_opens cs)"

definition DATABASE_FIELDS :: "string list" where
  "DATABASE_FIELDS = [''url'', ''host'', ''port'', ''username'', ''password'', ''database'']"

section \<open>Strict validation\<close>

definition ENV_TEXT_MAX :: nat where
  "ENV_TEXT_MAX = 20000"

datatype env_problem =
    TooLong
  | ExpectedNameValue nat
  | InvalidName nat string
  | DefinedTwice nat string
  | MalformedReference
  | InvalidReference string
  | ProjectRenamed string
  | UseDatabaseFields string
  | UnknownScope string string

text \<open>The first loop: line numbers are 1-based, the values are collected for the second loop.\<close>

fun scan_lines :: "nat \<Rightarrow> string list \<Rightarrow> string list \<Rightarrow> string list \<Rightarrow> env_problem + string list" where
  "scan_lines i [] seen vals = Inr vals"
| "scan_lines i (raw # ls) seen vals =
     (let line = trim raw
      in if skip_line line then scan_lines (Suc i) ls seen vals
      else case split_eq line of
          None \<Rightarrow> Inl (ExpectedNameValue (Suc i))
        | Some (key, v) \<Rightarrow>
            if \<not> ENV_NAME key then Inl (InvalidName (Suc i) (take 40 key))
            else if key \<in> set seen then Inl (DefinedTwice (Suc i) key)
            else scan_lines (Suc i) ls (key # seen) (vals @ [v]))"

definition check_ref :: "refm \<Rightarrow> env_problem option" where
  "check_ref m =
     (if scope m = ''vars'' \<or> scope m = ''secret'' then
        (if field m \<noteq> None then Some (InvalidReference (whole m)) else None)
      else if scope m = ''project'' then Some (ProjectRenamed (whole m))
      else if scope m = ''database'' then
        (if (case field m of None \<Rightarrow> [] | Some f \<Rightarrow> f) \<notin> set DATABASE_FIELDS
         then Some (UseDatabaseFields (whole m)) else None)
      else Some (UnknownScope (whole m) (scope m)))"

fun check_refs :: "refm list \<Rightarrow> env_problem option" where
  "check_refs [] = None"
| "check_refs (m # ms) = (case check_ref m of Some p \<Rightarrow> Some p | None \<Rightarrow> check_refs ms)"

fun check_values :: "string list \<Rightarrow> env_problem option" where
  "check_values [] = None"
| "check_values (v # vs) =
     (if count_opens v \<noteq> length (match_all v) then Some MalformedReference
      else case check_refs (match_all v) of Some p \<Rightarrow> Some p | None \<Rightarrow> check_values vs)"

definition validateEnvironmentText :: "string \<Rightarrow> env_problem option" where
  "validateEnvironmentText text =
     (if length text > ENV_TEXT_MAX then Some TooLong
      else case scan_lines 0 (split_lines text) [] [] of
          Inl p \<Rightarrow> Some p
        | Inr vals \<Rightarrow> check_values vals)"

section \<open>Notes\<close>

definition NOTE_MAX :: nat where
  "NOTE_MAX = 1000"

text \<open>\<open>line.slice(1).replace(/^ /, '').trimEnd()\<close> for a comment line.\<close>

definition comment_body :: "string \<Rightarrow> string" where
  "comment_body line = trimEnd (if starts_with '' '' (tl line) then tl (tl line) else tl line)"

definition note_of :: "string list \<Rightarrow> string" where
  "note_of pending =
     trimEnd (take NOTE_MAX (trimEnd (dropWhile (\<lambda>c. c = LF) (join_lines pending))))"

fun notes_loop :: "string list \<Rightarrow> string list \<Rightarrow> string obj \<Rightarrow> string obj" where
  "notes_loop [] pending out = out"
| "notes_loop (raw # ls) pending out =
     (let line = trim raw
      in if line = [] then notes_loop ls [] out
      else if starts_with ''#'' line then notes_loop ls (pending @ [comment_body line]) out
      else let key = (case split_eq line of None \<Rightarrow> [] | Some (k, v) \<Rightarrow> k)
      in if ENV_NAME key
         then notes_loop ls []
           (if note_of pending \<noteq> [] then obj_set key (note_of pending) out else obj_delete key out)
         else notes_loop ls [] out)"

text \<open>The byte order mark that the source removes first is outside the modelled code units.\<close>

definition extractNotes :: "string \<Rightarrow> string obj" where
  "extractNotes text = notes_loop (split_lines text) [] []"

text \<open>\<open>note.split('\n')\<close>.\<close>

fun split_LF :: "string \<Rightarrow> string list" where
  "split_LF [] = [[]]"
| "split_LF (c # cs) =
     (if c = LF then [] # split_LF cs
      else (case split_LF cs of [] \<Rightarrow> [[c]] | l # ls \<Rightarrow> (c # l) # ls))"

definition noteLines :: "string \<Rightarrow> string list" where
  "noteLines note = map (\<lambda>l. if l \<noteq> [] then ''# '' @ l else ''#'') (split_LF note)"

text \<open>
  \<open>if (notes[k]) out.push(...noteLines(notes[k]))\<close>: an inherited member is truthy and has no
  \<open>split\<close>, so calling it throws.  \<open>None\<close> is that \<open>TypeError\<close>, here and in the functions that
  render notes.
\<close>

definition note_block :: "string obj \<Rightarrow> string \<Rightarrow> string list option" where
  "note_block notes k = (case obj_get notes k of
       Undef \<Rightarrow> Some []
     | Inherited \<Rightarrow> None
     | Own n \<Rightarrow> Some (if n \<noteq> [] then noteLines n else []))"

fun normalize_out :: "string obj \<Rightarrow> (string \<times> string) list \<Rightarrow> string list option" where
  "normalize_out notes [] = Some []"
| "normalize_out notes ((k, v) # kvs) =
     do { b \<leftarrow> note_block notes k;
          ls \<leftarrow> normalize_out notes kvs;
          Some (b @ (k @ ''='' @ v) # ls) }"

definition normalizeEnvText :: "string \<Rightarrow> string option" where
  "normalizeEnvText text =
     map_option join_lines (normalize_out (extractNotes text)
       (map_of_entries (filter (\<lambda>(k, v). ENV_NAME k) (parseEnvLines text))))"

section \<open>Secret flags\<close>

definition MIN_REDACT_LENGTH :: nat where
  "MIN_REDACT_LENGTH = 6"

definition shouldRedactValue :: "string \<Rightarrow> bool" where
  "shouldRedactValue v \<longleftrightarrow> \<not> length v < MIN_REDACT_LENGTH \<and> \<not> (v \<noteq> [] \<and> list_all is_alpha v)
     \<and> \<not> (v \<noteq> [] \<and> list_all is_digit v)"

text \<open>
  A flag is a boolean, or a member of \<open>Object.prototype\<close> that a read of a missing flag returned
  and the code copied; copies do not survive serialisation to the \<open>jsonb\<close> column.
\<close>

datatype flagv = Flag bool | Builtin

type_synonym flags = "flagv obj"

definition flag_at :: "flags \<Rightarrow> string \<Rightarrow> flagv option" where
  "flag_at fl k = (case obj_get fl k of Undef \<Rightarrow> None | Inherited \<Rightarrow> Some Builtin | Own v \<Rightarrow> Some v)"

definition to_lower :: "char \<Rightarrow> char" where
  "to_lower c = (if is_upper c then char_of (of_char c + 32 :: nat) else c)"

definition contains :: "string \<Rightarrow> string \<Rightarrow> bool" where
  "contains p s \<longleftrightarrow> list_ex (\<lambda>i. starts_with p (drop i s)) [0..<Suc (length s)]"

definition looksSecretName :: "string \<Rightarrow> bool" where
  "looksSecretName name = list_ex (\<lambda>w. contains w (map to_lower name))
     [''password'', ''secret'', ''token'', ''key'', ''private'', ''credential'']"

definition isSecretValue :: "string \<Rightarrow> string \<Rightarrow> flags \<Rightarrow> bool" where
  "isSecretValue key v fl = (case flag_at fl key of
       Some (Flag True) \<Rightarrow> length v > 0
     | Some (Flag False) \<Rightarrow> False
     | _ \<Rightarrow> if looksSecretName key \<and> length v \<ge> MIN_REDACT_LENGTH then True else shouldRedactValue v)"

datatype patchv = PFlag bool | PNull | PBuiltin

fun nextFlags_loop :: "flags \<Rightarrow> string list \<Rightarrow> patchv obj \<Rightarrow> string list \<Rightarrow> flags \<Rightarrow> flags" where
  "nextFlags_loop previous known patch [] out = out"
| "nextFlags_loop previous known patch (key # ks) out =
     nextFlags_loop previous known patch ks
       (case map_of patch key of
          Some (PFlag b) \<Rightarrow> obj_set key (Flag b) out
        | Some PNull \<Rightarrow> out
        | _ \<Rightarrow> (case flag_at previous key of
              Some v \<Rightarrow> obj_set key v out
            | None \<Rightarrow> if key \<notin> set known \<and> looksSecretName key
                      then obj_set key (Flag True) out else out))"

definition nextFlags :: "flags \<Rightarrow> string list \<Rightarrow> string list \<Rightarrow> patchv obj \<Rightarrow> flags" where
  "nextFlags previous previousKeys keys patch = nextFlags_loop previous previousKeys patch keys []"

section \<open>Change summary and comparison\<close>

record change_summary =
  added :: "string list"
  changed :: "string list"
  removed :: "string list"
  cs_flags :: "string list"

definition has_key :: "('k, 'v) jsmap \<Rightarrow> 'k \<Rightarrow> bool" where
  "has_key m k \<longleftrightarrow> map_of m k \<noteq> None"

definition summarizeChange :: "string \<Rightarrow> string \<Rightarrow> flags \<Rightarrow> flags \<Rightarrow> change_summary" where
  "summarizeChange oldText newText oldFlags newFlags =
     (let before = envMap oldText; after = envMap newText
      in \<lparr>added = [k. (k, v) \<leftarrow> after, \<not> has_key before k],
          changed = [k. (k, v) \<leftarrow> after, has_key before k \<and> map_of before k \<noteq> Some v],
          removed = filter (\<lambda>k. \<not> has_key after k) (map fst before),
          cs_flags = [k. (k, v) \<leftarrow> after, has_key before k \<and> flag_at oldFlags k \<noteq> flag_at newFlags k]\<rparr>)"

definition isEmptySummary :: "change_summary \<Rightarrow> bool" where
  "isEmptySummary s \<longleftrightarrow>
     length (added s) + length (changed s) + length (removed s) + length (cs_flags s) = 0"

record env_comparison =
  onlyInFrom :: "string list"
  onlyInTo :: "string list"
  different :: "string list"
  same :: "string list"

definition compareEnvTexts :: "string \<Rightarrow> string \<Rightarrow> env_comparison" where
  "compareEnvTexts fromText toText =
     (let f = envMap fromText; t = envMap toText
      in \<lparr>onlyInFrom = [k. (k, v) \<leftarrow> f, \<not> has_key t k],
          onlyInTo = filter (\<lambda>k. \<not> has_key f k) (map fst t),
          different = [k. (k, v) \<leftarrow> f, has_key t k \<and> map_of t k \<noteq> Some v],
          same = [k. (k, v) \<leftarrow> f, has_key t k \<and> map_of t k = Some v]\<rparr>)"

section \<open>Key-wise writes\<close>

definition definesKey :: "string \<Rightarrow> string \<Rightarrow> bool" where
  "definesKey line key \<longleftrightarrow> (let t = trim line in \<not> skip_line t \<and>
     (case split_eq t of None \<Rightarrow> False | Some (k, v) \<Rightarrow> k = key))"

fun find_index :: "('a \<Rightarrow> bool) \<Rightarrow> 'a list \<Rightarrow> nat option" where
  "find_index P [] = None"
| "find_index P (x # xs) = (if P x then Some 0 else map_option Suc (find_index P xs))"

definition pop_blank :: "string list \<Rightarrow> string list" where
  "pop_blank ls = rev (dropWhile (\<lambda>l. trim l = []) (rev ls))"

definition set_value :: "string obj \<Rightarrow> string \<Rightarrow> string \<Rightarrow> string list \<Rightarrow> string list option" where
  "set_value notes key v ls = (case find_index (\<lambda>l. definesKey l key) ls of
       None \<Rightarrow>
         (let ls1 = pop_blank ls;
              ls2 = (if ls1 \<noteq> [] \<and> starts_with ''#'' (trim (last ls1)) then ls1 @ [[]] else ls1)
          in map_option (\<lambda>b. ls2 @ b @ [key @ ''='' @ v]) (note_block notes key))
     | Some at \<Rightarrow>
         Some ((take (Suc at) ls @ filter (\<lambda>l. \<not> definesKey l key) (drop (Suc at) ls))
                [at := key @ ''='' @ v]))"

fun set_values_loop :: "string obj \<Rightarrow> (string \<times> string) list \<Rightarrow> string list \<Rightarrow> string list option" where
  "set_values_loop notes [] ls = Some ls"
| "set_values_loop notes ((k, v) # es) ls =
     do { ls' \<leftarrow> set_value notes k v ls; set_values_loop notes es ls' }"

definition setValues :: "string \<Rightarrow> (string \<times> string) list \<Rightarrow> string obj \<Rightarrow> string option" where
  "setValues text entries notes =
     map_option join_lines (set_values_loop notes entries (if text = [] then [] else split_lines text))"

text \<open>\<open>/\$\{\{(\s*)project\./\<close> at the start of \<open>s\<close>: the white space and the text behind.\<close>

definition match_project :: "string \<Rightarrow> (string \<times> string) option" where
  "match_project s =
     (if starts_with ''${{'' s \<and> starts_with ''project.'' (dropWhile js_ws (drop 3 s))
      then Some (takeWhile js_ws (drop 3 s), drop 8 (dropWhile js_ws (drop 3 s))) else None)"

lemma match_project_shorter: "match_project s = Some (w, rest) \<Longrightarrow> length rest < length s"
proof -
  assume "match_project s = Some (w, rest)"
  then have "starts_with ''${{'' s" and r: "rest = drop 8 (dropWhile js_ws (drop 3 s))"
    by (auto simp: match_project_def split: if_splits)
  then have "s \<noteq> []" by (auto simp: starts_with_def)
  moreover have "length rest \<le> length (drop 3 s)"
    using length_dropWhile_le [of js_ws "drop 3 s"] by (simp add: r)
  ultimately show ?thesis by (cases s) simp_all
qed

function rewriteProjectReferences :: "string \<Rightarrow> string" where
  "rewriteProjectReferences [] = []"
| "rewriteProjectReferences (c # cs) = (case match_project (c # cs) of
       Some (w, rest) \<Rightarrow> ''${{'' @ w @ ''vars.'' @ rewriteProjectReferences rest
     | None \<Rightarrow> c # rewriteProjectReferences cs)"
  by pat_completeness auto
termination
  by (relation "measure length") (auto dest: match_project_shorter)

end
