(* ===== verification/Env_Text_Laws.thy ===== *)
theory Env_Text_Laws
  imports Env_Text
begin

text \<open>
  Laws of the \<open>KEY=VALUE\<close> text helpers: what a parsed entry looks like, that rendered entries parse
  back, that strict validation accepts exactly the well-formed texts, and that the key-wise
  write of a promotion changes exactly the requested keys.
\<close>

section \<open>Characters and lines\<close>

lemma name_rest_not_special:
  "name_rest c \<Longrightarrow> \<not> js_ws c \<and> c \<noteq> CHR ''='' \<and> c \<noteq> CHR ''#'' \<and> c \<noteq> LF \<and> c \<noteq> CR"
  by (auto simp: name_rest_def is_alpha_def is_lower_def is_upper_def is_digit_def js_ws_def)

lemma name_start_rest: "name_start c \<Longrightarrow> name_rest c"
  by (auto simp: name_start_def name_rest_def)

lemma ENV_NAME_chars: "ENV_NAME k \<Longrightarrow> c \<in> set k \<Longrightarrow> name_rest c"
  by (cases k) (auto simp: ENV_NAME_def name_start_rest list_all_iff)

lemma ENV_NAME_nonempty: "ENV_NAME k \<Longrightarrow> k \<noteq> []"
  by (simp add: ENV_NAME_def)

lemma ENV_NAME_trim: "ENV_NAME k \<Longrightarrow> trim k = k"
  using ENV_NAME_chars [of k] ENV_NAME_nonempty [of k] name_rest_not_special
  by (metis hd_in_set last_in_set trim_id_iff)

text \<open>A value as it comes out of parsing: on one line, with no white space at its end.\<close>

definition value_ok :: "string \<Rightarrow> bool" where
  "value_ok v \<longleftrightarrow> LF \<notin> set v \<and> trimEnd v = v"

lemma parse_line_trim: "parse_line (trim l) = parse_line l"
  by (simp add: parse_line_def)

lemma parse_line_Nil [simp]: "parse_line [] = None"
  by (simp add: parse_line_def skip_line_def)

lemma parse_line_blank: "trim l = [] \<Longrightarrow> parse_line l = None"
  by (simp add: parse_line_def skip_line_def)

lemma trim_comment: "trim (CHR ''#'' # l) = CHR ''#'' # trimEnd l"
proof (cases "trimEnd l = []")
  case True
  have s: "trimStart (CHR ''#'' # l) = CHR ''#'' # l" by (simp add: trimStart_def js_ws_def)
  obtain w where w: "l = trimEnd l @ w" "\<forall>c \<in> set w. js_ws c" using trimEnd_prefix by blast
  with True have "\<forall>c \<in> set l. js_ws c" by simp
  then have "dropWhile js_ws (rev l @ [CHR ''#'']) = dropWhile js_ws [CHR ''#'']"
    by (subst dropWhile_append2) simp_all
  then have "trimEnd (CHR ''#'' # l) = [CHR ''#'']" by (simp add: trimEnd_def js_ws_def)
  with s True show ?thesis by (simp add: trim_def)
next
  case False
  have "trimStart (CHR ''#'' # l) = CHR ''#'' # l" by (simp add: trimStart_def js_ws_def)
  then show ?thesis
    using trimEnd_append_nonws [OF False, of "[CHR ''#'']"] by (simp add: trim_def)
qed

lemma parse_line_comment [simp]: "parse_line (CHR ''#'' # l) = None"
  by (simp add: parse_line_def trim_comment skip_line_def starts_with_def)

lemma parse_line_render:
  assumes "ENV_NAME k" and "value_ok v"
  shows "parse_line (k @ CHR ''='' # v) = Some (k, v)"
proof -
  let ?l = "k @ CHR ''='' # v"
  have k: "k \<noteq> []" "\<not> js_ws (hd k)" "hd k \<noteq> CHR ''#''" "CHR ''='' \<notin> set k"
    using assms(1) ENV_NAME_nonempty [of k] ENV_NAME_chars [of k] name_rest_not_special
    by (metis hd_in_set)+
  have "\<not> js_ws (last ?l)"
    using assms(2) trimEnd_id_iff [of v] by (auto simp: value_ok_def js_ws_def)
  then have t: "trim ?l = ?l" using k by (simp add: trim_id_iff)
  have "\<not> skip_line ?l" using k by (cases k) (auto simp: skip_line_def starts_with_def)
  then show ?thesis
    using t k assms(1)
    by (simp add: parse_line_def split_eq_def index_of_split ENV_NAME_trim)
qed

lemma split_eq_SomeD:
  assumes "split_eq l = Some (k, v)"
  obtains p where "l = p @ CHR ''='' # v" and "CHR ''='' \<notin> set p" and "p \<noteq> []" and "k = trim p"
proof -
  from assms obtain i where i: "index_of CHR ''='' l = Some i" "i \<noteq> 0" "k = trim (take i l)"
      "v = drop (Suc i) l"
    by (auto simp: split_eq_def split: option.splits if_splits)
  from index_of_SomeD [OF i(1)] have b: "i < length l" "l ! i = CHR ''=''" "CHR ''='' \<notin> set (take i l)"
    by auto
  have "l = take i l @ CHR ''='' # v"
    using b i(4) by (metis Cons_nth_drop_Suc append_take_drop_id)
  then show thesis using that [of "take i l"] b i by auto
qed

lemma parse_line_SomeD:
  assumes "parse_line l = Some (k, v)"
  shows "k \<noteq> []" and "trim k = k" and "CHR ''='' \<notin> set k" and "trimEnd v = v" and "set v \<subseteq> set l"
    and "set k \<subseteq> set l"
proof -
  from assms have ne: "trim l \<noteq> []" and s: "split_eq (trim l) = Some (k, v)"
    by (auto simp: parse_line_def Let_def skip_line_def split: if_splits)
  from s obtain p where p: "trim l = p @ CHR ''='' # v" "CHR ''='' \<notin> set p" "p \<noteq> []" "k = trim p"
    by (rule split_eq_SomeD)
  have "\<not> js_ws (hd p)" using trim_hd [OF ne] p by simp
  then show "k \<noteq> []" using p(3,4) trim_eq_Nil_iff [of p] hd_in_set by auto
  show "trim k = k" by (simp add: p(4))
  show "CHR ''='' \<notin> set k" using p(2,4) set_trim by blast
  show "trimEnd v = v"
    using trim_last [OF ne] p(1) by (cases v rule: rev_cases) (simp_all add: trimEnd_snoc)
  show "set v \<subseteq> set l" "set k \<subseteq> set l"
    using set_trim [of l] set_trim [of p] p(1,4) by auto
qed

lemma parse_line_value_ok:
  "parse_line l = Some (k, v) \<Longrightarrow> LF \<notin> set l \<Longrightarrow> value_ok v"
  unfolding value_ok_def using parse_line_SomeD(4,5) by blast

lemma definesKey_iff: "definesKey l k \<longleftrightarrow> (\<exists>v. parse_line l = Some (k, v))"
  by (auto simp: definesKey_def parse_line_def Let_def split: option.splits)

section \<open>Splitting joined lines\<close>

definition strip_cr :: "string \<Rightarrow> string" where
  "strip_cr l = (if l \<noteq> [] \<and> last l = CR then butlast l else l)"

lemma trim_strip_cr: "trim (strip_cr l) = trim l"
proof (cases l rule: rev_cases)
  case (snoc p c)
  show ?thesis
  proof (cases "c = CR")
    case True
    have ws: "js_ws CR" by (simp add: js_ws_def)
    show ?thesis
    proof (cases "trimStart p = []")
      case True
      then have "\<forall>c \<in> set p. js_ws c" by (simp add: trimStart_def)
      then have "\<forall>c \<in> set l. js_ws c" using snoc \<open>c = CR\<close> ws by auto
      then have "trim l = []" "trim p = []"
        using \<open>\<forall>c \<in> set p. js_ws c\<close> by (simp_all add: trim_eq_Nil_iff)
      then show ?thesis using snoc \<open>c = CR\<close> by (simp add: strip_cr_def)
    next
      case False
      then have "trimStart l = trimStart p @ [CR]"
        using snoc \<open>c = CR\<close> by (auto simp: trimStart_def dropWhile_append)
      then show ?thesis using snoc \<open>c = CR\<close> ws by (simp add: strip_cr_def trim_def trimEnd_snoc)
    qed
  qed (simp add: snoc strip_cr_def)
qed (simp add: strip_cr_def)

lemma split_lines_append_LF_gen:
  assumes "LF \<notin> set l"
  shows "split_lines (l @ LF # rest) = strip_cr l # split_lines rest"
  using assms
proof (induction l)
  case (Cons c l)
  then show ?case by (cases l) (auto simp: strip_cr_def)
qed (simp add: strip_cr_def)

lemma map_trim_split_join:
  assumes "ls \<noteq> []" and "\<forall>l \<in> set ls. LF \<notin> set l"
  shows "map trim (split_lines (join_lines ls)) = map trim ls"
  using assms
proof (induction ls rule: join_lines.induct)
  case (2 l)
  then show ?case by (simp add: split_lines_single)
next
  case (3 l l' ls)
  then show ?case by (simp add: split_lines_append_LF_gen trim_strip_cr)
qed simp

text \<open>The entries of a list of lines; only the trimmed lines matter.\<close>

definition entries :: "string list \<Rightarrow> (string \<times> string) list" where
  "entries ls = List.map_filter parse_line ls"

lemma entries_simps [simp]:
  "entries [] = []"
  "entries (l # ls) = (case parse_line l of None \<Rightarrow> entries ls | Some kv \<Rightarrow> kv # entries ls)"
  "entries (ls @ ms) = entries ls @ entries ms"
  by (simp_all add: entries_def map_filter_def split: option.splits)

lemma parseEnvLines_entries: "parseEnvLines t = entries (split_lines t)"
  by (simp add: parseEnvLines_def entries_def)

lemma entries_trim: "entries (map trim ls) = entries ls"
  by (induction ls) (simp_all add: parse_line_trim split: option.split)

lemma parseEnvLines_join:
  assumes "\<forall>l \<in> set ls. LF \<notin> set l"
  shows "parseEnvLines (join_lines ls) = entries ls"
proof (cases "ls = []")
  case False
  then show ?thesis
    using map_trim_split_join [OF False assms] entries_trim by (metis parseEnvLines_entries)
qed (simp add: parseEnvLines_entries)

lemma in_entries: "(k, v) \<in> set (entries ls) \<longleftrightarrow> (\<exists>l \<in> set ls. parse_line l = Some (k, v))"
  by (induction ls) (auto split: option.splits)

lemma parseEnvLines_value_ok: "(k, v) \<in> set (parseEnvLines t) \<Longrightarrow> value_ok v"
  by (auto simp: parseEnvLines_entries in_entries dest: split_lines_no_LF parse_line_value_ok)

lemma map_of_envMap: "map_of (envMap t) = map_of (rev (parseEnvLines t))"
  by (simp add: envMap_def map_of_map_of_entries)

lemma set_keysOf: "set (keysOf t) = fst ` set (parseEnvLines t)"
  by (simp add: keysOf_def)

lemma envMap_keys: "fst ` set (envMap t) = set (keysOf t)"
  by (simp add: envMap_def keys_map_of_entries set_keysOf)

lemma distinct_keysOf [simp]: "distinct (keysOf t)"
  by (simp add: keysOf_def)

lemma has_key_envMap: "has_key (envMap t) k \<longleftrightarrow> k \<in> set (keysOf t)"
  by (simp add: has_key_def map_of_eq_None_iff envMap_keys)

section \<open>Key-wise writes\<close>

lemma find_index_SomeD:
  "find_index P xs = Some i \<Longrightarrow> i < length xs \<and> P (xs ! i) \<and> (\<forall>x \<in> set (take i xs). \<not> P x)"
  by (induction xs arbitrary: i) (auto split: if_splits)

lemma find_index_None_iff: "find_index P xs = None \<longleftrightarrow> (\<forall>x \<in> set xs. \<not> P x)"
  by (induction xs) auto

lemma split_LF_no_LF: "l \<in> set (split_LF s) \<Longrightarrow> LF \<notin> set l"
proof (induction s arbitrary: l)
  case (Cons c s)
  then show ?case by (cases "split_LF s") (auto split: if_splits)
qed simp

lemma noteLines_props: "l \<in> set (noteLines n) \<Longrightarrow> LF \<notin> set l \<and> parse_line l = None"
  by (auto simp: noteLines_def dest: split_LF_no_LF split: if_splits)

lemma note_block_props:
  "note_block notes k = Some b \<Longrightarrow> l \<in> set b \<Longrightarrow> LF \<notin> set l \<and> parse_line l = None"
  by (auto simp: note_block_def noteLines_props split: got.splits if_splits)

lemma entries_none: "\<forall>l \<in> set ls. parse_line l = None \<Longrightarrow> entries ls = []"
  by (induction ls) auto

lemma pop_blank_prefix: "\<exists>bs. ls = pop_blank ls @ bs \<and> (\<forall>l \<in> set bs. trim l = [])"
proof -
  let ?P = "\<lambda>l. trim l = []"
  have "ls = rev (dropWhile ?P (rev ls)) @ rev (takeWhile ?P (rev ls))"
    by (metis rev_append rev_rev_ident takeWhile_dropWhile_id)
  then show ?thesis unfolding pop_blank_def
    by (intro exI [of _ "rev (takeWhile ?P (rev ls))"]) (auto dest: set_takeWhileD)
qed

lemma entries_pop_blank [simp]: "entries (pop_blank ls) = entries ls"
proof -
  obtain bs where bs: "ls = pop_blank ls @ bs" "\<forall>l \<in> set bs. trim l = []"
    using pop_blank_prefix by blast
  then have "entries bs = []" by (intro entries_none) (simp add: parse_line_blank)
  then show ?thesis using bs(1) by (metis append_Nil2 entries_simps(3))
qed

lemma set_pop_blank: "set (pop_blank ls) \<subseteq> set ls"
  using pop_blank_prefix [of ls] by (metis set_append Un_upper1)

lemma entries_filter_defines:
  "entries (filter (\<lambda>l. \<not> definesKey l k) ls) = filter (\<lambda>(k', v). k' \<noteq> k) (entries ls)"
  by (induction ls) (auto simp: definesKey_iff split: option.splits)

lemma entries_keys: "fst ` set (entries ls) = {k. \<exists>l \<in> set ls. definesKey l k}"
  by (induction ls) (auto simp: definesKey_iff split: option.splits)

lemma map_of_filter_key:
  "map_of (rev (filter (\<lambda>(k', v). k' \<noteq> k) es)) = (map_of (rev es))(k := None)"
  by (induction es) (auto simp: map_add_def fun_eq_iff split: option.splits)

text \<open>Writing one key: afterwards that key has the value, every other key is as before.\<close>

lemma set_value_entries:
  assumes "ENV_NAME k" and "value_ok v" and "set_value notes k v ls = Some ls'"
  shows "map_of (rev (entries ls')) = (map_of (rev (entries ls)))(k \<mapsto> v)"
proof (cases "find_index (\<lambda>l. definesKey l k) ls")
  case None
  define ls1 where "ls1 = pop_blank ls"
  define ls2 where "ls2 = (if ls1 \<noteq> [] \<and> starts_with ''#'' (trim (last ls1)) then ls1 @ [[]] else ls1)"
  from assms(3) None obtain b where b: "note_block notes k = Some b"
      and ls': "ls' = ls2 @ b @ [k @ ''='' @ v]"
    by (auto simp: set_value_def ls1_def ls2_def Let_def)
  have "entries b = []" using note_block_props [OF b] by (intro entries_none) blast
  moreover have "entries ls2 = entries ls" by (simp add: ls2_def ls1_def)
  ultimately show ?thesis using assms(1,2) by (simp add: ls' parse_line_render)
next
  case (Some at)
  from find_index_SomeD [OF Some]
  have at: "at < length ls" and no: "\<forall>l \<in> set (take at ls). \<not> definesKey l k" by auto
  let ?a = "take at ls" and ?c = "drop (Suc at) ls"
  from assms(3) Some
  have "ls' = (take (Suc at) ls @ filter (\<lambda>l. \<not> definesKey l k) ?c)[at := k @ ''='' @ v]"
    by (simp add: set_value_def)
  also have "\<dots> = ?a @ (k @ ''='' @ v) # filter (\<lambda>l. \<not> definesKey l k) ?c"
    using at by (simp add: take_Suc_conv_app_nth list_update_append1 list_update_append)
  finally have e: "entries ls' = entries ?a @ (k, v) # filter (\<lambda>(k', v). k' \<noteq> k) (entries ?c)"
    using assms(1,2) by (simp add: parse_line_render entries_filter_defines)
  have "definesKey (ls ! at) k" using find_index_SomeD [OF Some] by auto
  then obtain w where w: "parse_line (ls ! at) = Some (k, w)" by (auto simp: definesKey_iff)
  have "ls = ?a @ ls ! at # ?c" using at by (simp add: id_take_nth_drop)
  then have "entries ls = entries ?a @ (k, w) # entries ?c"
    using w by (metis entries_simps(2,3) option.simps(5))
  then show ?thesis
    by (auto simp: e map_of_filter_key map_add_def fun_eq_iff split: option.splits)
qed

lemma set_value_no_LF:
  assumes "ENV_NAME k" and "value_ok v" and "set_value notes k v ls = Some ls'"
    and "\<forall>l \<in> set ls. LF \<notin> set l"
  shows "\<forall>l \<in> set ls'. LF \<notin> set l"
proof -
  have kv: "LF \<notin> set (k @ ''='' @ v)"
    using assms(1,2) ENV_NAME_chars name_rest_not_special by (auto simp: value_ok_def)
  show ?thesis
  proof (cases "find_index (\<lambda>l. definesKey l k) ls")
    case None
    then obtain b where "note_block notes k = Some b"
        and "set ls' \<subseteq> set (pop_blank ls) \<union> {[]} \<union> set b \<union> {k @ ''='' @ v}"
      using assms(3) by (fastforce simp: set_value_def Let_def split: if_splits)
    then show ?thesis using assms(4) kv set_pop_blank note_block_props by fastforce
  next
    case (Some at)
    let ?ls = "take (Suc at) ls @ filter (\<lambda>l. \<not> definesKey l k) (drop (Suc at) ls)"
    have eq: "ls' = ?ls[at := k @ ''='' @ v]"
      using assms(3) Some by (simp add: set_value_def)
    have "set ls' \<subseteq> insert (k @ ''='' @ v) (set ?ls)"
      unfolding eq by (rule set_update_subset_insert)
    also have "\<dots> \<subseteq> insert (k @ ''='' @ v) (set ls)"
      by (auto dest: in_set_takeD in_set_dropD)
    finally show ?thesis using assms(4) kv by blast
  qed
qed

lemma set_values_loop_entries:
  assumes "\<forall>(k, v) \<in> set es. ENV_NAME k \<and> value_ok v" and "set_values_loop notes es ls = Some ls'"
    and "\<forall>l \<in> set ls. LF \<notin> set l"
  shows "map_of (rev (entries ls')) = map_of (rev (entries ls)) ++ map_of (rev es) \<and>
         (\<forall>l \<in> set ls'. LF \<notin> set l)"
  using assms
proof (induction es arbitrary: ls)
  case (Cons e es)
  obtain k v where e: "e = (k, v)" by fastforce
  from Cons.prems(2) e obtain ls1 where
    s1: "set_value notes k v ls = Some ls1" and s2: "set_values_loop notes es ls1 = Some ls'"
    by (auto simp: bind_eq_Some_conv)
  have kv: "ENV_NAME k" "value_ok v" using Cons.prems(1) e by auto
  note nl = set_value_no_LF [OF kv s1 Cons.prems(3)]
  note IH = Cons.IH [OF _ s2 nl]
  show ?case
    using IH Cons.prems(1) set_value_entries [OF kv s1] e
    by (auto simp: map_add_def fun_eq_iff split: option.splits)
qed simp

text \<open>When a write throws: a new key without a note of its own, named like a member of \<open>Object.prototype\<close>.\<close>

lemma set_value_error:
  "set_value notes k v ls = None \<longleftrightarrow>
     k \<notin> fst ` set (entries ls) \<and> obj_get notes k = Inherited"
proof -
  have "find_index (\<lambda>l. definesKey l k) ls = None \<longleftrightarrow> k \<notin> fst ` set (entries ls)"
    by (auto simp: find_index_None_iff entries_keys)
  then show ?thesis
    by (auto simp: set_value_def Let_def note_block_def split: option.splits got.splits)
qed

lemma set_values_loop_total:
  assumes "\<forall>(k, v) \<in> set es. obj_get notes k \<noteq> Inherited"
  shows "\<exists>ls'. set_values_loop notes es ls = Some ls'"
  using assms
proof (induction es arbitrary: ls)
  case (Cons e es)
  obtain k v where e: "e = (k, v)" by fastforce
  with Cons.prems have "set_value notes k v ls \<noteq> None" by (auto simp: set_value_error)
  then show ?case using Cons e by auto
qed simp

lemma setValues_lookup:
  assumes "\<forall>(k, v) \<in> set es. ENV_NAME k \<and> value_ok v" and "setValues t es notes = Some t'"
  shows "map_of (envMap t') = map_of (envMap t) ++ map_of (rev es)"
proof -
  let ?ls = "if t = [] then [] else split_lines t"
  obtain ls' where ls': "set_values_loop notes es ?ls = Some ls'" "t' = join_lines ls'"
    using assms(2) by (auto simp: setValues_def)
  have "\<forall>l \<in> set ?ls. LF \<notin> set l" using split_lines_no_LF by auto
  then have "map_of (rev (entries ls')) = map_of (rev (entries ?ls)) ++ map_of (rev es)" "\<forall>l \<in> set ls'. LF \<notin> set l"
    using set_values_loop_entries [OF assms(1) ls'(1)] by auto
  moreover have "entries ?ls = parseEnvLines t" by (simp add: parseEnvLines_entries)
  ultimately show ?thesis using ls' by (simp add: map_of_envMap parseEnvLines_join)
qed

section \<open>References\<close>

lemma span_append:
  assumes "list_all P xs" and "ys = [] \<or> \<not> P (hd ys)"
  shows "takeWhile P (xs @ ys) = xs" and "dropWhile P (xs @ ys) = ys"
  using assms by (induction xs; cases ys; simp)+

text \<open>The language of the \<open>REFERENCE\<close> expression, as a shape of the text.\<close>

definition opt_text :: "char \<Rightarrow> string option \<Rightarrow> string" where
  "opt_text c g = (case g of None \<Rightarrow> [] | Some x \<Rightarrow> c # x)"

definition opt_all :: "(char \<Rightarrow> bool) \<Rightarrow> string option \<Rightarrow> bool" where
  "opt_all P g = (case g of None \<Rightarrow> True | Some x \<Rightarrow> x \<noteq> [] \<and> list_all P x)"

definition ref_body :: "string \<Rightarrow> refm \<Rightarrow> string \<Rightarrow> string" where
  "ref_body w1 m w2 = w1 @ scope m @ ''.'' @ refname m @ opt_text CHR ''.'' (field m)
     @ opt_text CHR '':'' (dbname m) @ w2 @ ''}}''"

definition ref_shape :: "string \<Rightarrow> refm \<Rightarrow> string \<Rightarrow> bool" where
  "ref_shape s m rest \<longleftrightarrow> (\<exists>w1 w2. s = ''${{'' @ ref_body w1 m w2 @ rest \<and> whole m = ''${{'' @ ref_body w1 m w2
     \<and> list_all js_ws w1 \<and> list_all js_ws w2
     \<and> scope m \<noteq> [] \<and> list_all is_lower (scope m)
     \<and> refname m \<noteq> [] \<and> list_all ref_name_char (refname m)
     \<and> opt_all is_lower (field m) \<and> opt_all ref_db_char (dbname m))"

lemma opt_group_SomeD:
  assumes "opt_group c P s = (g, t)"
  shows "s = opt_text c g @ t" and "opt_all P g"
proof -
  show "s = opt_text c g @ t"
    using assms by (cases s) (auto simp: opt_group_def opt_text_def split: if_splits)
  show "opt_all P g"
    using assms by (auto simp: opt_group_def opt_all_def list_all_iff dest: set_takeWhileD split: if_splits)
qed

lemma starts_with_append: "starts_with p s \<longleftrightarrow> (\<exists>t. s = p @ t)"
  by (metis append_take_drop_id append_eq_conv_conj starts_with_def)

lemma match_ref_sound:
  assumes "match_ref s = Some (m, rest)"
  shows "ref_shape s m rest"
proof -
  from assms obtain t where s: "s = ''${{'' @ t"
    by (auto simp: match_ref_def starts_with_append split: if_splits)
  let ?s1 = "dropWhile js_ws t"
  let ?s2 = "dropWhile is_lower ?s1"
  let ?s3 = "dropWhile ref_name_char (tl ?s2)"
  obtain fd s4 where g1: "opt_group CHR ''.'' is_lower ?s3 = (fd, s4)" by fastforce
  obtain db s5 where g2: "opt_group CHR '':'' ref_db_char s4 = (db, s5)" by fastforce
  from assms s g1 g2 have ne: "takeWhile is_lower ?s1 \<noteq> []" "?s2 \<noteq> []" "hd ?s2 = CHR ''.''"
      "takeWhile ref_name_char (tl ?s2) \<noteq> []" and e: "starts_with ''}}'' (dropWhile js_ws s5)"
    and m: "m = \<lparr>whole = take (length s - length (drop 2 (dropWhile js_ws s5))) s,
          scope = takeWhile is_lower ?s1, refname = takeWhile ref_name_char (tl ?s2),
          field = fd, dbname = db\<rparr>" and r: "rest = drop 2 (dropWhile js_ws s5)"
    by (auto simp: match_ref_def starts_with_def Let_def split: if_splits)
  let ?w1 = "takeWhile js_ws t" and ?w2 = "takeWhile js_ws s5"
  from e have s5: "s5 = ?w2 @ ''}}'' @ rest"
    by (metis append_eq_conv_conj r starts_with_append takeWhile_dropWhile_id length_Cons list.size(3)
        numeral_2_eq_2)
  have "t = ?w1 @ takeWhile is_lower ?s1 @ CHR ''.'' # tl ?s2"
    using ne(2,3) by (metis list.collapse takeWhile_dropWhile_id)
  also have "tl ?s2 = takeWhile ref_name_char (tl ?s2) @ ?s3" by simp
  also have "?s3 = opt_text CHR ''.'' fd @ opt_text CHR '':'' db @ ?w2 @ ''}}'' @ rest"
    using opt_group_SomeD(1) [OF g1] opt_group_SomeD(1) [OF g2] s5 by metis
  finally have t: "t = ref_body ?w1 m ?w2 @ rest" by (simp add: ref_body_def m)
  define b where "b = ''${{'' @ ref_body ?w1 m ?w2"
  have "s = b @ rest" using t by (simp add: s b_def)
  then have "take (length s - length rest) s = b" by simp
  moreover have "whole m = take (length s - length rest) s" by (simp only: m refm.simps r)
  ultimately have w: "whole m = ''${{'' @ ref_body ?w1 m ?w2" by (simp only: b_def)
  show ?thesis
    unfolding ref_shape_def
    using t w s ne opt_group_SomeD(2) [OF g1] opt_group_SomeD(2) [OF g2]
    by (intro exI [of _ ?w1] exI [of _ ?w2])
       (auto simp: m list_all_iff dest: set_takeWhileD)
qed

lemma ref_char_facts:
  "is_lower c \<Longrightarrow> \<not> js_ws c" "\<not> is_lower CHR ''.''" "\<not> ref_name_char CHR ''.''"
  "\<not> ref_name_char CHR '':''" "\<not> ref_name_char CHR ''}''" "js_ws c \<Longrightarrow> \<not> ref_name_char c"
  "js_ws c \<Longrightarrow> \<not> is_lower c" "js_ws c \<Longrightarrow> \<not> ref_db_char c" "\<not> is_lower CHR '':''" "\<not> is_lower CHR ''}''"
  "\<not> ref_db_char CHR ''}''" "\<not> js_ws CHR ''}''" "js_ws c \<Longrightarrow> c \<noteq> CHR ''.'' \<and> c \<noteq> CHR '':''"
  by (auto simp: is_lower_def js_ws_def ref_name_char_def ref_db_char_def is_alpha_def is_upper_def is_digit_def)

lemma opt_group_complete:
  assumes "opt_all P g" and "t = [] \<or> (\<not> P (hd t) \<and> hd t \<noteq> c)"
  shows "opt_group c P (opt_text c g @ t) = (g, t)"
proof (cases g)
  case None
  then show ?thesis using assms(2) by (auto simp: opt_group_def opt_text_def)
next
  case (Some a)
  then have a: "a \<noteq> []" "list_all P a" using assms(1) by (simp_all add: opt_all_def)
  have "takeWhile P (a @ t) = a" "dropWhile P (a @ t) = t"
    using span_append [OF a(2), of t] assms(2) by auto
  then show ?thesis using a Some by (simp add: opt_group_def opt_text_def)
qed

lemma ref_end_facts:
  assumes "js_ws y \<or> y = CHR ''}''"
  shows "\<not> ref_db_char y \<and> y \<noteq> CHR '':''"
    and "x = CHR '':'' \<or> x = y \<Longrightarrow> \<not> is_lower x \<and> x \<noteq> CHR ''.''"
    and "x = CHR '':'' \<or> x = y \<Longrightarrow> z = CHR ''.'' \<or> z = x \<Longrightarrow> \<not> ref_name_char z"
  using assms by (auto simp: ref_char_facts(2-5,9-12) dest: ref_char_facts(6,7,8,13))

lemma match_ref_complete:
  assumes "ref_shape s m rest"
  shows "match_ref s = Some (m, rest)"
proof -
  from assms obtain w1 w2 where s: "s = ''${{'' @ ref_body w1 m w2 @ rest"
      and wh: "whole m = ''${{'' @ ref_body w1 m w2"
      and w: "list_all js_ws w1" "list_all js_ws w2"
      and sc: "scope m \<noteq> []" "list_all is_lower (scope m)"
      and nm: "refname m \<noteq> []" "list_all ref_name_char (refname m)"
      and fd: "opt_all is_lower (field m)" and db: "opt_all ref_db_char (dbname m)"
    by (auto simp: ref_shape_def)
  let ?e = "''}}'' @ rest"
  let ?t = "w2 @ ?e"
  let ?d = "opt_text CHR '':'' (dbname m) @ ?t"
  let ?f = "opt_text CHR ''.'' (field m) @ ?d"
  let ?n = "refname m @ ?f"
  let ?s = "scope m @ CHR ''.'' # ?n"
  have ht: "js_ws (hd ?t) \<or> hd ?t = CHR ''}''" using w(2) by (cases w2) auto
  have hd1: "hd ?d = CHR '':'' \<or> hd ?d = hd ?t" by (cases "dbname m") (auto simp: opt_text_def)
  have hf: "hd ?f = CHR ''.'' \<or> hd ?f = hd ?d" by (cases "field m") (auto simp: opt_text_def)
  have d3: "drop 3 s = w1 @ ?s" by (simp add: s ref_body_def)
  have "js_ws (hd ?s) = False" using sc ref_char_facts(1) by (cases "scope m") auto
  then have a: "dropWhile js_ws (drop 3 s) = ?s"
    unfolding d3 by (intro span_append(2) w(1)) simp
  have b: "takeWhile is_lower ?s = scope m" "dropWhile is_lower ?s = CHR ''.'' # ?n"
    using span_append [OF sc(2), of "CHR ''.'' # ?n"] ref_char_facts by simp_all
  have "\<not> ref_name_char (hd ?f)" by (rule ref_end_facts(3) [OF ht hd1 hf])
  then have c: "takeWhile ref_name_char ?n = refname m" "dropWhile ref_name_char ?n = ?f"
    using span_append [OF nm(2), of ?f] by simp_all
  have "\<not> is_lower (hd ?d) \<and> hd ?d \<noteq> CHR ''.''" by (rule ref_end_facts(2) [OF ht hd1])
  then have g1: "opt_group CHR ''.'' is_lower ?f = (field m, ?d)"
    by (intro opt_group_complete fd) simp
  have "\<not> ref_db_char (hd ?t) \<and> hd ?t \<noteq> CHR '':''" by (rule ref_end_facts(1) [OF ht])
  then have g2: "opt_group CHR '':'' ref_db_char ?d = (dbname m, ?t)"
    by (intro opt_group_complete db) simp
  have e: "dropWhile js_ws ?t = ?e" using span_append(2) [OF w(2), of ?e] ref_char_facts by simp
  have st: "starts_with ''${{'' s" "starts_with ''}}'' ?e" by (simp_all add: s starts_with_def)
  have "s = whole m @ rest" by (simp add: s wh)
  then have wt: "take (length s - length rest) s = whole m" by simp
  show ?thesis
    using st a b c g1 g2 e sc(1) nm(1) wt ref_char_facts(2)
    by (simp add: match_ref_def Let_def)
qed

lemma match_ref_iff_shape: "match_ref s = Some (m, rest) \<longleftrightarrow> ref_shape s m rest"
  using match_ref_sound match_ref_complete by blast

text \<open>Between the opening braces and the end of a match there is no further opening.\<close>

lemma count_opens_skip:
  assumes "CHR ''{'' \<notin> set b" and "b = [] \<or> last b \<noteq> CHR ''$''"
  shows "count_opens (b @ rest) = count_opens rest"
  using assms
proof (induction b)
  case (Cons c b)
  have "\<not> starts_with ''${{'' ((c # b) @ rest)"
    using Cons.prems by (cases b) (auto simp: starts_with_def split: if_splits)
  moreover have "b = [] \<or> last b \<noteq> CHR ''$''" using Cons.prems(2) by (auto split: if_splits)
  ultimately show ?case using Cons by simp
qed simp

lemma opt_text_no_brace: "opt_all P g \<Longrightarrow> \<not> P CHR ''{'' \<Longrightarrow> c \<noteq> CHR ''{'' \<Longrightarrow> CHR ''{'' \<notin> set (opt_text c g)"
  by (auto simp: opt_all_def opt_text_def list_all_iff split: option.splits)

lemma brace_facts: "\<not> js_ws CHR ''{''" "\<not> is_lower CHR ''{''" "\<not> ref_name_char CHR ''{''" "\<not> ref_db_char CHR ''{''"
  by (simp_all add: js_ws_def is_lower_def ref_db_char_def ref_name_char_def is_alpha_def is_upper_def is_digit_def)

lemma match_ref_decomp:
  assumes "match_ref s = Some (m, rest)"
  obtains b where "s = ''${{'' @ b @ rest" and "CHR ''{'' \<notin> set b" and "last b \<noteq> CHR ''$''"
proof -
  from match_ref_sound [OF assms] obtain w1 w2 where s: "s = ''${{'' @ ref_body w1 m w2 @ rest"
      and c: "list_all js_ws w1" "list_all js_ws w2" "list_all is_lower (scope m)"
        "list_all ref_name_char (refname m)" "opt_all is_lower (field m)" "opt_all ref_db_char (dbname m)"
    by (auto simp: ref_shape_def)
  have "CHR ''{'' \<notin> set (ref_body w1 m w2)"
    using c brace_facts opt_text_no_brace by (auto simp: ref_body_def list_all_iff)
  moreover have "last (ref_body w1 m w2) \<noteq> CHR ''$''" by (simp add: ref_body_def)
  ultimately show thesis using s that by blast
qed

lemma count_opens_match:
  assumes "match_ref s = Some (m, rest)"
  shows "count_opens s = Suc (count_opens rest)"
proof -
  from assms obtain b where s: "s = ''${{'' @ b @ rest" and b: "CHR ''{'' \<notin> set b" "last b \<noteq> CHR ''$''"
    by (rule match_ref_decomp)
  then have "count_opens (b @ rest) = count_opens rest" by (intro count_opens_skip) auto
  then show ?thesis by (simp add: s starts_with_def)
qed

lemma match_all_simps:
  "match_all [] = []"
  "match_all (c # cs) = (case match_ref (c # cs) of Some (m, rest) \<Rightarrow> m # match_all rest | None \<Rightarrow> match_all cs)"
  by (auto simp: match_all_def split: option.splits prod.splits list.splits)

lemma ref_induct [case_names Nil Match Skip]:
  assumes "P []"
    and "\<And>c cs m rest. match_ref (c # cs) = Some (m, rest) \<Longrightarrow> P rest \<Longrightarrow> P (c # cs)"
    and "\<And>c cs. match_ref (c # cs) = None \<Longrightarrow> P cs \<Longrightarrow> P (c # cs)"
  shows "P v"
proof (induction v rule: length_induct)
  case (1 v)
  show ?case
  proof (cases v)
    case (Cons c cs)
    show ?thesis
    proof (cases "match_ref (c # cs)")
      case (Some mr)
      obtain m rest where mr: "mr = (m, rest)" by fastforce
      have "length rest < length v" using match_ref_shorter Some mr Cons by blast
      then show ?thesis using "1" assms(2) [OF Some [unfolded mr]] Cons by blast
    qed (use "1" assms(3) Cons in simp)
  qed (use assms(1) in simp)
qed

lemma count_opens_open: "starts_with ''${{'' (c # cs) \<Longrightarrow> count_opens (c # cs) = Suc (count_opens cs)"
  by (auto simp: starts_with_append Cons_eq_append_conv)

lemma count_opens_closed: "\<not> starts_with ''${{'' (c # cs) \<Longrightarrow> count_opens (c # cs) = count_opens cs"
  by simp

declare count_opens.simps(2) [simp del]

lemma count_opens_ge: "length (match_all v) \<le> count_opens v"
proof (induction v rule: ref_induct)
  case (Match c cs m rest)
  then show ?case by (simp add: match_all_simps count_opens_match)
next
  case (Skip c cs)
  then show ?case
    by (cases "starts_with ''${{'' (c # cs)") (simp_all add: match_all_simps count_opens_open count_opens_closed)
qed (simp add: match_all_simps)

text \<open>Every \<open>${{\<close> in the value begins a reference.\<close>

definition opens_matched :: "string \<Rightarrow> bool" where
  "opens_matched v \<longleftrightarrow> (\<forall>p t. v = p @ t \<longrightarrow> starts_with ''${{'' t \<longrightarrow> match_ref t \<noteq> None)"

lemma opens_matched_Nil: "opens_matched []"
  by (simp add: opens_matched_def starts_with_def)

lemma opens_matched_Cons:
  "opens_matched (c # cs) \<longleftrightarrow>
     (starts_with ''${{'' (c # cs) \<longrightarrow> match_ref (c # cs) \<noteq> None) \<and> opens_matched cs"
  by (auto simp: opens_matched_def Cons_eq_append_conv)

lemma opens_matched_skip:
  assumes "CHR ''{'' \<notin> set b" and "b = [] \<or> last b \<noteq> CHR ''$''"
  shows "opens_matched (b @ rest) \<longleftrightarrow> opens_matched rest"
  using assms
proof (induction b)
  case (Cons c b)
  have "\<not> starts_with ''${{'' ((c # b) @ rest)"
    using Cons.prems by (cases b) (auto simp: starts_with_def split: if_splits)
  moreover have "b = [] \<or> last b \<noteq> CHR ''$''" using Cons.prems(2) by (auto split: if_splits)
  ultimately show ?case using Cons by (simp add: opens_matched_Cons)
qed simp

lemma opens_matched_match:
  assumes "match_ref s = Some (m, rest)"
  shows "opens_matched s \<longleftrightarrow> opens_matched rest"
proof -
  from assms obtain b where s: "s = ''${{'' @ b @ rest" and b: "CHR ''{'' \<notin> set b" "last b \<noteq> CHR ''$''"
    by (rule match_ref_decomp)
  then have "opens_matched (b @ rest) \<longleftrightarrow> opens_matched rest" by (intro opens_matched_skip) auto
  then show ?thesis using assms by (simp add: s opens_matched_Cons starts_with_def)
qed

lemma opens_matched_iff: "count_opens v = length (match_all v) \<longleftrightarrow> opens_matched v"
proof (induction v rule: ref_induct)
  case (Match c cs m rest)
  then show ?case
    using opens_matched_match [OF Match(1)] by (simp add: match_all_simps count_opens_match)
next
  case (Skip c cs)
  then show ?case
    using count_opens_ge [of cs]
    by (cases "starts_with ''${{'' (c # cs)")
       (auto simp: match_all_simps count_opens_open count_opens_closed opens_matched_Cons)
qed (simp add: match_all_simps opens_matched_Nil)

section \<open>Validation\<close>

definition refs_ok :: "string \<Rightarrow> bool" where
  "refs_ok v \<longleftrightarrow> opens_matched v \<and> (\<forall>m \<in> set (match_all v). check_ref m = None)"

lemma check_refs_None: "check_refs ms = None \<longleftrightarrow> (\<forall>m \<in> set ms. check_ref m = None)"
  by (induction ms) (auto split: option.splits)

lemma check_values_None: "check_values vs = None \<longleftrightarrow> (\<forall>v \<in> set vs. refs_ok v)"
proof (induction vs)
  case (Cons v vs)
  show ?case
    using Cons check_refs_None [of "match_all v"]
    by (cases "check_refs (match_all v)") (auto simp: refs_ok_def opens_matched_iff)
qed simp

lemma parse_line_alt: "parse_line l = (if skip_line (trim l) then None else split_eq (trim l))"
  by (simp add: parse_line_def Let_def)

lemma scan_lines_Inr:
  "scan_lines i ls seen vals = Inr vs \<longleftrightarrow>
     (\<forall>l \<in> set ls. skip_line (trim l) \<or> parse_line l \<noteq> None) \<and> distinct (map fst (entries ls)) \<and>
     (\<forall>(k, v) \<in> set (entries ls). ENV_NAME k \<and> k \<notin> set seen) \<and> vs = vals @ map snd (entries ls)"
proof (induction ls arbitrary: i seen vals)
  case (Cons l ls)
  show ?case
  proof (cases "skip_line (trim l)")
    case True
    then show ?thesis using Cons by (simp add: parse_line_alt Let_def)
  next
    case False
    show ?thesis
    proof (cases "split_eq (trim l)")
      case None
      then show ?thesis using False by (simp add: parse_line_alt Let_def)
    next
      case (Some kv)
      then obtain k v where "split_eq (trim l) = Some (k, v)" by (cases kv) auto
      then show ?thesis using False Cons
        by (fastforce simp: parse_line_alt Let_def image_iff)
    qed
  qed
qed auto

section \<open>Rendering a normalised text\<close>

lemma normalize_out_None:
  "normalize_out notes kvs = None \<longleftrightarrow> (\<exists>k \<in> fst ` set kvs. obj_get notes k = Inherited)"
proof (induction kvs)
  case (Cons kv kvs)
  then show ?case
    by (cases kv) (auto simp: note_block_def Option.bind_eq_None_conv split: got.splits)
qed simp

lemma normalize_out_entries:
  assumes "\<forall>(k, v) \<in> set kvs. ENV_NAME k \<and> value_ok v" and "normalize_out notes kvs = Some ls"
  shows "entries ls = kvs \<and> (\<forall>l \<in> set ls. LF \<notin> set l)"
  using assms
proof (induction kvs arbitrary: ls)
  case (Cons kv kvs)
  obtain k v where kv: "kv = (k, v)" by fastforce
  from Cons.prems(2) kv obtain b ls1 where b: "note_block notes k = Some b"
      and ls1: "normalize_out notes kvs = Some ls1" and ls: "ls = b @ (k @ ''='' @ v) # ls1"
    by (auto simp: bind_eq_Some_conv)
  have ok: "ENV_NAME k" "value_ok v" using Cons.prems(1) kv by auto
  have "entries b = []" using note_block_props [OF b] by (intro entries_none) blast
  moreover have "LF \<notin> set (k @ ''='' @ v)"
    using ok ENV_NAME_chars name_rest_not_special by (auto simp: value_ok_def)
  ultimately show ?case
    using Cons.IH [OF _ ls1] Cons.prems(1) note_block_props [OF b] ok kv ls
    by (auto simp: parse_line_render)
qed simp

lemma valid_entries_ok:
  "(k, v) \<in> set (map_of_entries (filter (\<lambda>(k, v). ENV_NAME k) (parseEnvLines t))) \<Longrightarrow> ENV_NAME k \<and> value_ok v"
  using map_of_entries_subset parseEnvLines_value_ok by fastforce

lemma normalize_parse:
  assumes "normalizeEnvText t = Some t'"
  shows "parseEnvLines t' = map_of_entries (filter (\<lambda>(k, v). ENV_NAME k) (parseEnvLines t))"
proof -
  let ?es = "map_of_entries (filter (\<lambda>(k, v). ENV_NAME k) (parseEnvLines t))"
  from assms obtain ls where ls: "normalize_out (extractNotes t) ?es = Some ls" and t': "t' = join_lines ls"
    by (auto simp: normalizeEnvText_def)
  from ls have "entries ls = ?es \<and> (\<forall>l \<in> set ls. LF \<notin> set l)"
    by (rule normalize_out_entries [rotated]) (use valid_entries_ok in blast)
  then have "entries ls = ?es" and "\<forall>l \<in> set ls. LF \<notin> set l" by simp_all
  then show ?thesis by (simp add: t' parseEnvLines_join)
qed

section \<open>Rewriting project references\<close>

lemma rewrite_dollar_free_prefix:
  assumes "rewriteProjectReferences s = p @ r" and "CHR ''$'' \<notin> set p"
  shows "\<exists>t. s = p @ t \<and> rewriteProjectReferences t = r"
  using assms
proof (induction p arbitrary: s)
  case (Cons c p)
  show ?case
  proof (cases s)
    case (Cons d ds)
    show ?thesis
    proof (cases "match_project (d # ds)")
      case None
      then have "rewriteProjectReferences s = d # rewriteProjectReferences ds" using Cons by simp
      then have d: "d = c" "rewriteProjectReferences ds = p @ r" using Cons.prems(1) by simp_all
      then obtain t where "ds = p @ t" "rewriteProjectReferences t = r"
        using Cons.IH [of ds] Cons.prems(2) by auto
      then show ?thesis using Cons d(1) by simp
    next
      case (Some wr)
      obtain w rest where "wr = (w, rest)" by fastforce
      then have "rewriteProjectReferences s = CHR ''$'' # ''{{'' @ w @ ''vars.'' @ rewriteProjectReferences rest"
        using Some Cons by simp
      then show ?thesis using Cons.prems by simp
    qed
  qed (use Cons.prems in simp)
qed auto

lemma match_project_shape:
  "match_project s = Some (w, rest) \<longleftrightarrow> s = ''${{'' @ w @ ''project.'' @ rest \<and> list_all js_ws w"
proof
  assume "match_project s = Some (w, rest)"
  then obtain t u where "s = ''${{'' @ t" "dropWhile js_ws t = ''project.'' @ u" "w = takeWhile js_ws t"
      "rest = u"
    by (auto simp: match_project_def starts_with_append split: if_splits)
  then show "s = ''${{'' @ w @ ''project.'' @ rest \<and> list_all js_ws w"
    by (metis (no_types) list_all_iff set_takeWhileD takeWhile_dropWhile_id)
next
  assume a: "s = ''${{'' @ w @ ''project.'' @ rest \<and> list_all js_ws w"
  have "takeWhile js_ws (w @ ''project.'' @ rest) = w"
    "dropWhile js_ws (w @ ''project.'' @ rest) = ''project.'' @ rest"
    using a span_append [of js_ws w "''project.'' @ rest"] by (simp_all add: js_ws_def)
  then show "match_project s = Some (w, rest)"
    using a by (auto simp: match_project_def starts_with_def)
qed

lemma ws_dollar_free: "list_all js_ws w \<Longrightarrow> CHR ''$'' \<notin> set w"
proof -
  have "\<not> js_ws CHR ''$''" by (simp add: js_ws_def)
  then show "list_all js_ws w \<Longrightarrow> CHR ''$'' \<notin> set w" by (auto simp: list_all_iff)
qed

lemma no_project_after_literal:
  assumes "match_project (c # cs) = None"
  shows "match_project (c # rewriteProjectReferences cs) = None"
proof (rule ccontr)
  assume "match_project (c # rewriteProjectReferences cs) \<noteq> None"
  then obtain w rest where "c # rewriteProjectReferences cs = ''${{'' @ w @ ''project.'' @ rest"
      and w: "list_all js_ws w"
    using match_project_shape by fastforce
  then have c: "c = CHR ''$''" and r: "rewriteProjectReferences cs = (''{{'' @ w @ ''project.'') @ rest" by auto
  have "CHR ''$'' \<notin> set (''{{'' @ w @ ''project.'')" using ws_dollar_free [OF w] by simp
  from rewrite_dollar_free_prefix [OF r this] obtain t where "cs = (''{{'' @ w @ ''project.'') @ t" by blast
  then have "match_project (c # cs) = Some (w, t)" using c w by (simp add: match_project_shape)
  then show False using assms by simp
qed

lemma rewrite_skip:
  "match_project (c # cs) = None \<Longrightarrow> rewriteProjectReferences (c # cs) = c # rewriteProjectReferences cs"
  by simp

lemma rewrite_ws_skip: "CHR ''$'' \<notin> set p \<Longrightarrow> rewriteProjectReferences (p @ r) = p @ rewriteProjectReferences r"
proof (induction p)
  case (Cons c p)
  then have "match_project (c # p @ r) = None" by (auto simp: match_project_def starts_with_def)
  then have "rewriteProjectReferences (c # p @ r) = c # rewriteProjectReferences (p @ r)"
    by (rule rewrite_skip)
  then show ?case using Cons by simp
qed simp

lemma rewrite_rewrite: "rewriteProjectReferences (rewriteProjectReferences s) = rewriteProjectReferences s"
proof (induction s rule: length_induct)
  case (1 s)
  show ?case
  proof (cases s)
    case (Cons c cs)
    show ?thesis
    proof (cases "match_project (c # cs)")
      case None
      have "rewriteProjectReferences (c # rewriteProjectReferences cs)
          = c # rewriteProjectReferences (rewriteProjectReferences cs)"
        by (rule rewrite_skip [OF no_project_after_literal [OF None]])
      then show ?thesis using Cons None "1" by simp
    next
      case (Some wr)
      obtain w rest where wr: "wr = (w, rest)" by fastforce
      then have w: "list_all js_ws w" using Some match_project_shape by blast
      let ?r = "rewriteProjectReferences rest"
      have out: "rewriteProjectReferences s = CHR ''$'' # (''{{'' @ w @ ''vars.'') @ ?r"
        using Some Cons wr by simp
      have "dropWhile js_ws (w @ ''vars.'' @ ?r) = ''vars.'' @ ?r"
        using span_append(2) [OF w, of "''vars.'' @ ?r"] by (simp add: js_ws_def)
      then have "match_project (CHR ''$'' # (''{{'' @ w @ ''vars.'') @ ?r) = None"
        by (simp add: match_project_def starts_with_def)
      then have "rewriteProjectReferences (rewriteProjectReferences s)
          = CHR ''$'' # rewriteProjectReferences ((''{{'' @ w @ ''vars.'') @ ?r)"
        unfolding out by (rule rewrite_skip)
      also have "\<dots> = CHR ''$'' # (''{{'' @ w @ ''vars.'') @ rewriteProjectReferences ?r"
        using ws_dollar_free [OF w] by (subst rewrite_ws_skip) simp_all
      also have "rewriteProjectReferences ?r = ?r"
        using "1" match_project_shorter [OF Some [unfolded wr]] Cons by simp
      finally show ?thesis by (simp only: out)
    qed
  qed simp
qed

section \<open>Notes survive rendering\<close>

lemma join_split_LF: "join_lines (split_LF n) = n"
proof (induction n)
  case (Cons c n)
  have "split_LF n \<noteq> []" by (cases n) (auto split: list.splits)
  then obtain l ls where "split_LF n = l # ls" by (cases "split_LF n") auto
  then show ?case using Cons by (cases ls) auto
qed simp

text \<open>No white space except line feeds stands directly before a line feed.\<close>

definition lines_trimmed :: "string \<Rightarrow> bool" where
  "lines_trimmed s \<longleftrightarrow> (\<forall>a b. s = a @ LF # b \<longrightarrow> a = [] \<or> last a = LF \<or> \<not> js_ws (last a))"

definition note_ok :: "string \<Rightarrow> bool" where
  "note_ok n \<longleftrightarrow> n \<noteq> [] \<and> hd n \<noteq> LF \<and> length n \<le> NOTE_MAX \<and> trimEnd n = n \<and> lines_trimmed n"

lemma lines_trimmed_prefix: "lines_trimmed (a @ b) \<Longrightarrow> lines_trimmed a"
  by (auto simp: lines_trimmed_def)

lemma lines_trimmed_suffix:
  assumes "lines_trimmed (p @ s)"
  shows "lines_trimmed s"
  unfolding lines_trimmed_def
proof (intro allI impI)
  fix a b assume "s = a @ LF # b"
  then show "a = [] \<or> last a = LF \<or> \<not> js_ws (last a)"
    using assms [unfolded lines_trimmed_def, rule_format, of "p @ a" b] by (cases a) auto
qed

lemma append_LF_cases:
  assumes "l @ LF # s = a @ LF # b" and "LF \<notin> set l"
  shows "(\<exists>u. a = l @ LF # u \<and> s = u @ LF # b) \<or> a = l"
proof -
  from assms(1) consider us where "l = a @ us" "us @ LF # s = LF # b" | us where "l @ us = a" "LF # s = us @ LF # b"
    by (auto simp: append_eq_append_conv2)
  then show ?thesis
  proof cases
    case 1
    then show ?thesis using assms(2) by (cases us) auto
  next
    case 2
    then show ?thesis by (cases us) auto
  qed
qed

lemma length_trimEnd: "length (trimEnd s) \<le> length s"
  using trimEnd_prefix [of s] by (metis le_add1 length_append)

lemma lines_trimmed_join:
  assumes "\<forall>l \<in> set ls. LF \<notin> set l \<and> trimEnd l = l"
  shows "lines_trimmed (join_lines ls)"
  using assms
proof (induction ls rule: join_lines.induct)
  case (2 l)
  then show ?case by (auto simp: lines_trimmed_def)
next
  case (3 l l' ls)
  then have IH: "lines_trimmed (join_lines (l' # ls))" by simp
  have l: "LF \<notin> set l" "trimEnd l = l" using 3 by auto
  show ?case
    unfolding lines_trimmed_def
  proof (intro allI impI)
    fix a b assume "join_lines (l # l' # ls) = a @ LF # b"
    then have "l @ LF # join_lines (l' # ls) = a @ LF # b" by simp
    then consider u where "a = l @ LF # u" "join_lines (l' # ls) = u @ LF # b" | "a = l"
      using l(1) append_LF_cases by blast
    then show "a = [] \<or> last a = LF \<or> \<not> js_ws (last a)"
    proof cases
      case 1
      then show ?thesis using IH by (cases "u = []") (auto simp: lines_trimmed_def)
    next
      case 2
      then show ?thesis using l(2) trimEnd_id_iff by blast
    qed
  qed
qed (auto simp: lines_trimmed_def)

lemma trimEnd_is_prefix: "\<exists>w. s = trimEnd s @ w"
  using trimEnd_prefix by blast

lemma note_of_ok:
  assumes "\<forall>l \<in> set p. LF \<notin> set l \<and> trimEnd l = l" and "note_of p \<noteq> []"
  shows "note_ok (note_of p)"
proof -
  let ?j = "dropWhile (\<lambda>c. c = LF) (join_lines p)"
  let ?t = "trimEnd ?j"
  let ?u = "take NOTE_MAX ?t"
  have n: "note_of p = trimEnd ?u" by (simp add: note_of_def)
  have "lines_trimmed ?j"
    using lines_trimmed_join [OF assms(1)] lines_trimmed_suffix by (metis takeWhile_dropWhile_id)
  then have "lines_trimmed ?t" using trimEnd_is_prefix lines_trimmed_prefix by metis
  then have "lines_trimmed ?u" using lines_trimmed_prefix by (metis append_take_drop_id)
  then have lt: "lines_trimmed (trimEnd ?u)" using trimEnd_is_prefix lines_trimmed_prefix by metis
  have ne1: "trimEnd ?u \<noteq> []" using assms(2) unfolding n .
  then have ne2: "?u \<noteq> []" by (metis trimEnd_Nil)
  then have ne3: "?t \<noteq> []" by (metis take_Nil)
  then have ne4: "?j \<noteq> []" by (metis trimEnd_Nil)
  note ne = ne1 ne2 ne3 ne4
  have "hd ?u = hd ?t" using ne(2) by (simp add: hd_take)
  then have "hd (trimEnd ?u) = hd ?j" using ne hd_trimEnd by simp
  then have "hd (trimEnd ?u) \<noteq> LF" using hd_dropWhile [OF ne(4)] by simp
  moreover have "length (trimEnd ?u) \<le> NOTE_MAX"
    using length_trimEnd [of ?u] by simp
  ultimately show ?thesis using lt ne by (simp add: note_ok_def n)
qed

lemma split_LF_nonempty [simp]: "split_LF n \<noteq> []"
  by (cases n) (auto split: list.splits)

lemma split_LF_join:
  assumes "ls \<noteq> []" and "\<forall>l \<in> set ls. LF \<notin> set l"
  shows "split_LF (join_lines ls) = ls"
proof -
  have one: "LF \<notin> set l \<Longrightarrow> split_LF l = [l]" for l by (induction l) auto
  have app: "LF \<notin> set l \<Longrightarrow> split_LF (l @ LF # r) = l # split_LF r" for l r by (induction l) auto
  show ?thesis using assms by (induction ls rule: join_lines.induct) (simp_all add: one app)
qed

lemma lines_trimmed_lines:
  assumes "lines_trimmed n" and "trimEnd n = n"
  shows "\<forall>l \<in> set (split_LF n). trimEnd l = l"
proof -
  have "\<forall>l \<in> set ls. trimEnd l = l"
    if "ls \<noteq> []" "\<forall>l \<in> set ls. LF \<notin> set l" "lines_trimmed (join_lines ls)"
      "trimEnd (join_lines ls) = join_lines ls" for ls
    using that
  proof (induction ls rule: join_lines.induct)
    case (3 l l' ls)
    let ?j = "join_lines (l' # ls)"
    have j: "join_lines (l # l' # ls) = l @ LF # ?j" by simp
    have "l = [] \<or> last l = LF \<or> \<not> js_ws (last l)"
      using "3.prems"(3) unfolding j lines_trimmed_def by blast
    then have l: "trimEnd l = l" using "3.prems"(2) trimEnd_id_iff last_in_set by force
    have "lines_trimmed ((l @ [LF]) @ ?j)" using "3.prems"(3) j by simp
    then have "lines_trimmed ?j" by (rule lines_trimmed_suffix)
    moreover have "trimEnd ?j = ?j"
      using "3.prems"(4) unfolding j trimEnd_id_iff by (auto split: if_splits)
    ultimately show ?case using "3.IH" "3.prems"(2) l by simp
  qed simp_all
  from this [of "split_LF n"] show ?thesis
    using assms split_LF_no_LF by (simp add: join_split_LF)
qed

lemma comment_body_rendered:
  assumes "trimEnd l = l"
  shows "comment_body (trim (if l \<noteq> [] then ''# '' @ l else ''#'')) = l"
proof (cases "l = []")
  case True
  then show ?thesis by (simp add: trim_comment comment_body_def starts_with_def)
next
  case False
  then have "trimEnd ([CHR '' ''] @ l) = [CHR '' ''] @ l"
    using trimEnd_append_nonws [of l "[CHR '' '']"] assms by simp
  then show ?thesis using False assms by (simp add: trim_comment comment_body_def starts_with_def)
qed

lemma note_of_split: "note_ok n \<Longrightarrow> note_of (split_LF n) = n"
proof -
  assume n: "note_ok n"
  then have "dropWhile (\<lambda>c. c = LF) n = n" by (cases n) (simp_all add: note_ok_def)
  with n show ?thesis by (simp add: note_of_def note_ok_def join_split_LF)
qed

lemma starts_hash: "starts_with ''#'' (CHR ''#'' # s)"
  by (simp add: starts_with_def)

lemma notes_loop_comments:
  assumes "\<forall>l \<in> set ls. trimEnd l = l"
  shows "notes_loop (map (\<lambda>l. if l \<noteq> [] then ''# '' @ l else ''#'') ls @ rest) p out
       = notes_loop rest (p @ ls) out"
  using assms
proof (induction ls arbitrary: p)
  case (Cons l ls)
  let ?c = "if l \<noteq> [] then ''# '' @ l else ''#''"
  have c: "comment_body (trim ?c) = l" using Cons.prems by (intro comment_body_rendered) simp
  have h: "trim ?c \<noteq> []" "starts_with ''#'' (trim ?c)" by (simp_all add: trim_comment starts_hash)
  have "notes_loop (?c # map (\<lambda>l. if l \<noteq> [] then ''# '' @ l else ''#'') ls @ rest) p out
      = notes_loop (map (\<lambda>l. if l \<noteq> [] then ''# '' @ l else ''#'') ls @ rest) (p @ [l]) out"
    using h c by (simp only: notes_loop.simps Let_def if_False if_True)
  then show ?case using Cons by simp
qed simp

lemma notes_loop_key:
  assumes "ENV_NAME k" and "value_ok v"
  shows "notes_loop ((k @ CHR ''='' # v) # rest) p out = notes_loop rest []
    (if note_of p \<noteq> [] then obj_set k (note_of p) out else obj_delete k out)"
proof -
  let ?l = "trim (k @ CHR ''='' # v)"
  have "parse_line (k @ CHR ''='' # v) = Some (k, v)" by (rule parse_line_render [OF assms])
  then have "?l \<noteq> []" "\<not> starts_with ''#'' ?l" "split_eq ?l = Some (k, v)"
    by (auto simp: parse_line_alt skip_line_def split: if_splits)
  then show ?thesis using assms(1) by (simp add: Let_def)
qed

definition notes_ok :: "string obj \<Rightarrow> bool" where
  "notes_ok out \<longleftrightarrow> distinct (map fst out) \<and>
     (\<forall>(k, n) \<in> set out. ENV_NAME k \<and> k \<noteq> ''__proto__'' \<and> note_ok n)"

lemma notes_ok_set: "notes_ok out \<Longrightarrow> ENV_NAME k \<Longrightarrow> note_ok n \<Longrightarrow> notes_ok (obj_set k n out)"
proof -
  assume a: "notes_ok out" "ENV_NAME k" "note_ok n"
  have "set (AList.update k n out) \<subseteq> insert (k, n) (set out)"
    by (induction out) auto
  moreover have "k = ''__proto__'' \<Longrightarrow> map_of out k = None"
    using a(1) by (auto simp: notes_ok_def map_of_eq_None_iff)
  ultimately show ?thesis
    using a by (cases "k = ''__proto__''") (auto simp: notes_ok_def obj_set_def distinct_update)
qed

lemma notes_ok_delete: "notes_ok out \<Longrightarrow> notes_ok (obj_delete k out)"
  by (auto simp: notes_ok_def obj_delete_def AList.delete_eq distinct_map_filter distinct_map inj_on_def)

lemma notes_loop_ok:
  assumes "\<forall>l \<in> set ls. LF \<notin> set l" and "\<forall>l \<in> set p. LF \<notin> set l \<and> trimEnd l = l" and "notes_ok out"
  shows "notes_ok (notes_loop ls p out)"
  using assms
proof (induction ls arbitrary: p out)
  case (Cons l ls)
  let ?t = "trim l"
  have cb: "LF \<notin> set (comment_body ?t) \<and> trimEnd (comment_body ?t) = comment_body ?t"
  proof -
    have tl: "set (tl xs) \<subseteq> set xs" for xs :: string by (cases xs) auto
    have "set (comment_body ?t) \<subseteq> set (tl ?t) \<union> set (tl (tl ?t))"
      using set_trimEnd by (auto simp: comment_body_def split: if_splits)
    then have "set (comment_body ?t) \<subseteq> set ?t" using tl by blast
    then show ?thesis using Cons.prems(1) set_trim [of l] by (auto simp: comment_body_def)
  qed
  show ?case
  proof (cases "?t = [] \<or> starts_with ''#'' ?t")
    case True
    then show ?thesis using Cons cb by (auto simp: Let_def)
  next
    case False
    define key where "key = (case split_eq ?t of None \<Rightarrow> [] | Some (k, v) \<Rightarrow> k)"
    have "notes_ok (if note_of p \<noteq> [] then obj_set key (note_of p) out else obj_delete key out)"
      if "ENV_NAME key"
      using that Cons.prems(2,3) note_of_ok notes_ok_set notes_ok_delete by auto
    then show ?thesis
      using False Cons by (simp add: Let_def key_def [symmetric])
  qed
qed simp

lemma extractNotes_ok: "notes_ok (extractNotes t)"
  unfolding extractNotes_def
  by (rule notes_loop_ok) (auto simp: notes_ok_def dest: split_lines_no_LF)

lemma obj_delete_absent: "k \<notin> fst ` set out \<Longrightarrow> obj_delete k out = out"
  by (induction out) (auto simp: obj_delete_def)

lemma map_of_extract_rendered:
  assumes "notes_ok notes" and "\<forall>(k, v) \<in> set kvs. ENV_NAME k \<and> value_ok v"
    and "normalize_out notes kvs = Some ls" and "distinct (map fst kvs)"
    and "fst ` set kvs \<inter> fst ` set out = {}"
  shows "obj_get (notes_loop ls [] out) k = (if k \<in> fst ` set kvs then obj_get notes k else obj_get out k)"
  using assms(2-)
proof (induction kvs arbitrary: ls out)
  case (Cons kv kvs)
  obtain k1 v1 where kv: "kv = (k1, v1)" by fastforce
  from Cons.prems(2) kv obtain b ls1 where b: "note_block notes k1 = Some b"
      and ls1: "normalize_out notes kvs = Some ls1" and ls: "ls = b @ (k1 @ ''='' @ v1) # ls1"
    by (auto simp: bind_eq_Some_conv)
  have ok: "ENV_NAME k1" "value_ok v1" using Cons.prems(1) kv by auto
  define out1 where "out1 = (case map_of notes k1 of None \<Rightarrow> out | Some n \<Rightarrow> obj_set k1 n out)"
  have fresh: "k1 \<notin> fst ` set out" using Cons.prems(4) kv by auto
  have "notes_loop ls [] out = notes_loop ls1 [] out1"
  proof (cases "map_of notes k1")
    case None
    then have "b = []" using b by (auto simp: note_block_def obj_get_def split: if_splits)
    then show ?thesis
      using None ls fresh notes_loop_key [OF ok] by (simp add: out1_def note_of_def obj_delete_absent)
  next
    case (Some n)
    then have "note_ok n" using assms(1) map_of_SomeD by (fastforce simp: notes_ok_def)
    then have "n \<noteq> []" "note_of (split_LF n) = n" "\<forall>l \<in> set (split_LF n). trimEnd l = l"
      using note_of_split lines_trimmed_lines by (auto simp: note_ok_def)
    moreover have "b = noteLines n"
      using b Some \<open>n \<noteq> []\<close> by (auto simp: note_block_def obj_get_def)
    ultimately show ?thesis
      using ls Some notes_loop_key [OF ok] by (simp add: noteLines_def notes_loop_comments out1_def)
  qed
  moreover have "fst ` set out1 \<subseteq> insert k1 (fst ` set out)"
    using obj_keys_set [of k1 _ out] subset_insertI
    unfolding out1_def by (cases "map_of notes k1") (simp_all only: option.case)
  moreover have "obj_get out1 k1 = obj_get notes k1"
  proof (cases "map_of notes k1")
    case None
    moreover have "map_of out k1 = None" using fresh by (simp add: map_of_eq_None_iff)
    ultimately show ?thesis by (simp add: out1_def obj_get_def)
  next
    case (Some n)
    then have "k1 \<noteq> ''__proto__''" using assms(1) map_of_SomeD by (fastforce simp: notes_ok_def)
    then show ?thesis using Some by (simp add: out1_def obj_get_set_same) (simp add: obj_get_def)
  qed
  moreover have "k' \<noteq> k1 \<Longrightarrow> obj_get out1 k' = obj_get out k'" for k'
    by (auto simp: out1_def obj_get_set_other split: option.splits)
  moreover have "fst ` set kvs \<inter> fst ` set out1 = {}"
  proof -
    have "fst ` set out1 \<subseteq> insert k1 (fst ` set out)" by (rule calculation(2))
    moreover have "k1 \<notin> fst ` set kvs" "fst ` set kvs \<inter> fst ` set out = {}"
      using Cons.prems(3,4) kv by auto
    ultimately show ?thesis by blast
  qed
  ultimately show ?case
    using Cons.IH [OF _ ls1, of out1] Cons.prems kv by (auto split: if_splits)
qed simp

lemma notes_loop_trim: "map trim ls = map trim ls' \<Longrightarrow> notes_loop ls p out = notes_loop ls' p out"
proof (induction ls arbitrary: ls' p out)
  case (Cons l ls)
  then obtain l' ls1 where "ls' = l' # ls1" "trim l = trim l'" "map trim ls = map trim ls1"
    by (cases ls') auto
  then show ?case using Cons.IH [of ls1] by (simp add: Let_def)
qed simp

lemma notes_loop_join:
  assumes "\<forall>l \<in> set ls. LF \<notin> set l"
  shows "notes_loop (split_lines (join_lines ls)) [] out = notes_loop ls [] out"
proof (cases "ls = []")
  case False
  then show ?thesis using map_trim_split_join [OF False assms] notes_loop_trim by blast
qed simp

lemma normalize_out_cong:
  "(\<And>k. k \<in> fst ` set kvs \<Longrightarrow> obj_get n1 k = obj_get n2 k) \<Longrightarrow> normalize_out n1 kvs = normalize_out n2 kvs"
proof (induction kvs)
  case (Cons kv kvs)
  then show ?case by (cases kv) (simp add: note_block_def)
qed simp

lemma filter_valid_entries:
  "filter (\<lambda>(k, v). ENV_NAME k) (map_of_entries (filter (\<lambda>(k, v). ENV_NAME k) es))
     = map_of_entries (filter (\<lambda>(k, v). ENV_NAME k) es)"
  using map_of_entries_subset by (fastforce simp: filter_id_conv)

lemma update_fresh: "k \<notin> fst ` set m \<Longrightarrow> AList.update k v m = m @ [(k, v)]"
  by (induction m) auto

lemma map_of_entries_distinct:
  assumes "distinct (map fst es)"
  shows "map_of_entries es = es"
proof -
  have "fold (\<lambda>(k, v) m. AList.update k v m) es m0 = m0 @ es"
    if "distinct (map fst es)" "fst ` set m0 \<inter> fst ` set es = {}" for m0
    using that
  proof (induction es arbitrary: m0)
    case (Cons e es)
    obtain k v where e: "e = (k, v)" by fastforce
    then have "k \<notin> fst ` set m0" using Cons.prems(2) by auto
    then show ?case using Cons e by (simp add: update_fresh)
  qed simp
  from this [OF assms, of "[]"] show ?thesis by (simp add: map_of_entries_def)
qed

section \<open>Properties\<close>

text \<open>
  The executable matcher used for validation and expansion recognises exactly the language of the
  \<open>REFERENCE\<close> expression at the start of a text, with the same capture groups: the greedy
  scan and any other way of reading the text as a reference agree.
\<close>

theorem match_ref_is_REFERENCE: "match_ref s = Some (m, rest) \<longleftrightarrow> ref_shape s m rest"
  by (rule match_ref_iff_shape)

text \<open>
  Strict validation accepts a text exactly when it is within the size limit, every line that is
  not blank and not a comment is a \<open>NAME=value\<close> line, names are valid and defined once, and in every
  value each \<open>${{\<close> begins a reference whose scope and field are known.
\<close>

theorem validate_accepts_iff:
  "validateEnvironmentText t = None \<longleftrightarrow>
     length t \<le> 20000 \<and>
     (\<forall>l \<in> set (split_lines t). skip_line (trim l) \<or> parse_line l \<noteq> None) \<and>
     distinct (map fst (parseEnvLines t)) \<and>
     (\<forall>(k, v) \<in> set (parseEnvLines t). ENV_NAME k \<and> opens_matched v \<and>
        (\<forall>m \<in> set (match_all v). check_ref m = None))"
proof (cases "scan_lines 0 (split_lines t) [] []")
  case (Inl p)
  then have "\<nexists>vs. scan_lines 0 (split_lines t) [] [] = Inr vs" by simp
  then have "\<not> ((\<forall>l \<in> set (split_lines t). skip_line (trim l) \<or> parse_line l \<noteq> None) \<and>
      distinct (map fst (parseEnvLines t)) \<and> (\<forall>(k, v) \<in> set (parseEnvLines t). ENV_NAME k))"
    by (auto simp: scan_lines_Inr parseEnvLines_entries)
  then show ?thesis using Inl by (auto simp: validateEnvironmentText_def)
next
  case (Inr vs)
  then show ?thesis
    using Inr [unfolded scan_lines_Inr]
    by (auto simp: validateEnvironmentText_def ENV_TEXT_MAX_def check_values_None refs_ok_def parseEnvLines_entries)
qed

theorem validate_accepts_iff_witness:
  "validateEnvironmentText (''A=${{vars.B}}'' @ [LF] @ ''# c'') = None \<and>
   distinct (map fst (parseEnvLines (''A=${{vars.B}}'' @ [LF] @ ''# c'')))"
proof -
  have "validateEnvironmentText (''A=${{vars.B}}'' @ [LF] @ ''# c'') = None" by code_simp
  with validate_accepts_iff [of "''A=${{vars.B}}'' @ [LF] @ ''# c''"] show ?thesis by blast
qed

text \<open>
  The key-wise write behind a promotion.  For entries with valid names and parsed values, and as
  long as no name collides with a member of \<open>Object.prototype\<close> that has no note, the write
  returns a text whose variables are those of the old text overridden by the entries.
\<close>

theorem setValues_overrides:
  assumes "\<forall>(k, v) \<in> set es. ENV_NAME k \<and> value_ok v \<and> obj_get notes k \<noteq> Inherited"
  shows "\<exists>t'. setValues t es notes = Some t' \<and> map_of (envMap t') = map_of (envMap t) ++ map_of (rev es)"
proof -
  let ?ls = "if t = [] then [] else split_lines t"
  have "\<forall>(k, v) \<in> set es. obj_get notes k \<noteq> Inherited" using assms by auto
  then obtain ls' where "set_values_loop notes es ?ls = Some ls'" using set_values_loop_total by blast
  then have t': "setValues t es notes = Some (join_lines ls')" by (simp add: setValues_def)
  have "\<forall>(k, v) \<in> set es. ENV_NAME k \<and> value_ok v" using assms by auto
  then show ?thesis using setValues_lookup t' by blast
qed

theorem setValues_overrides_witness:
  "\<exists>t'. setValues (''A=1'' @ [LF] @ ''# end'') [(''A'', ''2''), (''B'', ''x'')] [] = Some t' \<and>
     map_of (envMap t') = map_of (envMap (''A=1'' @ [LF] @ ''# end'')) ++ map_of [(''B'', ''x''), (''A'', ''2'')]"
proof -
  have h: "\<forall>(k, v) \<in> set [(''A'', ''2''), (''B'', ''x'')].
      ENV_NAME k \<and> value_ok v \<and> obj_get ([] :: string obj) k \<noteq> Inherited"
    by (simp add: value_ok_def) code_simp
  from setValues_overrides [OF h, of "''A=1'' @ [LF] @ ''# end''"] show ?thesis by simp
qed

text \<open>
  C26: cleaning up imported text.  When it returns, parsing the result gives one entry per valid name, each
  with its last value; and the clean-up is idempotent, so notes attached to variables survive it.
\<close>

theorem normalizeEnvText_roundtrip:
  assumes "normalizeEnvText t = Some t'"
  shows "parseEnvLines t' = map_of_entries (filter (\<lambda>(k, v). ENV_NAME k) (parseEnvLines t)) \<and>
         normalizeEnvText t' = Some t'"
proof -
  let ?es = "map_of_entries (filter (\<lambda>(k, v). ENV_NAME k) (parseEnvLines t))"
  have p: "parseEnvLines t' = ?es" using assms by (rule normalize_parse)
  from assms obtain ls where ls: "normalize_out (extractNotes t) ?es = Some ls" and t': "t' = join_lines ls"
    by (auto simp: normalizeEnvText_def)
  have ok: "\<forall>(k, v) \<in> set ?es. ENV_NAME k \<and> value_ok v" using valid_entries_ok by blast
  have nl: "\<forall>l \<in> set ls. LF \<notin> set l" using normalize_out_entries [OF ok ls] by simp
  have "extractNotes t' = notes_loop ls [] []"
    by (simp add: extractNotes_def t' notes_loop_join [OF nl])
  then have "obj_get (extractNotes t') k = obj_get (extractNotes t) k" if "k \<in> fst ` set ?es" for k
    using map_of_extract_rendered [OF extractNotes_ok ok ls, of "[]" k] that by simp
  then have "normalize_out (extractNotes t') ?es = Some ls"
    using ls normalize_out_cong by metis
  then have "normalizeEnvText t' = Some t'"
    unfolding normalizeEnvText_def p
    by (simp add: filter_valid_entries map_of_entries_distinct t' [symmetric])
  with p show ?thesis by simp
qed

theorem normalizeEnvText_roundtrip_witness:
  "normalizeEnvText (''# n'' @ [LF] @ ''A=2'' @ [LF] @ ''9=x'') = Some (''# n'' @ [LF] @ ''A=2'') \<and>
   normalizeEnvText (''# n'' @ [LF] @ ''A=2'') = Some (''# n'' @ [LF] @ ''A=2'')"
proof -
  have h: "normalizeEnvText (''# n'' @ [LF] @ ''A=2'' @ [LF] @ ''9=x'') = Some (''# n'' @ [LF] @ ''A=2'')"
    by code_simp
  show ?thesis using h normalizeEnvText_roundtrip [OF h] by blast
qed

text \<open>
  When the clean-up of imported text fails.  It throws a \<open>TypeError\<close> exactly when some variable with a
  valid name is named like a member of \<open>Object.prototype\<close> (\<open>constructor\<close>, \<open>toString\<close>, \<dots>) and has no
  note; a project file with such a variable cannot be imported.
\<close>

theorem normalizeEnvText_throws_iff:
  "normalizeEnvText t = None \<longleftrightarrow>
     (\<exists>k \<in> set (keysOf t). ENV_NAME k \<and> k \<in> set js_proto \<and> map_of (extractNotes t) k = None)"
  by (force simp: normalizeEnvText_def normalize_out_None keys_map_of_entries set_keysOf obj_get_def
      split: option.splits if_splits)

text \<open>Rewriting references of older files is idempotent: a second pass changes nothing.\<close>

lemma rewriteProjectReferences_idem:
  "rewriteProjectReferences (rewriteProjectReferences s) = rewriteProjectReferences s"
  by (rule rewrite_rewrite)

end
