(* ===== verification/Env_Change_Laws.thy ===== *)
theory Env_Change_Laws
  imports Env_Text_Laws
begin

text \<open>
  Laws of the secret flags, the change summary and the comparison of two texts
  (\<open>nextFlags\<close>, \<open>summarizeChange\<close>, \<open>compareEnvTexts\<close> of \<open>env-text.ts\<close>).
\<close>

section \<open>Flags after a write\<close>

text \<open>The flag a key of the new text gets, as a case distinction over the patch and the old flags.\<close>

definition next_flag :: "flags \<Rightarrow> string list \<Rightarrow> patchv obj \<Rightarrow> string \<Rightarrow> flagv option" where
  "next_flag previous known patch k =
     (case map_of patch k of
        Some (PFlag b) \<Rightarrow> Some (Flag b)
      | Some PNull \<Rightarrow> None
      | _ \<Rightarrow> (case flag_at previous k of
            Some v \<Rightarrow> Some v
          | None \<Rightarrow> if k \<notin> set known \<and> looksSecretName k then Some (Flag True) else None))"

lemma map_of_obj_set:
  "map_of (obj_set k v ob) x = (if x = k \<and> (k \<noteq> ''__proto__'' \<or> map_of ob k \<noteq> None) then Some v else map_of ob x)"
  by (auto simp: obj_set_def AList.update_conv')

lemma nextFlags_loop_step:
  "nextFlags_loop previous known patch (k # ks) out =
     nextFlags_loop previous known patch ks
       (case next_flag previous known patch k of None \<Rightarrow> out | Some v \<Rightarrow> obj_set k v out)"
  by (auto simp: next_flag_def split: option.splits patchv.splits if_splits)

lemma map_of_nextFlags_loop:
  assumes "distinct ks" and "set ks \<inter> fst ` set out = {}"
  shows "map_of (nextFlags_loop previous known patch ks out) x =
     (if x \<in> set ks \<and> x \<noteq> ''__proto__'' then next_flag previous known patch x else map_of out x)"
  using assms
proof (induction ks arbitrary: out)
  case (Cons k ks)
  define out1 where "out1 = (case next_flag previous known patch k of None \<Rightarrow> out | Some v \<Rightarrow> obj_set k v out)"
  have none: "map_of out k = None" using Cons.prems(2) by (simp add: map_of_eq_None_iff)
  have "fst ` set out1 \<subseteq> insert k (fst ` set out)"
    using obj_keys_set [of k _ out] subset_insertI
    unfolding out1_def by (cases "next_flag previous known patch k") (simp_all only: option.case)
  then have "set ks \<inter> fst ` set out1 = {}" using Cons.prems by auto
  then have "map_of (nextFlags_loop previous known patch ks out1) x =
      (if x \<in> set ks \<and> x \<noteq> ''__proto__'' then next_flag previous known patch x else map_of out1 x)"
    using Cons.IH Cons.prems(1) by simp
  moreover have "map_of out1 x = (if x = k \<and> k \<noteq> ''__proto__'' then next_flag previous known patch k else map_of out x)"
    using none by (auto simp: out1_def map_of_obj_set split: option.splits)
  ultimately show ?case using Cons.prems(1)
    by (cases "x = k"; cases "x = ''__proto__''")
       (simp_all add: nextFlags_loop_step out1_def [symmetric] del: nextFlags_loop.simps)
qed simp

lemma map_of_nextFlags:
  "distinct ks \<Longrightarrow> map_of (nextFlags previous known ks patch) x =
     (if x \<in> set ks \<and> x \<noteq> ''__proto__'' then next_flag previous known patch x else None)"
  by (simp add: nextFlags_def map_of_nextFlags_loop)

lemma distinct_nextFlags_loop:
  "distinct (map fst out) \<Longrightarrow> distinct (map fst (nextFlags_loop previous known patch ks out))"
  by (induction ks arbitrary: out)
     (auto simp: nextFlags_loop_step obj_distinct_set simp del: nextFlags_loop.simps(2) split: option.splits)

lemma distinct_nextFlags [simp]: "distinct (map fst (nextFlags previous known ks patch))"
  by (simp add: nextFlags_def distinct_nextFlags_loop)

lemma nextFlags_keys: "distinct ks \<Longrightarrow> fst ` set (nextFlags previous known ks patch) \<subseteq> set ks"
proof
  fix k assume d: "distinct ks" and k: "k \<in> fst ` set (nextFlags previous known ks patch)"
  then have "map_of (nextFlags previous known ks patch) k \<noteq> None" by (simp add: map_of_eq_None_iff)
  then show "k \<in> set ks" using d by (simp add: map_of_nextFlags split: if_splits)
qed

text \<open>
  The flags after a write mention only variables of the new text, and for each of them an explicit patch
  wins (\<open>null\<close> clears), else the old flag stays, else a name that is new to the environment
  and looks secret is flagged, else there is none.
\<close>

theorem nextFlags_spec:
  "map_of (nextFlags previous known (keysOf t) patch) k =
     (if k \<in> set (keysOf t) \<and> k \<noteq> ''__proto__'' then next_flag previous known patch k else None)"
  by (simp add: map_of_nextFlags)

section \<open>Summaries and comparisons\<close>

lemma concat_map_filter_eq:
  "concat (map (\<lambda>(k, v). if P k v then [k] else []) xs) = map fst (filter (\<lambda>(k, v). P k v) xs)"
  by (induction xs) auto

lemma envMap_in_iff: "(k, v) \<in> set (envMap t) \<longleftrightarrow> map_of (envMap t) k = Some v"
  by (simp add: envMap_def)

lemma envMap_None_iff: "map_of (envMap t) k = None \<longleftrightarrow> k \<notin> set (keysOf t)"
  using has_key_envMap [of t k] by (cases "map_of (envMap t) k") (simp_all add: has_key_def)

lemma set_filter_envMap:
  "set (map fst (filter (\<lambda>(k, v). P k v) (envMap t))) = {k. \<exists>v. map_of (envMap t) k = Some v \<and> P k v}"
  by (force simp: envMap_in_iff)

lemma summary_sets:
  "set (added (summarizeChange o' n fo fn)) = set (keysOf n) - set (keysOf o')"
  "set (removed (summarizeChange o' n fo fn)) = set (keysOf o') - set (keysOf n)"
  "set (changed (summarizeChange o' n fo fn)) =
     {k \<in> set (keysOf o') \<inter> set (keysOf n). map_of (envMap o') k \<noteq> map_of (envMap n) k}"
  "set (cs_flags (summarizeChange o' n fo fn)) =
     {k \<in> set (keysOf o') \<inter> set (keysOf n). flag_at fo k \<noteq> flag_at fn k}"
  unfolding summarizeChange_def Let_def change_summary.select_convs concat_map_filter_eq set_filter_envMap
  by (auto simp: has_key_envMap envMap_keys [symmetric] envMap_in_iff [symmetric] image_iff)
     (metis envMap_None_iff envMap_in_iff fst_conv not_Some_eq)+

text \<open>
  A change summary is empty exactly when the two texts define the same variables with the same
  values and no variable changed its flag; nothing else ever counts as a change of variables.
\<close>

lemma empty_summary_iff:
  "isEmptySummary (summarizeChange o' n fo fn) \<longleftrightarrow>
     map_of (envMap o') = map_of (envMap n) \<and> (\<forall>k \<in> set (keysOf n). flag_at fo k = flag_at fn k)"
proof -
  have E: "isEmptySummary s \<longleftrightarrow> set (added s) = {} \<and> set (changed s) = {} \<and> set (removed s) = {} \<and> set (cs_flags s) = {}"
    for s by (auto simp: isEmptySummary_def)
  have "isEmptySummary (summarizeChange o' n fo fn) \<longleftrightarrow>
      set (keysOf n) = set (keysOf o') \<and>
      (\<forall>k \<in> set (keysOf n). map_of (envMap o') k = map_of (envMap n) k \<and> flag_at fo k = flag_at fn k)"
    unfolding E summary_sets by blast
  also have "\<dots> \<longleftrightarrow> map_of (envMap o') = map_of (envMap n) \<and> (\<forall>k \<in> set (keysOf n). flag_at fo k = flag_at fn k)"
  proof -
    have "set (keysOf n) = set (keysOf o') \<and> (\<forall>k \<in> set (keysOf n). map_of (envMap o') k = map_of (envMap n) k)
        \<longleftrightarrow> map_of (envMap o') = map_of (envMap n)"
      by (metis (no_types, opaque_lifting) envMap_None_iff ext set_eqI)
    then show ?thesis by blast
  qed
  finally show ?thesis .
qed

lemma empty_summary_iff_witness:
  "isEmptySummary (summarizeChange (''A=1'' @ [LF] @ ''B=2'') (''B=2'' @ [CR, LF] @ ''A=1'') [] []) \<and>
   map_of (envMap (''A=1'' @ [LF] @ ''B=2'')) = map_of (envMap (''B=2'' @ [CR, LF] @ ''A=1''))"
proof -
  have "isEmptySummary (summarizeChange (''A=1'' @ [LF] @ ''B=2'') (''B=2'' @ [CR, LF] @ ''A=1'') [] [])"
    by code_simp
  with empty_summary_iff [of "''A=1'' @ [LF] @ ''B=2''" "''B=2'' @ [CR, LF] @ ''A=1''" "[]" "[]"]
  show ?thesis by blast
qed

text \<open>
  A comparison partitions the variables of the two texts: those only on one side, those on both with
  the same value and those on both with different values, each named once.
\<close>

lemma compareEnvTexts_partition:
  "distinct (onlyInFrom (compareEnvTexts f t) @ different (compareEnvTexts f t) @ same (compareEnvTexts f t)) \<and>
   set (onlyInFrom (compareEnvTexts f t)) = set (keysOf f) - set (keysOf t) \<and>
   set (onlyInTo (compareEnvTexts f t)) = set (keysOf t) - set (keysOf f) \<and>
   set (same (compareEnvTexts f t)) =
     {k \<in> set (keysOf f) \<inter> set (keysOf t). map_of (envMap f) k = map_of (envMap t) k} \<and>
   set (different (compareEnvTexts f t)) =
     {k \<in> set (keysOf f) \<inter> set (keysOf t). map_of (envMap f) k \<noteq> map_of (envMap t) k}"
proof -
  let ?c = "compareEnvTexts f t"
  have d: "distinct (map fst (filter P (envMap f)))" for P by (simp add: envMap_def distinct_map_filter)
  have s: "set (onlyInFrom ?c) = set (keysOf f) - set (keysOf t)"
    "set (onlyInTo ?c) = set (keysOf t) - set (keysOf f)"
    "set (same ?c) = {k \<in> set (keysOf f) \<inter> set (keysOf t). map_of (envMap f) k = map_of (envMap t) k}"
    "set (different ?c) = {k \<in> set (keysOf f) \<inter> set (keysOf t). map_of (envMap f) k \<noteq> map_of (envMap t) k}"
    unfolding compareEnvTexts_def Let_def env_comparison.select_convs concat_map_filter_eq set_filter_envMap
    by (auto simp: has_key_envMap envMap_keys [symmetric] envMap_in_iff [symmetric] image_iff)
       (metis envMap_None_iff envMap_in_iff fst_conv not_Some_eq)+
  have "distinct (onlyInFrom ?c)" "distinct (different ?c)" "distinct (same ?c)"
    unfolding compareEnvTexts_def Let_def env_comparison.select_convs concat_map_filter_eq by (rule d)+
  then show ?thesis unfolding distinct_append set_append s by blast
qed

end
