(* ===== verification/Access_Control.thy ===== *)
theory Access_Control
  imports Prelude
begin

text \<open>
  Who may see and change what.  The request context and the read/write classification of requests
  (\<open>src/src/modules/auth/request-context.ts\<close>), API token scopes (\<open>api-token.service.ts\<close>,
  \<open>create-api-token.controller.ts\<close>, \<open>variable-scope.ts\<close>), the guards (\<open>jwt-auth.guard.ts\<close>,
  \<open>roles.guard.ts\<close>), project access (\<open>project-access.service.ts\<close>, \<open>project.service.ts\<close>) and
  project membership.  The tables are lists of rows; the current request (\<open>AsyncLocalStorage\<close>)
  is an argument, \<open>None\<close> for background work.
\<close>

section \<open>Tables\<close>

datatype user_role = Owner | Admin | Member

datatype project_role = PAdmin | Developer | Viewer

record user =
  user_id :: string
  email :: string
  passwordHash :: string
  user_name :: "string option"
  urole :: user_role
  totpEnabled :: bool
  totpSecretEncrypted :: "string option"
  totpBackupHashes :: "string list option"

record project =
  project_id :: string
  project_name :: string
  ownerId :: string

record project_member =
  pm_projectId :: string
  pm_userId :: string
  pm_role :: project_role

record api_token =
  token_id :: string
  token_userId :: string
  tokenHash :: string
  expiresAt :: "int option"
  t_readOnly :: bool
  t_projectIds :: "string list option"
  t_variableScopes :: "string list option"

record directory =
  users :: "user list"
  projects :: "project list"
  members :: "project_member list"
  api_tokens :: "api_token list"

section \<open>Request context\<close>

record token_scope =
  readOnly :: bool
  projectIds :: "string list option"
  variableScopes :: "string list option"

definition FULL_SCOPE :: token_scope where
  "FULL_SCOPE = \<lparr>readOnly = False, projectIds = None, variableScopes = None\<rparr>"

record request_context =
  req_method :: string
  req_path :: string
  tokenScope :: "token_scope option"

definition currentTokenScope :: "request_context option \<Rightarrow> token_scope option" where
  "currentTokenScope ctx = Option.bind ctx tokenScope"

definition setTokenScope :: "token_scope \<Rightarrow> request_context option \<Rightarrow> request_context option" where
  "setTokenScope sc ctx = map_option (\<lambda>c. c\<lparr>tokenScope := Some sc\<rparr>) ctx"

text \<open>The three expressions of \<open>READ_ONLY_POSTS\<close>, on the path cut at its slashes.\<close>

definition log_ticket_path :: "string \<Rightarrow> bool" where
  "log_ticket_path path = (case rev (split_on CHR ''/'' path) of
       a # b # _ \<Rightarrow> a = ''log-ticket'' | _ \<Rightarrow> False)"

definition reveal_path :: "string \<Rightarrow> bool" where
  "reveal_path path = (case rev (split_on CHR ''/'' path) of
       r # e # es # s # vs # _ # _ \<Rightarrow> r = ''reveal'' \<and> e \<noteq> [] \<and> es = ''environments'' \<and> s \<noteq> [] \<and> vs = ''variable-sets''
     | _ \<Rightarrow> False)"

definition reveal_version_path :: "string \<Rightarrow> bool" where
  "reveal_version_path path = (case rev (split_on CHR ''/'' path) of
       r # v # ver # e # es # s # vs # _ # _ \<Rightarrow> r = ''reveal'' \<and> v \<noteq> [] \<and> ver = ''versions'' \<and> e \<noteq> []
         \<and> es = ''environments'' \<and> s \<noteq> [] \<and> vs = ''variable-sets''
     | _ \<Rightarrow> False)"

definition isWriteRequest :: "request_context option \<Rightarrow> bool" where
  "isWriteRequest ctx = (case ctx of
       None \<Rightarrow> False
     | Some c \<Rightarrow>
         if req_method c \<in> set [''GET'', ''HEAD'', ''OPTIONS''] then False
         else if req_method c = ''POST'' \<and>
           (log_ticket_path (req_path c) \<or> reveal_path (req_path c) \<or> reveal_version_path (req_path c)) then False
         else True)"

section \<open>API tokens\<close>

definition TOKEN_PREFIX :: string where
  "TOKEN_PREFIX = ''aoox_''"

definition TOKEN_LENGTH :: nat where
  "TOKEN_LENGTH = length TOKEN_PREFIX + 40"

definition looksLikeApiToken :: "string \<Rightarrow> bool" where
  "looksLikeApiToken bearer \<longleftrightarrow> starts_with TOKEN_PREFIX bearer \<and> length bearer = TOKEN_LENGTH"

definition find_user :: "directory \<Rightarrow> string \<Rightarrow> user option" where
  "find_user d uid = find (\<lambda>u. user_id u = uid) (users d)"

text \<open>
  \<open>resolve\<close>: \<open>hash\<close> is the SHA-256 digest of the token text (the platform's crypto library), \<open>now\<close>
  the clock.  The throttled update of \<open>lastUsedAt\<close> has no effect on any decision and is left out.
\<close>

definition resolve :: "(string \<Rightarrow> string) \<Rightarrow> int \<Rightarrow> directory \<Rightarrow> string \<Rightarrow> (api_token \<times> user) option" where
  "resolve hash now d bearer =
     (if \<not> looksLikeApiToken bearer then None
      else case find (\<lambda>t. tokenHash t = hash bearer) (api_tokens d) of
          None \<Rightarrow> None
        | Some t \<Rightarrow> (case find_user d (token_userId t) of
              None \<Rightarrow> None
            | Some u \<Rightarrow> if (case expiresAt t of None \<Rightarrow> False | Some e \<Rightarrow> e < now) then None else Some (t, u)))"

definition none_if_empty :: "'a list option \<Rightarrow> 'a list option" where
  "none_if_empty xs = (case xs of None \<Rightarrow> None | Some l \<Rightarrow> if l = [] then None else Some l)"

definition create_token ::
    "(string \<Rightarrow> string) \<Rightarrow> string \<Rightarrow> string \<Rightarrow> string \<Rightarrow> int option \<Rightarrow> bool option \<Rightarrow> string list option
     \<Rightarrow> string list option \<Rightarrow> directory \<Rightarrow> directory \<times> api_token" where
  "create_token hash newId plaintext userId expires ro pids vscopes d =
     (let t = \<lparr>token_id = newId, token_userId = userId, tokenHash = hash plaintext, expiresAt = expires,
               t_readOnly = (case ro of None \<Rightarrow> False | Some b \<Rightarrow> b),
               t_projectIds = none_if_empty pids, t_variableScopes = none_if_empty vscopes\<rparr>
      in (d\<lparr>api_tokens := api_tokens d @ [t]\<rparr>, t))"

text \<open>\<open>variableScopeAllows\<close>: entries are \<open>set/env\<close> with \<open>*\<close> on either side; \<open>None\<close> does not narrow.\<close>

definition scope_entry_allows :: "string \<Rightarrow> string \<Rightarrow> string \<Rightarrow> bool" where
  "scope_entry_allows setSlug environment entry = (case index_of CHR ''/'' entry of
       None \<Rightarrow> False
     | Some at \<Rightarrow> if at = 0 then False
         else (take at entry = ''*'' \<or> take at entry = setSlug) \<and>
              (drop (Suc at) entry = ''*'' \<or> drop (Suc at) entry = environment))"

definition variableScopeAllows :: "string list option \<Rightarrow> string \<Rightarrow> string \<Rightarrow> bool" where
  "variableScopeAllows scopes setSlug environment = (case scopes of
       None \<Rightarrow> True | Some es \<Rightarrow> list_ex (scope_entry_allows setSlug environment) es)"

section \<open>Guards\<close>

datatype acc_reason =
    InvalidToken
  | TokenReadOnly
  | TokenProjectLimited
  | TokenCannotManageTokens
  | CannotGrant "string list"
  | TokenNotFound
  | ProjectNotFound
  | ViewerReadOnly
  | ViewerCannotExport
  | OnlyProjectAdmins
  | NoUserWithEmail
  | AlreadySeesEverything
  | AlreadyMember
  | MemberNotFound

type_synonym 'a acc = "(acc_reason, 'a) res"

record jwt_payload =
  sub :: string
  jwt_email :: string
  jwt_role :: user_role
  tokenId :: "string option"

text \<open>\<open>replace(/^Bearer\s+/i, '')\<close>.\<close>

definition strip_bearer :: "string \<Rightarrow> string" where
  "strip_bearer h = (if map lower_char (take 6 h) = ''bearer'' \<and> length h > 6 \<and> js_ws (h ! 6)
     then dropWhile js_ws (drop 6 h) else h)"

text \<open>
  \<open>JwtAuthGuard.canActivate\<close>.  \<open>session\<close> is what the passport strategy says about a bearer that is
  not an API token; \<open>hasRoles\<close> is whether the route or its class carries \<open>@Roles\<close>.
\<close>

definition jwt_canActivate ::
    "(string \<Rightarrow> string) \<Rightarrow> int \<Rightarrow> directory \<Rightarrow> bool \<Rightarrow> jwt_payload acc \<Rightarrow> string
     \<Rightarrow> request_context option \<Rightarrow> (jwt_payload \<times> request_context option) acc" where
  "jwt_canActivate hash now d hasRoles session header ctx =
     (let bearer = strip_bearer header in
      if looksLikeApiToken bearer then
        (case resolve hash now d bearer of
           None \<Rightarrow> Inl (Unauthorized InvalidToken)
         | Some (t, u) \<Rightarrow>
             if t_readOnly t \<and> isWriteRequest ctx then Inl (Forbidden TokenReadOnly)
             else if t_projectIds t \<noteq> None \<and> hasRoles then Inl (Forbidden TokenProjectLimited)
             else Inr (\<lparr>sub = user_id u, jwt_email = email u, jwt_role = urole u, tokenId = Some (token_id t)\<rparr>,
                       setTokenScope \<lparr>readOnly = t_readOnly t, projectIds = t_projectIds t,
                                      variableScopes = t_variableScopes t\<rparr> ctx))
      else rbind session (\<lambda>p. Inr (p, setTokenScope FULL_SCOPE ctx)))"

definition roles_canActivate :: "user_role list option \<Rightarrow> jwt_payload option \<Rightarrow> bool" where
  "roles_canActivate rs user = (case rs of
       None \<Rightarrow> True
     | Some roles \<Rightarrow> if roles = [] then True
         else (case user of None \<Rightarrow> False | Some u \<Rightarrow> jwt_role u \<in> set roles))"

section \<open>Project access\<close>

definition platformRole :: "directory \<Rightarrow> string \<Rightarrow> user_role option" where
  "platformRole d uid = map_option urole (find_user d uid)"

definition is_platform :: "user_role option \<Rightarrow> bool" where
  "is_platform r \<longleftrightarrow> r = Some Owner \<or> r = Some Admin"

definition scope_projects :: "request_context option \<Rightarrow> string list option" where
  "scope_projects ctx = (case currentTokenScope ctx of None \<Rightarrow> None | Some s \<Rightarrow> projectIds s)"

datatype 'a some_or_all = All | Only 'a

definition accessibleProjectIds :: "request_context option \<Rightarrow> directory \<Rightarrow> string \<Rightarrow> string list some_or_all" where
  "accessibleProjectIds ctx d uid =
     (let sc = scope_projects ctx in
      if is_platform (platformRole d uid) then (case sc of None \<Rightarrow> All | Some ids \<Rightarrow> Only ids)
      else let own = nub (map project_id (filter (\<lambda>p. ownerId p = uid) (projects d))
                          @ map pm_projectId (filter (\<lambda>m. pm_userId m = uid) (members d)))
      in (case sc of Some ids \<Rightarrow> Only (filter (\<lambda>i. i \<in> set own) ids) | None \<Rightarrow> Only own))"

record project_roles =
  platform :: bool
  roles :: "(string, project_role) jsmap some_or_all"

definition projectRoles :: "request_context option \<Rightarrow> directory \<Rightarrow> string \<Rightarrow> project_roles" where
  "projectRoles ctx d uid =
     (let sc = scope_projects ctx in
      if is_platform (platformRole d uid) then
        \<lparr>platform = True,
         roles = (case sc of None \<Rightarrow> All | Some ids \<Rightarrow> Only (map_of_entries (map (\<lambda>i. (i, PAdmin)) ids)))\<rparr>
      else let m1 = fold (\<lambda>m acc. AList.update (pm_projectId m) (pm_role m) acc)
                         (filter (\<lambda>m. pm_userId m = uid) (members d)) [];
               m2 = fold (\<lambda>p acc. AList.update (project_id p) PAdmin acc)
                         (filter (\<lambda>p. ownerId p = uid) (projects d)) m1
      in \<lparr>platform = False,
          roles = Only (case sc of None \<Rightarrow> m2 | Some ids \<Rightarrow> filter (\<lambda>(i, r). i \<in> set ids) m2)\<rparr>)"

definition roleFor :: "request_context option \<Rightarrow> directory \<Rightarrow> string \<Rightarrow> project \<Rightarrow> project_role option" where
  "roleFor ctx d uid p =
     (if (case scope_projects ctx of None \<Rightarrow> False | Some ids \<Rightarrow> project_id p \<notin> set ids) then None
      else if is_platform (platformRole d uid) then Some PAdmin
      else if ownerId p = uid then Some PAdmin
      else map_option pm_role
        (find (\<lambda>m. pm_projectId m = project_id p \<and> pm_userId m = uid) (members d)))"

definition assertAccess :: "request_context option \<Rightarrow> directory \<Rightarrow> string \<Rightarrow> project \<Rightarrow> project_role acc" where
  "assertAccess ctx d uid p = (case roleFor ctx d uid p of
       None \<Rightarrow> Inl (NotFound ProjectNotFound)
     | Some r \<Rightarrow> if r = Viewer \<and> isWriteRequest ctx then Inl (Forbidden ViewerReadOnly) else Inr r)"

definition assertCanExport :: "request_context option \<Rightarrow> directory \<Rightarrow> string \<Rightarrow> project \<Rightarrow> project_role acc" where
  "assertCanExport ctx d uid p =
     rbind (assertAccess ctx d uid p) (\<lambda>r.
       if r = Viewer then Inl (Forbidden ViewerCannotExport) else Inr r)"

definition canReadSecrets :: "request_context option \<Rightarrow> directory \<Rightarrow> string \<Rightarrow> project \<Rightarrow> bool" where
  "canReadSecrets ctx d uid p = (case roleFor ctx d uid p of None \<Rightarrow> False | Some r \<Rightarrow> r \<noteq> Viewer)"

definition assertAdmin :: "request_context option \<Rightarrow> directory \<Rightarrow> string \<Rightarrow> project \<Rightarrow> unit acc" where
  "assertAdmin ctx d uid p =
     rbind (assertAccess ctx d uid p) (\<lambda>r. if r \<noteq> PAdmin then Inl (Forbidden OnlyProjectAdmins) else Inr ())"

definition findOwnedOrFail :: "request_context option \<Rightarrow> directory \<Rightarrow> string \<Rightarrow> string \<Rightarrow> project acc" where
  "findOwnedOrFail ctx d pid uid = (case find (\<lambda>p. project_id p = pid) (projects d) of
       None \<Rightarrow> Inl (NotFound ProjectNotFound)
     | Some p \<Rightarrow> rbind (assertAccess ctx d uid p) (\<lambda>_. Inr p))"

section \<open>Token and membership management\<close>

definition accessibleOrFail :: "request_context option \<Rightarrow> directory \<Rightarrow> string \<Rightarrow> string list \<Rightarrow> string list acc" where
  "accessibleOrFail ctx d uid ids = (case accessibleProjectIds ctx d uid of
       All \<Rightarrow> Inr ids
     | Only acc \<Rightarrow> (let missing = filter (\<lambda>i. i \<notin> set acc) ids
                   in if missing \<noteq> [] then Inl (Forbidden (CannotGrant missing)) else Inr ids))"

text \<open>\<open>POST /api-tokens\<close>: the DTO's optional lists, the days until expiry and the clock.\<close>

definition create_api_token ::
    "(string \<Rightarrow> string) \<Rightarrow> int \<Rightarrow> string \<Rightarrow> string \<Rightarrow> request_context option \<Rightarrow> jwt_payload \<Rightarrow> int option
     \<Rightarrow> bool option \<Rightarrow> string list option \<Rightarrow> string list option \<Rightarrow> directory \<Rightarrow> (directory \<times> api_token) acc" where
  "create_api_token hash now newId plaintext ctx u expiresInDays ro pids vscopes d =
     (if tokenId u \<noteq> None then Inl (Forbidden TokenCannotManageTokens)
      else let expires = (case expiresInDays of None \<Rightarrow> None
             | Some n \<Rightarrow> if n = 0 then None else Some (now + n * 86400000))
      in rbind (case none_if_empty pids of
                  None \<Rightarrow> Inr None
                | Some ids \<Rightarrow> rbind (accessibleOrFail ctx d (sub u) ids) (\<lambda>l. Inr (Some l)))
           (\<lambda>pids'. Inr (create_token hash newId plaintext (sub u) expires ro pids'
              (map_option nub (none_if_empty vscopes)) d)))"

definition delete_api_token :: "jwt_payload \<Rightarrow> string \<Rightarrow> directory \<Rightarrow> directory acc" where
  "delete_api_token u tid d =
     (if tokenId u \<noteq> None then Inl (Forbidden TokenCannotManageTokens)
      else case find (\<lambda>t. token_id t = tid \<and> token_userId t = sub u) (api_tokens d) of
          None \<Rightarrow> Inl (NotFound TokenNotFound)
        | Some t \<Rightarrow> Inr (d\<lparr>api_tokens := filter (\<lambda>x. token_id x \<noteq> token_id t) (api_tokens d)\<rparr>))"

definition add_member ::
    "request_context option \<Rightarrow> string \<Rightarrow> string \<Rightarrow> string \<Rightarrow> project_role \<Rightarrow> directory \<Rightarrow> directory acc" where
  "add_member ctx actor pid mail r d =
     rbind (findOwnedOrFail ctx d pid actor) (\<lambda>p.
     rbind (assertAdmin ctx d actor p) (\<lambda>_.
       case find (\<lambda>u. email u = toLowerCase (trim mail)) (users d) of
         None \<Rightarrow> Inl (NotFound NoUserWithEmail)
       | Some u \<Rightarrow>
           if urole u \<noteq> Member \<or> user_id u = ownerId p then Inl (BadRequest AlreadySeesEverything)
           else if list_ex (\<lambda>m. pm_projectId m = project_id p \<and> pm_userId m = user_id u) (members d)
             then Inl (Conflict AlreadyMember)
           else Inr (d\<lparr>members := members d @
             [\<lparr>pm_projectId = project_id p, pm_userId = user_id u, pm_role = r\<rparr>]\<rparr>)))"

definition update_member ::
    "request_context option \<Rightarrow> string \<Rightarrow> string \<Rightarrow> string \<Rightarrow> project_role \<Rightarrow> directory \<Rightarrow> directory acc" where
  "update_member ctx actor pid uid r d =
     rbind (findOwnedOrFail ctx d pid actor) (\<lambda>p.
     rbind (assertAdmin ctx d actor p) (\<lambda>_.
       if \<not> list_ex (\<lambda>m. pm_projectId m = project_id p \<and> pm_userId m = uid) (members d)
       then Inl (NotFound MemberNotFound)
       else Inr (d\<lparr>members := map (\<lambda>m. if pm_projectId m = project_id p \<and> pm_userId m = uid
                  then m\<lparr>pm_role := r\<rparr> else m) (members d)\<rparr>)))"

definition remove_member ::
    "request_context option \<Rightarrow> string \<Rightarrow> string \<Rightarrow> string \<Rightarrow> directory \<Rightarrow> directory acc" where
  "remove_member ctx actor pid uid d =
     rbind (findOwnedOrFail ctx d pid actor) (\<lambda>p.
     rbind (assertAdmin ctx d actor p) (\<lambda>_.
       if \<not> list_ex (\<lambda>m. pm_projectId m = project_id p \<and> pm_userId m = uid) (members d)
       then Inl (NotFound MemberNotFound)
       else Inr (d\<lparr>members := filter (\<lambda>m. \<not> (pm_projectId m = project_id p \<and> pm_userId m = uid)) (members d)\<rparr>)))"

end
