(* ===== verification/Access_Laws.thy ===== *)
theory Access_Laws
  imports Access_Control
begin

text \<open>
  Laws of access control: the three ways the code computes a user's projects agree; a token's scope
  only ever narrows; what a request that passed the guards is known to satisfy; membership changes
  keep the tables consistent.
\<close>

section \<open>Consistency of the tables\<close>

text \<open>The unique indexes of the schema.\<close>

definition dir_ok :: "directory \<Rightarrow> bool" where
  "dir_ok d \<longleftrightarrow> distinct (map user_id (users d)) \<and> distinct (map email (users d)) \<and>
     distinct (map project_id (projects d)) \<and>
     distinct (map (\<lambda>m. (pm_projectId m, pm_userId m)) (members d))"

section \<open>Lookups\<close>

lemma map_of_find: "map_of (map (\<lambda>x. (f x, g x)) xs) k = map_option g (find (\<lambda>x. f x = k) xs)"
  by (induction xs) auto

lemma fold_update_entries:
  "fold (\<lambda>x acc. AList.update (f x) (g x) acc) xs m = fold (\<lambda>(k, v) acc. AList.update k v acc) (map (\<lambda>x. (f x, g x)) xs) m"
  by (simp add: fold_map comp_def)

lemma map_of_rev: "distinct (map fst es) \<Longrightarrow> map_of (rev es) = map_of es"
proof (rule ext)
  fix k
  assume d: "distinct (map fst es)"
  then have "distinct (map fst (rev es))" by (simp add: rev_map [symmetric])
  then have "map_of (rev es) k = Some v \<longleftrightarrow> map_of es k = Some v" for v using d by simp
  then show "map_of (rev es) k = map_of es k" by (metis not_Some_eq)
qed

lemma find_filter: "find P (filter Q xs) = find (\<lambda>x. Q x \<and> P x) xs"
  by (induction xs) auto

lemma distinct_filter_member:
  assumes "distinct (map (\<lambda>m. (pm_projectId m, pm_userId m)) ms)"
  shows "distinct (map pm_projectId (filter (\<lambda>m. pm_userId m = uid) ms))"
  using assms by (induction ms) auto

lemma map_of_filter_fst: "map_of (filter (\<lambda>(i, r). i \<in> S) m) k = (if k \<in> S then map_of m k else None)"
  by (induction m) auto

lemma find_owned:
  assumes "distinct (map project_id ps)" and "p \<in> set ps"
  shows "find (\<lambda>q. ownerId q = uid \<and> project_id q = project_id p) ps = (if ownerId p = uid then Some p else None)"
proof -
  have "q = p" if "q \<in> set ps" "project_id q = project_id p" for q
    using assms that inj_onD [of project_id "set ps"] by (auto simp: distinct_map)
  then have eq: "find (\<lambda>q. ownerId q = uid \<and> project_id q = project_id p) ps = find (\<lambda>q. ownerId p = uid \<and> q = p) ps"
    by (intro find_cong) auto
  have "find (\<lambda>q. ownerId p = uid \<and> q = p) ps = (if ownerId p = uid then Some p else None)"
    using assms(2) by (auto simp: find_None_iff) (induction ps, auto)
  then show ?thesis using eq by simp
qed

lemma map_of_const: "map_of (map (\<lambda>i. (i, v)) ids) i = (if i \<in> set ids then Some v else None)"
  by (induction ids) auto

definition role_in :: "project_roles \<Rightarrow> string \<Rightarrow> project_role option" where
  "role_in pr i = (case roles pr of All \<Rightarrow> Some PAdmin | Only m \<Rightarrow> map_of m i)"

definition visible_in :: "string list some_or_all \<Rightarrow> string \<Rightarrow> bool" where
  "visible_in a i = (case a of All \<Rightarrow> True | Only ids \<Rightarrow> i \<in> set ids)"

lemma projectRoles_member:
  assumes "dir_ok d" and "p \<in> set (projects d)" and "\<not> is_platform (platformRole d uid)"
  defines "ms \<equiv> filter (\<lambda>m. pm_userId m = uid) (members d)"
    and "ps \<equiv> filter (\<lambda>p. ownerId p = uid) (projects d)"
  shows "map_of (fold (\<lambda>p acc. AList.update (project_id p) PAdmin acc) ps
           (fold (\<lambda>m acc. AList.update (pm_projectId m) (pm_role m) acc) ms [])) (project_id p)
       = (if ownerId p = uid then Some PAdmin else map_option pm_role
           (find (\<lambda>m. pm_projectId m = project_id p \<and> pm_userId m = uid) (members d)))"
proof -
  have dm: "distinct (map fst (map (\<lambda>m. (pm_projectId m, pm_role m)) ms))"
    using assms(1) distinct_filter_member by (auto simp: dir_ok_def ms_def comp_def)
  have dp: "distinct (map fst (map (\<lambda>p. (project_id p, PAdmin)) ps))"
    using assms(1) by (simp add: dir_ok_def ps_def comp_def distinct_map_filter)
  have "map_of (map (\<lambda>p. (project_id p, PAdmin)) ps) (project_id p) = (if ownerId p = uid then Some PAdmin else None)"
    using assms(1,2) by (simp add: map_of_find ps_def find_filter find_owned dir_ok_def)
  moreover have "map_of (map (\<lambda>m. (pm_projectId m, pm_role m)) ms) (project_id p) = map_option pm_role
      (find (\<lambda>m. pm_projectId m = project_id p \<and> pm_userId m = uid) (members d))"
    by (simp add: map_of_find ms_def find_filter conj_commute)
  ultimately show ?thesis
    by (simp add: fold_update_entries map_of_fold_update map_of_rev [OF dm] map_of_rev [OF dp]
        map_add_def del: map_map)
qed

text \<open>
  C25: for every project row, the role looked up in the bulk result of \<open>projectRoles\<close> is the one
  \<open>roleFor\<close> computes for that project, and the project is listed by \<open>accessibleProjectIds\<close>
  exactly when there is one: the three access computations agree, with and without a token scope.
\<close>

theorem access_paths_agree:
  assumes "dir_ok d" and "p \<in> set (projects d)"
  shows "role_in (projectRoles ctx d uid) (project_id p) = roleFor ctx d uid p \<and>
         (visible_in (accessibleProjectIds ctx d uid) (project_id p) \<longleftrightarrow> roleFor ctx d uid p \<noteq> None)"
proof (cases "is_platform (platformRole d uid)")
  case True
  have "map_of (map_of_entries (map (\<lambda>i. (i, PAdmin)) ids)) i = (if i \<in> set ids then Some PAdmin else None)"
    for ids :: "string list" and i
    by (simp add: map_of_map_of_entries rev_map map_of_const)
  with True show ?thesis
    by (auto simp: role_in_def visible_in_def projectRoles_def accessibleProjectIds_def roleFor_def Let_def
        split: option.splits)
next
  case False
  let ?find = "find (\<lambda>m. pm_projectId m = project_id p \<and> pm_userId m = uid) (members d)"
  have own: "project_id p \<in> project_id ` {q \<in> set (projects d). ownerId q = uid} \<longleftrightarrow> ownerId p = uid"
    using assms by (auto simp: dir_ok_def distinct_map dest: inj_onD)
  have mem: "project_id p \<in> pm_projectId ` {m \<in> set (members d). pm_userId m = uid} \<longleftrightarrow> ?find \<noteq> None"
    by (auto simp: find_None_iff intro: rev_image_eqI)
  have "role_in (projectRoles ctx d uid) (project_id p) = roleFor ctx d uid p"
    using False projectRoles_member [OF assms False]
    by (auto simp: role_in_def projectRoles_def roleFor_def Let_def map_of_filter_fst split: option.splits)
  moreover have "visible_in (accessibleProjectIds ctx d uid) (project_id p) \<longleftrightarrow> roleFor ctx d uid p \<noteq> None"
    using False own mem
    by (auto simp: visible_in_def accessibleProjectIds_def roleFor_def Let_def split: option.splits)
  ultimately show ?thesis by blast
qed


text \<open>A small directory the witnesses share: an owner, a member of one project and a token.\<close>

definition demo_user :: "string \<Rightarrow> user_role \<Rightarrow> user" where
  "demo_user i r = \<lparr>user_id = i, email = i @ ''@x.io'', passwordHash = [], user_name = None, urole = r,
     totpEnabled = False, totpSecretEncrypted = None, totpBackupHashes = None\<rparr>"

definition demo_token_text :: string where
  "demo_token_text = TOKEN_PREFIX @ replicate 40 (CHR ''a'')"

definition demo_dir :: directory where
  "demo_dir = \<lparr>users = [demo_user ''o'' Owner, demo_user ''m'' Member],
     projects = [\<lparr>project_id = ''p'', project_name = ''P'', ownerId = ''o''\<rparr>,
                 \<lparr>project_id = ''q'', project_name = ''Q'', ownerId = ''o''\<rparr>],
     members = [\<lparr>pm_projectId = ''p'', pm_userId = ''m'', pm_role = Developer\<rparr>],
     api_tokens = [\<lparr>token_id = ''t'', token_userId = ''m'', tokenHash = demo_token_text, expiresAt = Some 100,
       t_readOnly = True, t_projectIds = Some [''p''], t_variableScopes = None\<rparr>]\<rparr>"

definition demo_project :: project where
  "demo_project = \<lparr>project_id = ''p'', project_name = ''P'', ownerId = ''o''\<rparr>"

theorem access_paths_agree_witness:
  "role_in (projectRoles None demo_dir ''m'') ''p'' = Some Developer \<and>
   visible_in (accessibleProjectIds None demo_dir ''m'') ''p''"
proof -
  have "dir_ok demo_dir" by code_simp
  moreover have "demo_project \<in> set (projects demo_dir)" by code_simp
  moreover have "roleFor None demo_dir ''m'' demo_project = Some Developer" by code_simp
  ultimately show ?thesis
    using access_paths_agree [of demo_dir demo_project None "''m''"] by (simp add: demo_project_def)
qed

section \<open>Token scopes only narrow\<close>

text \<open>One scope is within another when it grants no project and no variable entry the other does not.\<close>

definition opt_within :: "'a list option \<Rightarrow> 'a list option \<Rightarrow> bool" where
  "opt_within a b = (case b of None \<Rightarrow> True
     | Some ys \<Rightarrow> (case a of None \<Rightarrow> False | Some xs \<Rightarrow> set xs \<subseteq> set ys))"

definition scope_within :: "token_scope \<Rightarrow> token_scope \<Rightarrow> bool" where
  "scope_within a b \<longleftrightarrow> (readOnly b \<longrightarrow> readOnly a) \<and> opt_within (projectIds a) (projectIds b) \<and>
     opt_within (variableScopes a) (variableScopes b)"

lemma within_full [simp]: "scope_within sc FULL_SCOPE"
  by (simp add: scope_within_def FULL_SCOPE_def opt_within_def)

text \<open>The contract of every decision that looks at the token of the request.\<close>

locale scoped_decision =
  fixes grants :: "token_scope \<Rightarrow> 'q \<Rightarrow> bool"
  assumes narrows: "scope_within a b \<Longrightarrow> grants a q \<Longrightarrow> grants b q"
begin

lemma session_grants: "grants a q \<Longrightarrow> grants FULL_SCOPE q"
  by (rule narrows [OF within_full])

lemma denied_to_session: "\<not> grants FULL_SCOPE q \<Longrightarrow> \<not> grants a q"
  using session_grants by blast

end

definition with_scope :: "request_context \<Rightarrow> token_scope \<Rightarrow> request_context option" where
  "with_scope c sc = setTokenScope sc (Some c)"

lemma scope_projects_with_scope [simp]: "scope_projects (with_scope c sc) = projectIds sc"
  by (simp add: scope_projects_def currentTokenScope_def with_scope_def setTokenScope_def)

lemma isWriteRequest_with_scope [simp]: "isWriteRequest (with_scope c sc) = isWriteRequest (Some c)"
  by (simp add: isWriteRequest_def with_scope_def setTokenScope_def)

lemma scope_projects_full [simp]: "scope_projects (setTokenScope FULL_SCOPE ctx) = None"
  by (cases ctx) (simp_all add: scope_projects_def currentTokenScope_def setTokenScope_def FULL_SCOPE_def)

lemma roleFor_mono:
  assumes "opt_within (scope_projects ctx) (scope_projects ctx')" and "roleFor ctx d uid p = Some r"
  shows "roleFor ctx' d uid p = Some r"
  using assms by (auto simp: roleFor_def opt_within_def split: option.splits if_splits)

lemma roleFor_scopeless: "scope_projects ctx = None \<Longrightarrow> roleFor ctx d uid p = roleFor None d uid p"
  by (simp add: roleFor_def scope_projects_def currentTokenScope_def)

lemma roleFor_with_scope_mono:
  "scope_within a b \<Longrightarrow> roleFor (with_scope c a) d uid p = Some r \<Longrightarrow> roleFor (with_scope c b) d uid p = Some r"
  by (rule roleFor_mono [of "with_scope c a"]) (simp_all add: scope_within_def)

lemma roleFor_full: "roleFor (with_scope c FULL_SCOPE) d uid p = roleFor None d uid p"
  by (rule roleFor_scopeless) (simp add: FULL_SCOPE_def)

interpretation project_scope: scoped_decision
  "\<lambda>sc (c, d, uid, p, r). roleFor (with_scope c sc) d uid p = Some r"
  by unfold_locales (auto intro: roleFor_with_scope_mono)

lemma variableScopeAllows_mono:
  "opt_within a b \<Longrightarrow> variableScopeAllows a s e \<Longrightarrow> variableScopeAllows b s e"
  by (auto simp: variableScopeAllows_def opt_within_def list_ex_iff split: option.splits)

interpretation variable_scope: scoped_decision
  "\<lambda>sc (s, e). variableScopeAllows (variableScopes sc) s e"
  by unfold_locales (auto simp: scope_within_def intro: variableScopeAllows_mono)

section \<open>Requests made with an API token\<close>

lemma resolve_SomeD:
  assumes "resolve hash now d b = Some (t, u)"
  shows "t \<in> set (api_tokens d)" "tokenHash t = hash b" "user_id u = token_userId t" "u \<in> set (users d)"
    "\<forall>e. expiresAt t = Some e \<longrightarrow> now \<le> e"
  using assms
  by (auto simp: resolve_def find_user_def find_Some_iff split: if_splits option.splits)

lemma jwt_token_SomeD:
  assumes "jwt_canActivate hash now d hasRoles session header ctx = Inr (pl, ctx')"
    and "looksLikeApiToken (strip_bearer header)"
  obtains t u where "resolve hash now d (strip_bearer header) = Some (t, u)"
    "t_readOnly t \<longrightarrow> \<not> isWriteRequest ctx" "t_projectIds t \<noteq> None \<longrightarrow> \<not> hasRoles"
    "pl = \<lparr>sub = user_id u, jwt_email = email u, jwt_role = urole u, tokenId = Some (token_id t)\<rparr>"
    "ctx' = setTokenScope \<lparr>readOnly = t_readOnly t, projectIds = t_projectIds t, variableScopes = t_variableScopes t\<rparr> ctx"
  using assms by (auto simp: jwt_canActivate_def Let_def split: option.splits if_splits)

lemma assertAccess_InrD:
  assumes "assertAccess ctx d uid p = Inr r"
  shows "roleFor ctx d uid p = Some r" "r = Viewer \<longrightarrow> \<not> isWriteRequest ctx"
  using assms by (auto simp: assertAccess_def split: option.splits if_splits)


definition demo_get :: request_context where
  "demo_get = \<lparr>req_method = ''GET'', req_path = ''/projects/p'', tokenScope = None\<rparr>"



lemma create_api_token_InrD:
  assumes "create_api_token hash now newId plaintext ctx u days ro pids vs d = Inr (d', t)"
  shows "d' = d\<lparr>api_tokens := api_tokens d @ [t]\<rparr>" "tokenHash t = hash plaintext" "token_userId t = sub u"
    "\<forall>i ids. t_projectIds t = Some ids \<and> i \<in> set ids \<longrightarrow> visible_in (accessibleProjectIds ctx d (sub u)) i"
    "tokenId u = None"
  using assms
  by (auto simp: create_api_token_def create_token_def rbind_def accessibleOrFail_def Let_def visible_in_def
      none_if_empty_def filter_empty_conv split: if_splits option.splits sum.splits some_or_all.splits)

lemma roleFor_tokens [simp]: "roleFor ctx (d\<lparr>api_tokens := ts\<rparr>) uid p = roleFor ctx d uid p"
  by (simp add: roleFor_def platformRole_def find_user_def)

text \<open>
  A token never carries more than its creator had.  When a request carrying the new token passes the
  guard, it acts as the creator, and every role it gets on a project is one the creator's own session
  has on that project.
\<close>

theorem created_token_no_escalation:
  assumes create: "create_api_token hash now newId plaintext ctx u days ro pids vs d = Inr (d', t)"
    and fresh: "\<forall>x \<in> set (api_tokens d). tokenHash x \<noteq> hash plaintext"
    and looks: "looksLikeApiToken plaintext" and header: "strip_bearer header = plaintext"
    and guard: "jwt_canActivate hash later d' hasRoles session header (Some c) = Inr (pl, ctx')"
    and role: "roleFor ctx' d' (sub pl) p = Some r"
  shows "sub pl = sub u \<and> tokenId pl = Some (token_id t) \<and>
     roleFor (setTokenScope FULL_SCOPE ctx) d (sub u) p = Some r"
proof -
  note c = create_api_token_InrD [OF create]
  obtain t' u' where r: "resolve hash later d' plaintext = Some (t', u')"
    and pl: "pl = \<lparr>sub = user_id u', jwt_email = email u', jwt_role = urole u', tokenId = Some (token_id t')\<rparr>"
    and ctx': "ctx' = with_scope c \<lparr>readOnly = t_readOnly t', projectIds = t_projectIds t', variableScopes = t_variableScopes t'\<rparr>"
    using jwt_token_SomeD [OF guard] looks header by (metis with_scope_def)
  have "t' = t" using resolve_SomeD(1,2) [OF r] c(1) fresh by auto
  then have same: "sub pl = sub u" "tokenId pl = Some (token_id t)"
    using resolve_SomeD(3) [OF r] pl c(3) by auto
  have "roleFor (with_scope c FULL_SCOPE) d (sub u) p = Some r"
    using project_scope.session_grants [of _ "(c, d, sub u, p, r)"] role ctx' same c(1) by auto
  then have "roleFor (setTokenScope FULL_SCOPE ctx) d (sub u) p = Some r"
    by (simp add: roleFor_full roleFor_scopeless [of "setTokenScope FULL_SCOPE ctx"])
  then show ?thesis using same by simp
qed

definition demo_session :: jwt_payload where
  "demo_session = \<lparr>sub = ''m'', jwt_email = ''m@x.io'', jwt_role = Member, tokenId = None\<rparr>"

definition demo_token2 :: string where
  "demo_token2 = TOKEN_PREFIX @ replicate 40 (CHR ''b'')"

theorem created_token_no_escalation_witness:
  "roleFor (setTokenScope FULL_SCOPE (Some demo_get)) demo_dir ''m'' demo_project = Some Developer"
proof -
  let ?h = "''Bearer '' @ demo_token2"
  let ?t = "\<lparr>token_id = ''n'', token_userId = ''m'', tokenHash = demo_token2, expiresAt = None,
       t_readOnly = False, t_projectIds = Some [''p''], t_variableScopes = None\<rparr>"
  let ?d' = "demo_dir\<lparr>api_tokens := api_tokens demo_dir @ [?t]\<rparr>"
  let ?ctx = "with_scope demo_get \<lparr>readOnly = False, projectIds = Some [''p''], variableScopes = None\<rparr>"
  let ?pl = "\<lparr>sub = ''m'', jwt_email = ''m@x.io'', jwt_role = Member, tokenId = Some ''n''\<rparr>"
  let ?s = "Inl (Unauthorized InvalidToken) :: jwt_payload acc"
  have "create_api_token (\<lambda>x. x) 5 ''n'' demo_token2 (Some demo_get) demo_session None None (Some [''p'']) None demo_dir
      = Inr (?d', ?t)" by code_simp
  moreover have "\<forall>x \<in> set (api_tokens demo_dir). tokenHash x \<noteq> (\<lambda>x. x) demo_token2" by code_simp
  moreover have "looksLikeApiToken demo_token2" by code_simp
  moreover have "strip_bearer ?h = demo_token2" by code_simp
  moreover have "jwt_canActivate (\<lambda>x. x) 6 ?d' False ?s ?h (Some demo_get) = Inr (?pl, ?ctx)" by code_simp
  moreover have "roleFor ?ctx ?d' (sub ?pl) demo_project = Some Developer" by code_simp
  ultimately show ?thesis
    using created_token_no_escalation [of "\<lambda>x. x" 5 "''n''" demo_token2 "Some demo_get" demo_session None None
        "Some [''p'']" None demo_dir ?d' ?t ?h 6 False ?s demo_get ?pl ?ctx demo_project Developer]
    by (simp add: demo_session_def)
qed

section \<open>Membership\<close>

datatype member_op =
    AddMember string string project_role
  | UpdateMember string string project_role
  | RemoveMember string string

fun member_op_apply :: "request_context option \<Rightarrow> string \<Rightarrow> member_op \<Rightarrow> directory \<Rightarrow> directory acc" where
  "member_op_apply ctx actor (AddMember pid mail r) d = add_member ctx actor pid mail r d"
| "member_op_apply ctx actor (UpdateMember pid uid r) d = update_member ctx actor pid uid r d"
| "member_op_apply ctx actor (RemoveMember pid uid) d = remove_member ctx actor pid uid d"

fun op_project :: "member_op \<Rightarrow> string" where
  "op_project (AddMember pid _ _) = pid"
| "op_project (UpdateMember pid _ _) = pid"
| "op_project (RemoveMember pid _) = pid"

lemma rbind_InrE:
  assumes "rbind m f = Inr y"
  obtains x where "m = Inr x" "f x = Inr y"
  using assms by (cases m) (auto simp: rbind_def)

lemma findOwned_InrD:
  assumes "findOwnedOrFail ctx d pid uid = Inr p"
  shows "p \<in> set (projects d)" "project_id p = pid" "\<exists>r. assertAccess ctx d uid p = Inr r"
  using assms by (auto simp: findOwnedOrFail_def find_Some_iff rbind_def split: option.splits sum.splits)

lemma findOwned_InrD':
  "findOwnedOrFail ctx d pid uid = Inr p \<Longrightarrow> p \<in> set (projects d) \<and> project_id p = pid"
  using findOwned_InrD by blast

lemma assertAdmin_InrD:
  assumes "assertAdmin ctx d uid p = Inr ()"
  shows "roleFor ctx d uid p = Some PAdmin"
  using assms by (auto simp: assertAdmin_def assertAccess_def rbind_def split: option.splits sum.splits if_splits)

lemma member_op_gate:
  assumes "member_op_apply ctx actor op d = Inr d'"
  obtains p where "p \<in> set (projects d)" "project_id p = op_project op" "roleFor ctx d actor p = Some PAdmin"
  using assms
  by (cases op) (auto simp: add_member_def update_member_def remove_member_def elim!: rbind_InrE
      dest!: findOwned_InrD' assertAdmin_InrD)

lemma member_op_frame:
  assumes "member_op_apply ctx actor op d = Inr d'"
  shows "users d' = users d" "projects d' = projects d" "api_tokens d' = api_tokens d"
  using assms
  by (cases op; auto simp: add_member_def update_member_def remove_member_def elim!: rbind_InrE
      split: option.splits if_splits)+

lemma member_op_others:
  assumes "member_op_apply ctx actor op d = Inr d'"
  shows "filter (\<lambda>m. pm_projectId m \<noteq> op_project op) (members d') = filter (\<lambda>m. pm_projectId m \<noteq> op_project op) (members d)"
proof (cases op)
  case (AddMember pid mail r)
  then show ?thesis using assms
    by (auto simp: add_member_def elim!: rbind_InrE dest!: findOwned_InrD(2) split: option.splits if_splits)
next
  case (UpdateMember pid uid r)
  have "filter (\<lambda>m. pm_projectId m \<noteq> pid) (map (\<lambda>m. if pm_projectId m = pid \<and> pm_userId m = uid then m\<lparr>pm_role := r\<rparr> else m) ms)
      = filter (\<lambda>m. pm_projectId m \<noteq> pid) ms" for ms by (induction ms) auto
  then show ?thesis using assms UpdateMember
    by (auto simp: update_member_def elim!: rbind_InrE dest!: findOwned_InrD(2) split: if_splits)
next
  case (RemoveMember pid uid)
  then show ?thesis using assms
    by (auto simp: remove_member_def elim!: rbind_InrE dest!: findOwned_InrD(2) split: if_splits
        intro: filter_cong)
qed

lemma member_op_dir_ok:
  assumes "dir_ok d" and "member_op_apply ctx actor op d = Inr d'"
  shows "dir_ok d'"
proof -
  have "distinct (map (\<lambda>m. (pm_projectId m, pm_userId m)) (members d'))"
  proof (cases op)
    case (AddMember pid mail r)
    then show ?thesis using assms
      by (auto simp: add_member_def dir_ok_def list_ex_iff elim!: rbind_InrE split: option.splits if_splits; blast)
  next
    case (UpdateMember pid uid r)
    have "(\<lambda>m. (pm_projectId m, pm_userId m)) \<circ> (\<lambda>m. if P m then m\<lparr>pm_role := r\<rparr> else m)
        = (\<lambda>m :: project_member. (pm_projectId m, pm_userId m))"
      for P by (rule ext) simp
    then show ?thesis using assms UpdateMember
      by (auto simp: update_member_def dir_ok_def elim!: rbind_InrE split: if_splits)
  next
    case (RemoveMember pid uid)
    then show ?thesis using assms
      by (auto simp: remove_member_def dir_ok_def distinct_map_filter elim!: rbind_InrE split: if_splits)
  qed
  then show ?thesis using assms(1) member_op_frame [OF assms(2)] by (simp add: dir_ok_def)
qed


lemma find_members_other:
  assumes "filter (\<lambda>m. pm_projectId m \<noteq> k) ms' = filter (\<lambda>m. pm_projectId m \<noteq> k) ms" and "k' \<noteq> k"
  shows "find (\<lambda>m. pm_projectId m = k' \<and> pm_userId m = uid) ms' = find (\<lambda>m. pm_projectId m = k' \<and> pm_userId m = uid) ms"
proof -
  have *: "find (\<lambda>m. pm_projectId m = k' \<and> pm_userId m = uid) xs
      = find (\<lambda>m. pm_projectId m = k' \<and> pm_userId m = uid) (filter (\<lambda>m. pm_projectId m \<noteq> k) xs)" for xs
    using assms(2) by (induction xs) auto
  show ?thesis unfolding * [of ms'] * [of ms] assms(1) ..
qed

text \<open>
  A membership change that succeeds was made by an admin of that project, keeps the unique indexes,
  and changes nobody's role on any other project, whatever the request that asks.
\<close>

theorem membership_change_safe:
  assumes ok: "dir_ok d" and op: "member_op_apply ctx actor op d = Inr d'"
  shows "dir_ok d' \<and>
    (\<exists>p \<in> set (projects d). project_id p = op_project op \<and> roleFor ctx d actor p = Some PAdmin) \<and>
    (\<forall>ctx' uid q. project_id q \<noteq> op_project op \<longrightarrow> roleFor ctx' d' uid q = roleFor ctx' d uid q)"
proof -
  have "roleFor ctx' d' uid q = roleFor ctx' d uid q" if "project_id q \<noteq> op_project op" for ctx' uid q
    using find_members_other [OF member_op_others [OF op] that] member_op_frame [OF op]
    by (simp add: roleFor_def platformRole_def find_user_def)
  then show ?thesis using member_op_dir_ok [OF ok op] member_op_gate [OF op] by blast
qed

theorem membership_change_safe_witness:
  "dir_ok (demo_dir\<lparr>members := []\<rparr>)"
proof -
  have "dir_ok demo_dir" by code_simp
  moreover have "member_op_apply None ''o'' (RemoveMember ''p'' ''m'') demo_dir = Inr (demo_dir\<lparr>members := []\<rparr>)"
    by code_simp
  ultimately show ?thesis using membership_change_safe by blast
qed

text \<open>
  Removing a member takes the project away from them at once, in every later request and with
  every token they hold, unless they own it or are a platform owner or admin.
\<close>

theorem remove_member_revokes:
  assumes "remove_member ctx actor pid uid d = Inr d'" and "q \<in> set (projects d)" and "project_id q = pid"
    and "ownerId q \<noteq> uid" and "\<not> is_platform (platformRole d uid)"
  shows "roleFor ctx' d' uid q = None \<and> assertAccess ctx' d' uid q = Inl (NotFound ProjectNotFound)"
proof -
  have d': "d' = d\<lparr>members := filter (\<lambda>m. \<not> (pm_projectId m = pid \<and> pm_userId m = uid)) (members d)\<rparr>"
    using assms(1) by (auto simp: remove_member_def elim!: rbind_InrE dest!: findOwned_InrD' split: if_splits)
  have "find (\<lambda>m. pm_projectId m = project_id q \<and> pm_userId m = uid) (members d') = None"
    using assms(3) by (simp add: d' find_None_iff)
  then have "roleFor ctx' d' uid q = None"
    using assms(4,5) by (simp add: roleFor_def platformRole_def find_user_def d')
  then show ?thesis by (simp add: assertAccess_def)
qed

theorem remove_member_revokes_witness:
  "roleFor (Some demo_get) (demo_dir\<lparr>members := []\<rparr>) ''m'' demo_project = None"
proof -
  have "remove_member None ''o'' ''p'' ''m'' demo_dir = Inr (demo_dir\<lparr>members := []\<rparr>)" by code_simp
  moreover have "demo_project \<in> set (projects demo_dir)" "project_id demo_project = ''p''"
    "ownerId demo_project \<noteq> ''m''" "\<not> is_platform (platformRole demo_dir ''m'')" by code_simp+
  ultimately show ?thesis using remove_member_revokes by blast
qed

end
