(* ===== verification/Accounts.thy ===== *)
theory Accounts
  imports Access_Control
begin

text \<open>
  Accounts: \<open>user.service.ts\<close> and the user controllers, first-run setup and the \<open>ADMIN_*\<close> bootstrap,
  invitations, sign-in with its optional second factor.  Password hashing (bcrypt), token digests
  (SHA-256), encryption and the one-time-password check are arguments; ids, link tokens and backup
  codes drawn at random are arguments of the operation that stores them.
\<close>

section \<open>State\<close>

record invitation =
  inv_id :: string
  inv_email :: string
  inv_role :: user_role
  inv_tokenHash :: string
  invitedById :: "string option"
  inv_expiresAt :: int
  acceptedAt :: "int option"

record account_state =
  dir :: directory
  invitations :: "invitation list"

datatype acct_reason =
    EmailTaken
  | EmailReserved
  | LastOwner
  | OwnsProjects nat
  | SetupDone
  | UserNotFound
  | OwnAccount
  | RoleRequired
  | SessionOnly
  | OwnersOnlyThemselves
  | PasswordNeeded
  | WrongPassword
  | InvitationNotFound
  | InvitationUsed
  | OnlyOwnerInvitesOwner
  | WrongCredentials
  | SignInAgain
  | WrongCode
  | NotASession
  | TwoFactorAlreadyOn

type_synonym 'a accr = "(acct_reason, 'a) res"

definition upd_user :: "string \<Rightarrow> (user \<Rightarrow> user) \<Rightarrow> account_state \<Rightarrow> account_state" where
  "upd_user uid f s = s\<lparr>dir := (dir s)\<lparr>users := map (\<lambda>u. if user_id u = uid then f u else u) (users (dir s))\<rparr>\<rparr>"

definition add_user :: "user \<Rightarrow> account_state \<Rightarrow> account_state" where
  "add_user u s = s\<lparr>dir := (dir s)\<lparr>users := users (dir s) @ [u]\<rparr>\<rparr>"

section \<open>UserService\<close>

definition normalizeEmail :: "string \<Rightarrow> string" where
  "normalizeEmail mail = trim (toLowerCase mail)"

definition cleanName :: "string option \<Rightarrow> string option" where
  "cleanName n = (case n of None \<Rightarrow> None | Some x \<Rightarrow> if trim x = [] then None else Some (trim x))"

definition find_by_email :: "account_state \<Rightarrow> string \<Rightarrow> user option" where
  "find_by_email s mail = find (\<lambda>u. email u = mail) (users (dir s))"

definition findByEmailWithPassword :: "account_state \<Rightarrow> string \<Rightarrow> user option" where
  "findByEmailWithPassword s mail = find_by_email s (toLowerCase mail)"

definition assertEmailAvailable :: "int \<Rightarrow> account_state \<Rightarrow> string \<Rightarrow> string option \<Rightarrow> unit accr" where
  "assertEmailAvailable now s mail except =
     (if (case find_by_email s mail of None \<Rightarrow> False | Some u \<Rightarrow> Some (user_id u) \<noteq> except)
      then Inl (Conflict EmailTaken)
      else if list_ex (\<lambda>i. inv_email i = mail \<and> acceptedAt i = None \<and> now < inv_expiresAt i) (invitations s)
      then Inl (Conflict EmailReserved)
      else Inr ())"

text \<open>
  \<open>updateProfile\<close>: the outer option of each field is "the patch has this key"; a duplicate email is
  refused by the unique index and reported as the same conflict.
\<close>

record profile_patch =
  patch_name :: "string option option"
  patch_email :: "string option"

definition updateProfile :: "string \<Rightarrow> profile_patch \<Rightarrow> account_state \<Rightarrow> account_state accr" where
  "updateProfile uid p s =
     (if (case patch_email p of None \<Rightarrow> False
          | Some e \<Rightarrow> list_ex (\<lambda>u. user_id u \<noteq> uid \<and> email u = e) (users (dir s)) \<and> find_user (dir s) uid \<noteq> None)
      then Inl (Conflict EmailTaken)
      else Inr (upd_user uid (\<lambda>u. u\<lparr>user_name := (case patch_name p of None \<Rightarrow> user_name u | Some n \<Rightarrow> n),
                                   email := (case patch_email p of None \<Rightarrow> email u | Some e \<Rightarrow> e)\<rparr>) s))"

definition new_user :: "string \<Rightarrow> string \<Rightarrow> string \<Rightarrow> string option \<Rightarrow> user_role \<Rightarrow> user" where
  "new_user newId mail pw n r = \<lparr>user_id = newId, email = mail, passwordHash = pw, user_name = n, urole = r,
     totpEnabled = False, totpSecretEncrypted = None, totpBackupHashes = None\<rparr>"

definition create_user ::
    "string \<Rightarrow> string \<Rightarrow> string \<Rightarrow> string option \<Rightarrow> user_role option \<Rightarrow> account_state \<Rightarrow> account_state accr" where
  "create_user newId mail pw n r s =
     (let u = new_user newId (normalizeEmail mail) pw (cleanName n) (case r of None \<Rightarrow> Member | Some x \<Rightarrow> x)
      in if find_by_email s (email u) \<noteq> None then Inl (Conflict EmailTaken) else Inr (add_user u s))"

definition count_owners :: "account_state \<Rightarrow> nat" where
  "count_owners s = length (filter (\<lambda>u. urole u = Owner) (users (dir s)))"

definition assertNotLastOwner :: "account_state \<Rightarrow> unit accr" where
  "assertNotLastOwner s = (if count_owners s \<le> 1 then Inl (Conflict LastOwner) else Inr ())"

definition assertOwnsNoProjects :: "account_state \<Rightarrow> string \<Rightarrow> unit accr" where
  "assertOwnsNoProjects s uid = (let n = length (filter (\<lambda>p. ownerId p = uid) (projects (dir s)))
     in if n > 0 then Inl (Conflict (OwnsProjects n)) else Inr ())"

section \<open>First owner\<close>

definition setup_execute ::
    "(string \<Rightarrow> string) \<Rightarrow> string \<Rightarrow> string \<Rightarrow> string \<Rightarrow> string option \<Rightarrow> account_state \<Rightarrow> account_state accr" where
  "setup_execute hashPassword newId mail pw n s =
     (if length (users (dir s)) > 0 then Inl (Conflict SetupDone)
      else Inr (add_user (new_user newId (normalizeEmail mail) (hashPassword pw) (cleanName n) Owner) s))"

definition onApplicationBootstrap ::
    "(string \<Rightarrow> string) \<Rightarrow> string \<Rightarrow> string option \<Rightarrow> string option \<Rightarrow> string option \<Rightarrow> account_state
     \<Rightarrow> account_state accr" where
  "onApplicationBootstrap hashPassword newId adminEmail adminPassword adminName s =
     (case (adminEmail, adminPassword) of
        (Some mail, Some pw) \<Rightarrow>
          if mail = [] \<or> pw = [] then Inr s
          else if length (users (dir s)) > 0 then Inr s
          else create_user newId mail (hashPassword pw)
                 (Some (case adminName of None \<Rightarrow> ''Admin'' | Some n \<Rightarrow> n)) (Some Owner) s
      | _ \<Rightarrow> Inr s)"

section \<open>Sessions\<close>

text \<open>The claims of a signed token: a session has no \<open>scope\<close>.\<close>

record claims =
  c_sub :: string
  c_scope :: "string option"

text \<open>\<open>JwtStrategy.validate\<close>: identity from the token, role from the table; an empty scope is no scope.\<close>

definition jwt_validate :: "account_state \<Rightarrow> claims \<Rightarrow> jwt_payload accr" where
  "jwt_validate s c =
     (if c_scope c \<noteq> None \<and> c_scope c \<noteq> Some [] then Inl (Unauthorized NotASession)
      else case find_user (dir s) (c_sub c) of
          None \<Rightarrow> Inl (Unauthorized UserNotFound)
        | Some u \<Rightarrow> Inr \<lparr>sub = user_id u, jwt_email = email u, jwt_role = urole u, tokenId = None\<rparr>)"

datatype sign_in_result =
    Session claims
  | RequiresTwoFactor claims

definition issue :: "user \<Rightarrow> claims" where
  "issue u = \<lparr>c_sub = user_id u, c_scope = None\<rparr>"

definition sign_in ::
    "(string \<Rightarrow> string \<Rightarrow> bool) \<Rightarrow> account_state \<Rightarrow> string \<Rightarrow> string \<Rightarrow> sign_in_result accr" where
  "sign_in verifyPassword s mail pw = (case findByEmailWithPassword s mail of
       None \<Rightarrow> Inl (Unauthorized WrongCredentials)
     | Some u \<Rightarrow> if \<not> verifyPassword pw (passwordHash u) then Inl (Unauthorized WrongCredentials)
         else if totpEnabled u then Inr (RequiresTwoFactor \<lparr>c_sub = user_id u, c_scope = Some ''2fa''\<rparr>)
         else Inr (Session (issue u)))"

section \<open>Second factor\<close>

text \<open>\<open>code.replace(/[\s-]/g, '').toLowerCase()\<close> before the digest; \<open>sha\<close> is the digest.\<close>

definition hashBackupCode :: "(string \<Rightarrow> string) \<Rightarrow> string \<Rightarrow> string" where
  "hashBackupCode sha code = sha (toLowerCase (filter (\<lambda>c. \<not> js_ws c \<and> c \<noteq> CHR ''-'') code))"

text \<open>\<open>chk\<close> is the one-time-password check against a decrypted secret at the current time.\<close>

definition user_verifyTotp :: "(string \<Rightarrow> string) \<Rightarrow> (string \<Rightarrow> string \<Rightarrow> bool) \<Rightarrow> user \<Rightarrow> string \<Rightarrow> bool" where
  "user_verifyTotp decrypt chk u code = (case totpSecretEncrypted u of
       None \<Rightarrow> False
     | Some e \<Rightarrow> if e = [] then False else chk (decrypt e) (filter (\<lambda>c. \<not> js_ws c) code))"

definition totp_setup :: "(string \<Rightarrow> string) \<Rightarrow> string \<Rightarrow> string \<Rightarrow> account_state \<Rightarrow> account_state" where
  "totp_setup encrypt secret uid s = upd_user uid (\<lambda>u. u\<lparr>totpSecretEncrypted := Some (encrypt secret),
     totpEnabled := False, totpBackupHashes := None\<rparr>) s"

definition totp_enable ::
    "(string \<Rightarrow> string) \<Rightarrow> (string \<Rightarrow> string) \<Rightarrow> (string \<Rightarrow> string \<Rightarrow> bool) \<Rightarrow> string list \<Rightarrow> user \<Rightarrow> string
     \<Rightarrow> account_state \<Rightarrow> (account_state \<times> string list) option" where
  "totp_enable sha decrypt chk codes u code s =
     (if totpSecretEncrypted u = None then None
      else if \<not> user_verifyTotp decrypt chk u code then None
      else Some (upd_user (user_id u) (\<lambda>x. x\<lparr>totpEnabled := True,
             totpBackupHashes := Some (map (hashBackupCode sha) codes)\<rparr>) s, codes))"

definition totp_disable :: "string \<Rightarrow> account_state \<Rightarrow> account_state" where
  "totp_disable uid s = upd_user uid (\<lambda>u. u\<lparr>totpEnabled := False, totpSecretEncrypted := None,
     totpBackupHashes := None\<rparr>) s"

definition verifyChallenge ::
    "(string \<Rightarrow> string) \<Rightarrow> (string \<Rightarrow> string) \<Rightarrow> (string \<Rightarrow> string \<Rightarrow> bool) \<Rightarrow> user \<Rightarrow> string \<Rightarrow> account_state
     \<Rightarrow> bool \<times> account_state" where
  "verifyChallenge sha decrypt chk u code s =
     (if user_verifyTotp decrypt chk u code then (True, s)
      else let h = hashBackupCode sha code;
               remaining = (case totpBackupHashes u of None \<Rightarrow> [] | Some l \<Rightarrow> l)
      in if h \<notin> set remaining then (False, s)
         else (True, upd_user (user_id u) (\<lambda>x. x\<lparr>totpBackupHashes := Some (filter (\<lambda>y. y \<noteq> h) remaining)\<rparr>) s))"

text \<open>The second sign-in step; \<open>verified\<close> is what the JWT library makes of the challenge token.\<close>

definition sign_in_two_factor ::
    "(string \<Rightarrow> string) \<Rightarrow> (string \<Rightarrow> string) \<Rightarrow> (string \<Rightarrow> string \<Rightarrow> bool) \<Rightarrow> claims option \<Rightarrow> string
     \<Rightarrow> account_state \<Rightarrow> (claims \<times> account_state) accr" where
  "sign_in_two_factor sha decrypt chk verified code s = (case verified of
       None \<Rightarrow> Inl (Unauthorized SignInAgain)
     | Some c \<Rightarrow> if c_scope c \<noteq> Some ''2fa'' then Inl (Unauthorized SignInAgain)
         else (case find_user (dir s) (c_sub c) of
             None \<Rightarrow> Inl (Unauthorized WrongCode)
           | Some u \<Rightarrow> (case verifyChallenge sha decrypt chk u code s of
                 (ok, s') \<Rightarrow> if \<not> ok then Inl (Unauthorized WrongCode) else Inr (issue u, s'))))"

text \<open>\<open>TwoFactorController\<close>: own second factor, from a password session.\<close>

definition load_actor :: "account_state \<Rightarrow> jwt_payload \<Rightarrow> user accr" where
  "load_actor s a = (if tokenId a \<noteq> None then Inl (Forbidden SessionOnly)
     else case find_user (dir s) (sub a) of None \<Rightarrow> Inl (Unauthorized UserNotFound) | Some u \<Rightarrow> Inr u)"

definition tf_setup :: "(string \<Rightarrow> string) \<Rightarrow> string \<Rightarrow> jwt_payload \<Rightarrow> account_state \<Rightarrow> account_state accr" where
  "tf_setup encrypt secret a s = rbind (load_actor s a) (\<lambda>u.
     if totpEnabled u then Inl (BadRequest TwoFactorAlreadyOn) else Inr (totp_setup encrypt secret (user_id u) s))"

definition tf_enable ::
    "(string \<Rightarrow> string) \<Rightarrow> (string \<Rightarrow> string) \<Rightarrow> (string \<Rightarrow> string \<Rightarrow> bool) \<Rightarrow> string list \<Rightarrow> jwt_payload \<Rightarrow> string
     \<Rightarrow> account_state \<Rightarrow> (account_state \<times> string list) accr" where
  "tf_enable sha decrypt chk codes a code s = rbind (load_actor s a) (\<lambda>u.
     if totpEnabled u then Inl (BadRequest TwoFactorAlreadyOn)
     else case totp_enable sha decrypt chk codes u code s of
         None \<Rightarrow> Inl (Unauthorized WrongCode) | Some r \<Rightarrow> Inr r)"

definition tf_disable ::
    "(string \<Rightarrow> string \<Rightarrow> bool) \<Rightarrow> jwt_payload \<Rightarrow> string \<Rightarrow> account_state \<Rightarrow> account_state accr" where
  "tf_disable verifyPassword a pw s = rbind (load_actor s a) (\<lambda>u.
     if \<not> verifyPassword pw (passwordHash u) then Inl (Unauthorized WrongPassword)
     else Inr (totp_disable (user_id u) s))"

section \<open>Managing users\<close>

text \<open>\<open>RolesGuard\<close> in front of a controller.\<close>

definition guarded :: "user_role list \<Rightarrow> jwt_payload \<Rightarrow> 'a accr \<Rightarrow> 'a accr" where
  "guarded rs a body = (if roles_canActivate (Some rs) (Some a) then body else Inl (Forbidden RoleRequired))"

definition update_user_role ::
    "jwt_payload \<Rightarrow> string \<Rightarrow> user_role \<Rightarrow> account_state \<Rightarrow> account_state accr" where
  "update_user_role a uid r s = guarded [Owner] a (case find_user (dir s) uid of
       None \<Rightarrow> Inl (NotFound UserNotFound)
     | Some u \<Rightarrow> rbind (if urole u = Owner \<and> r \<noteq> Owner then assertNotLastOwner s else Inr ()) (\<lambda>_.
         Inr (upd_user (user_id u) (\<lambda>x. x\<lparr>urole := r\<rparr>) s)))"

text \<open>Removing a user cascades to memberships and tokens and clears \<open>invited_by_id\<close>.\<close>

definition remove_user_rows :: "string \<Rightarrow> account_state \<Rightarrow> account_state" where
  "remove_user_rows uid s =
     \<lparr>dir = (dir s)\<lparr>users := filter (\<lambda>u. user_id u \<noteq> uid) (users (dir s)),
                   projects := filter (\<lambda>p. ownerId p \<noteq> uid) (projects (dir s)),
                   members := filter (\<lambda>m. pm_userId m \<noteq> uid) (members (dir s)),
                   api_tokens := filter (\<lambda>t. token_userId t \<noteq> uid) (api_tokens (dir s))\<rparr>,
      invitations = map (\<lambda>i. if invitedById i = Some uid then i\<lparr>invitedById := None\<rparr> else i) (invitations s)\<rparr>"

definition delete_user :: "jwt_payload \<Rightarrow> string \<Rightarrow> account_state \<Rightarrow> account_state accr" where
  "delete_user a uid s = guarded [Owner] a (
     if uid = sub a then Inl (Forbidden OwnAccount)
     else case find_user (dir s) uid of
         None \<Rightarrow> Inl (NotFound UserNotFound)
       | Some u \<Rightarrow> rbind (if urole u = Owner then assertNotLastOwner s else Inr ()) (\<lambda>_.
           rbind (assertOwnsNoProjects s (user_id u)) (\<lambda>_. Inr (remove_user_rows (user_id u) s))))"

definition set_user_password ::
    "(string \<Rightarrow> string) \<Rightarrow> jwt_payload \<Rightarrow> string \<Rightarrow> string \<Rightarrow> account_state \<Rightarrow> account_state accr" where
  "set_user_password hashPassword a uid pw s = guarded [Owner] a (
     if tokenId a \<noteq> None then Inl (Forbidden SessionOnly)
     else case find_user (dir s) uid of
         None \<Rightarrow> Inl (NotFound UserNotFound)
       | Some u \<Rightarrow> if user_id u = sub a \<or> urole u = Owner then Inl (Forbidden OwnersOnlyThemselves)
           else Inr (upd_user (user_id u) (\<lambda>x. x\<lparr>passwordHash := hashPassword pw\<rparr>) s))"

definition disable_user_two_factor :: "jwt_payload \<Rightarrow> string \<Rightarrow> account_state \<Rightarrow> account_state accr" where
  "disable_user_two_factor a uid s = guarded [Owner] a (
     if tokenId a \<noteq> None then Inl (Forbidden SessionOnly)
     else case find_user (dir s) uid of
         None \<Rightarrow> Inl (NotFound UserNotFound)
       | Some u \<Rightarrow> if urole u = Owner then Inl (Forbidden OwnersOnlyThemselves)
           else Inr (totp_disable (user_id u) s))"

definition change_password ::
    "(string \<Rightarrow> string) \<Rightarrow> (string \<Rightarrow> string \<Rightarrow> bool) \<Rightarrow> jwt_payload \<Rightarrow> string \<Rightarrow> string \<Rightarrow> account_state
     \<Rightarrow> account_state accr" where
  "change_password hashPassword verifyPassword a cur new s =
     (if tokenId a \<noteq> None then Inl (Forbidden SessionOnly)
      else case findByEmailWithPassword s (jwt_email a) of
          None \<Rightarrow> Inl (Unauthorized WrongPassword)
        | Some u \<Rightarrow> if \<not> verifyPassword cur (passwordHash u) then Inl (Unauthorized WrongPassword)
            else Inr (upd_user (user_id u) (\<lambda>x. x\<lparr>passwordHash := hashPassword new\<rparr>) s))"

text \<open>The profile forms: \<open>name\<close> may be absent, null or text; an empty email counts as absent.\<close>

definition name_patch :: "string option option \<Rightarrow> string option option" where
  "name_patch n = map_option cleanName n"

definition apply_patch :: "user \<Rightarrow> profile_patch \<Rightarrow> account_state \<Rightarrow> account_state accr" where
  "apply_patch u p s = (if patch_name p = None \<and> patch_email p = None then Inr s
     else updateProfile (user_id u) p s)"

definition update_own_profile ::
    "(string \<Rightarrow> string \<Rightarrow> bool) \<Rightarrow> int \<Rightarrow> jwt_payload \<Rightarrow> string option option \<Rightarrow> string option \<Rightarrow> string option
     \<Rightarrow> account_state \<Rightarrow> account_state accr" where
  "update_own_profile verifyPassword now a n mail cur s =
     (if tokenId a \<noteq> None then Inl (Forbidden SessionOnly)
      else case find_user (dir s) (sub a) of
          None \<Rightarrow> Inl (NotFound UserNotFound)
        | Some u \<Rightarrow>
            rbind (case mail of
                None \<Rightarrow> Inr None
              | Some m \<Rightarrow> if m = [] then Inr None
                  else if normalizeEmail m = email u then Inr None
                  else if cur = None \<or> cur = Some [] then Inl (BadRequest PasswordNeeded)
                  else if \<not> verifyPassword (the cur) (passwordHash u) then Inl (Unauthorized WrongPassword)
                  else rbind (assertEmailAvailable now s (normalizeEmail m) (Some (user_id u)))
                         (\<lambda>_. Inr (Some (normalizeEmail m))))
              (\<lambda>pe. apply_patch u \<lparr>patch_name = name_patch n, patch_email = pe\<rparr> s))"

definition update_user_profile ::
    "int \<Rightarrow> jwt_payload \<Rightarrow> string \<Rightarrow> string option option \<Rightarrow> string option \<Rightarrow> account_state \<Rightarrow> account_state accr" where
  "update_user_profile now a uid n mail s = guarded [Owner] a (case find_user (dir s) uid of
       None \<Rightarrow> Inl (NotFound UserNotFound)
     | Some u \<Rightarrow>
         if user_id u = sub a \<or> urole u = Owner then Inl (Forbidden OwnersOnlyThemselves)
         else rbind (case mail of
                None \<Rightarrow> Inr None
              | Some m \<Rightarrow> if m = [] then Inr None
                  else if normalizeEmail m = email u then Inr None
                  else rbind (assertEmailAvailable now s (normalizeEmail m) (Some (user_id u)))
                         (\<lambda>_. Inr (Some (normalizeEmail m))))
              (\<lambda>pe. apply_patch u \<lparr>patch_name = name_patch n, patch_email = pe\<rparr> s))"

section \<open>Invitations\<close>

definition INVITATION_TTL_MS :: int where
  "INVITATION_TTL_MS = 7 * 24 * 60 * 60 * 1000"

definition invitation_pending :: "int \<Rightarrow> invitation \<Rightarrow> bool" where
  "invitation_pending now i \<longleftrightarrow> acceptedAt i = None \<and> now < inv_expiresAt i"

definition findPendingByToken :: "(string \<Rightarrow> string) \<Rightarrow> int \<Rightarrow> account_state \<Rightarrow> string \<Rightarrow> invitation option" where
  "findPendingByToken sha now s tok =
     find (\<lambda>i. inv_tokenHash i = sha tok \<and> invitation_pending now i) (invitations s)"

definition create_invitation ::
    "(string \<Rightarrow> string) \<Rightarrow> int \<Rightarrow> string \<Rightarrow> string \<Rightarrow> jwt_payload \<Rightarrow> string \<Rightarrow> user_role \<Rightarrow> account_state
     \<Rightarrow> account_state accr" where
  "create_invitation sha now newId tok a mail r s = guarded [Owner, Admin] a (
     if r = Owner \<and> jwt_role a \<noteq> Owner then Inl (Forbidden OnlyOwnerInvitesOwner)
     else let e = normalizeEmail mail in
       if find_by_email s e \<noteq> None then Inl (Conflict EmailTaken)
       else Inr (s\<lparr>invitations := filter (\<lambda>i. \<not> (inv_email i = e \<and> acceptedAt i = None)) (invitations s) @
              [\<lparr>inv_id = newId, inv_email = e, inv_role = r, inv_tokenHash = sha tok, invitedById = Some (sub a),
                inv_expiresAt = now + INVITATION_TTL_MS, acceptedAt = None\<rparr>]\<rparr>))"

text \<open>
  Accepting: the lookup by token happens before the transaction, which claims the row (only if it is
  still unclaimed), refuses a taken email, and inserts the user; a throw rolls the claim back.
\<close>

definition accept_transaction ::
    "int \<Rightarrow> string \<Rightarrow> string \<Rightarrow> string option \<Rightarrow> invitation \<Rightarrow> account_state \<Rightarrow> account_state accr" where
  "accept_transaction now newId pwHash n invn s =
     (if \<not> list_ex (\<lambda>i. inv_id i = inv_id invn \<and> acceptedAt i = None) (invitations s)
      then Inl (Conflict InvitationUsed)
      else if find_by_email s (inv_email invn) \<noteq> None then Inl (Conflict EmailTaken)
      else Inr (add_user (new_user newId (inv_email invn) pwHash (cleanName n) (inv_role invn))
             (s\<lparr>invitations := map (\<lambda>i. if inv_id i = inv_id invn \<and> acceptedAt i = None
                  then i\<lparr>acceptedAt := Some now\<rparr> else i) (invitations s)\<rparr>)))"

definition accept_invitation ::
    "(string \<Rightarrow> string) \<Rightarrow> (string \<Rightarrow> string) \<Rightarrow> int \<Rightarrow> string \<Rightarrow> string \<Rightarrow> string \<Rightarrow> string option \<Rightarrow> account_state
     \<Rightarrow> account_state accr" where
  "accept_invitation sha hashPassword now newId tok pw n s = (case findPendingByToken sha now s tok of
       None \<Rightarrow> Inl (NotFound InvitationNotFound)
     | Some invn \<Rightarrow> accept_transaction now newId (hashPassword pw) n invn s)"

definition revoke_invitation :: "jwt_payload \<Rightarrow> string \<Rightarrow> account_state \<Rightarrow> account_state accr" where
  "revoke_invitation a iid s = guarded [Owner, Admin] a (
     if list_ex (\<lambda>i. inv_id i = iid) (invitations s)
     then Inr (s\<lparr>invitations := filter (\<lambda>i. inv_id i \<noteq> iid) (invitations s)\<rparr>)
     else Inl (NotFound InvitationNotFound))"

end
