(* ===== verification/Account_Laws.thy ===== *)
theory Account_Laws
  imports Accounts
begin

text \<open>
  Laws of the account operations: the invariant of every reachable state (an owner exists, emails are
  unique, at most one open invitation per address), what concurrency can and cannot break, who can
  make an owner, and the second factor.
\<close>

section \<open>Operations as steps\<close>

datatype acct_op =
    OpSetup string string string "string option"
  | OpBootstrap string "string option" "string option" "string option"
  | OpRole string user_role
  | OpDelete string
  | OpSetPassword string string
  | OpDisable2fa string
  | OpChangePassword string string
  | OpOwnProfile "string option option" "string option" "string option"
  | OpUserProfile string "string option option" "string option"
  | OpInvite string string string user_role
  | OpAccept string string string "string option"
  | OpRevoke string

text \<open>The functions of the crypto libraries the operations call.\<close>

record crypto =
  sha256 :: "string \<Rightarrow> string"
  bcrypt_hash :: "string \<Rightarrow> string"
  bcrypt_verify :: "string \<Rightarrow> string \<Rightarrow> bool"

fun acct_apply :: "crypto \<Rightarrow> int \<Rightarrow> jwt_payload \<Rightarrow> acct_op \<Rightarrow> account_state \<Rightarrow> account_state accr" where
  "acct_apply cr now a (OpSetup i mail pw n) s = setup_execute (bcrypt_hash cr) i mail pw n s"
| "acct_apply cr now a (OpBootstrap i mail pw n) s = onApplicationBootstrap (bcrypt_hash cr) i mail pw n s"
| "acct_apply cr now a (OpRole uid r) s = update_user_role a uid r s"
| "acct_apply cr now a (OpDelete uid) s = delete_user a uid s"
| "acct_apply cr now a (OpSetPassword uid pw) s = set_user_password (bcrypt_hash cr) a uid pw s"
| "acct_apply cr now a (OpDisable2fa uid) s = disable_user_two_factor a uid s"
| "acct_apply cr now a (OpChangePassword c n) s = change_password (bcrypt_hash cr) (bcrypt_verify cr) a c n s"
| "acct_apply cr now a (OpOwnProfile n mail c) s = update_own_profile (bcrypt_verify cr) now a n mail c s"
| "acct_apply cr now a (OpUserProfile uid n mail) s = update_user_profile now a uid n mail s"
| "acct_apply cr now a (OpInvite i tok mail r) s = create_invitation (sha256 cr) now i tok a mail r s"
| "acct_apply cr now a (OpAccept i tok pw n) s = accept_invitation (sha256 cr) (bcrypt_hash cr) now i tok pw n s"
| "acct_apply cr now a (OpRevoke iid) s = revoke_invitation a iid s"

text \<open>Ids come from \<open>uuid\<close> columns: an operation that inserts a row uses one that is not in the table.\<close>

fun ids_fresh :: "account_state \<Rightarrow> acct_op \<Rightarrow> bool" where
  "ids_fresh s (OpSetup i _ _ _) = (i \<notin> user_id ` set (users (dir s)))"
| "ids_fresh s (OpBootstrap i _ _ _) = (i \<notin> user_id ` set (users (dir s)))"
| "ids_fresh s (OpInvite i _ _ _) = (i \<notin> inv_id ` set (invitations s))"
| "ids_fresh s (OpAccept i _ _ _) = (i \<notin> user_id ` set (users (dir s)))"
| "ids_fresh s _ = True"

text \<open>
  The instance over time: the clock moves forward; a request acts with the payload the guards computed
  from the tables; public routes (setup, accepting) run for any payload.
\<close>

fun public_op :: "acct_op \<Rightarrow> bool" where
  "public_op (OpSetup _ _ _ _) = True"
| "public_op (OpBootstrap _ _ _ _) = True"
| "public_op (OpAccept _ _ _ _) = True"
| "public_op _ = False"

definition actor_of :: "account_state \<Rightarrow> jwt_payload \<Rightarrow> bool" where
  "actor_of s a \<longleftrightarrow> (\<exists>u. find_user (dir s) (sub a) = Some u \<and> jwt_email a = email u \<and> jwt_role a = urole u)"

definition fresh_state :: account_state where
  "fresh_state = \<lparr>dir = \<lparr>users = [], projects = [], members = [], api_tokens = []\<rparr>, invitations = []\<rparr>"

inductive acct_reach :: "crypto \<Rightarrow> int \<Rightarrow> account_state \<Rightarrow> bool" for cr where
  start: "acct_reach cr now fresh_state"
| tick: "acct_reach cr now s \<Longrightarrow> now \<le> later \<Longrightarrow> acct_reach cr later s"
| step: "acct_reach cr now s \<Longrightarrow> public_op op \<or> actor_of s a \<Longrightarrow> ids_fresh s op \<Longrightarrow>
    acct_apply cr now a op s = Inr s' \<Longrightarrow> acct_reach cr now s'"

section \<open>The invariant\<close>

definition open_emails :: "account_state \<Rightarrow> string list" where
  "open_emails s = map inv_email (filter (\<lambda>i. acceptedAt i = None) (invitations s))"

definition live_emails :: "int \<Rightarrow> account_state \<Rightarrow> string set" where
  "live_emails now s = set (map inv_email (filter (invitation_pending now) (invitations s)))"

definition acct_inv :: "int \<Rightarrow> account_state \<Rightarrow> bool" where
  "acct_inv now s \<longleftrightarrow>
     distinct (map user_id (users (dir s))) \<and>
     distinct (map email (users (dir s))) \<and>
     (users (dir s) \<noteq> [] \<longrightarrow> 1 \<le> count_owners s) \<and>
     distinct (map inv_id (invitations s)) \<and>
     distinct (open_emails s) \<and>
     (users (dir s) = [] \<longrightarrow> invitations s = []) \<and>
     email ` set (users (dir s)) \<inter> live_emails now s = {}"

lemma acct_invI:
  assumes "distinct (map user_id (users (dir s)))" "distinct (map email (users (dir s)))"
    "users (dir s) \<noteq> [] \<Longrightarrow> 1 \<le> count_owners s" "distinct (map inv_id (invitations s))"
    "distinct (open_emails s)" "users (dir s) = [] \<Longrightarrow> invitations s = []"
    "email ` set (users (dir s)) \<inter> live_emails now s = {}"
  shows "acct_inv now s"
  using assms by (auto simp: acct_inv_def)

lemma acct_inv_later: "acct_inv now s \<Longrightarrow> now \<le> later \<Longrightarrow> acct_inv later s"
proof -
  assume "acct_inv now s" "now \<le> later"
  moreover have "live_emails later s \<subseteq> live_emails now s"
    using \<open>now \<le> later\<close> by (auto simp: live_emails_def invitation_pending_def)
  ultimately show ?thesis unfolding acct_inv_def by blast
qed

subsection \<open>Rows that change one user\<close>

lemma upd_user_simps [simp]:
  "users (dir (upd_user uid f s)) = map (\<lambda>u. if user_id u = uid then f u else u) (users (dir s))"
  "invitations (upd_user uid f s) = invitations s"
  "open_emails (upd_user uid f s) = open_emails s"
  "live_emails now (upd_user uid f s) = live_emails now s"
  by (simp_all add: upd_user_def open_emails_def live_emails_def)

lemma find_user_SomeD: "find_user d uid = Some u \<Longrightarrow> u \<in> set (users d) \<and> user_id u = uid"
  by (auto simp: find_user_def find_Some_iff)

lemma find_by_email_None: "find_by_email s m = None \<longleftrightarrow> m \<notin> email ` set (users (dir s))"
  by (auto simp: find_by_email_def find_None_iff)

lemma map_if_key: "(\<And>u. g (f u) = g u) \<Longrightarrow> map (\<lambda>u. g (if P u then f u else u)) us = map g us"
  by (induction us) auto

lemma map_filter_keep:
  "(\<And>x. g (f x) = g x) \<Longrightarrow> (\<And>x. P (f x) = P x) \<Longrightarrow> map g (filter P (map f xs)) = map g (filter P xs)"
  by (induction xs) auto

lemma count_owners_keep:
  assumes "\<And>u. urole (f u) = urole u"
  shows "count_owners (upd_user uid f s) = count_owners s"
proof -
  have "length (filter (\<lambda>u. urole u = Owner) (map (\<lambda>u. if user_id u = uid then f u else u) us)) =
        length (filter (\<lambda>u. urole u = Owner) us)" for us
    by (induction us) (auto simp: assms)
  then show ?thesis by (simp add: count_owners_def)
qed

text \<open>A change that touches neither id, email nor role keeps the invariant.\<close>

lemma upd_user_inv [inv_intros]:
  assumes "acct_inv now s" and "\<And>u. user_id (f u) = user_id u" "\<And>u. email (f u) = email u" "\<And>u. urole (f u) = urole u"
  shows "acct_inv now (upd_user uid f s)"
proof -
  have e: "email ` set (users (dir (upd_user uid f s))) = email ` set (users (dir s))"
    unfolding upd_user_simps set_map [symmetric] map_map comp_def map_if_key [of email f, OF assms(3)] ..
  show ?thesis
    using assms(1) unfolding acct_inv_def e
    by (simp add: map_if_key [of user_id f, OF assms(2)] map_if_key [of email f, OF assms(3)] comp_def
        count_owners_keep [of f, OF assms(4)])
qed


lemma owners_after_role:
  fixes us :: "user list"
  assumes "distinct (map user_id us)"
  shows "length (filter (\<lambda>u. urole u = Owner) us) \<le>
     Suc (length (filter (\<lambda>u. urole u = Owner) (map (\<lambda>u. if user_id u = uid then u\<lparr>urole := r\<rparr> else u) us)))"
proof -
  have same: "filter ((\<lambda>u. urole u = Owner) \<circ> (\<lambda>u. if user_id u = uid then u\<lparr>urole := r\<rparr> else u)) us
      = filter (\<lambda>u. urole u = Owner) us" if "uid \<notin> user_id ` set us" for us :: "user list" and uid
    using that by (induction us) auto
  show ?thesis using assms by (induction us) (auto simp: same)
qed

lemma owners_after_role_keep:
  assumes "r = Owner \<or> (\<forall>u \<in> set us. user_id u = uid \<longrightarrow> urole u \<noteq> Owner)"
  shows "length (filter (\<lambda>u. urole u = Owner) us) \<le>
     length (filter (\<lambda>u. urole u = Owner) (map (\<lambda>u. if user_id u = uid then u\<lparr>urole := r\<rparr> else u) us))"
  using assms by (induction us) auto

lemma unique_user:
  assumes "acct_inv now s" "find_user (dir s) uid = Some u" "v \<in> set (users (dir s))" "user_id v = uid"
  shows "v = u"
  using assms find_user_SomeD [of "dir s" uid u] by (auto simp: acct_inv_def distinct_map dest: inj_onD)

lemma role_rows:
  "map user_id (users (dir (upd_user uid (\<lambda>x. x\<lparr>urole := r\<rparr>) s))) = map user_id (users (dir s))"
  "map email (users (dir (upd_user uid (\<lambda>x. x\<lparr>urole := r\<rparr>) s))) = map email (users (dir s))"
  "email ` set (users (dir (upd_user uid (\<lambda>x. x\<lparr>urole := r\<rparr>) s))) = email ` set (users (dir s))"
  "users (dir (upd_user uid (\<lambda>x. x\<lparr>urole := r\<rparr>) s)) = [] \<longleftrightarrow> users (dir s) = []"
proof -
  show *: "map email (users (dir (upd_user uid (\<lambda>x. x\<lparr>urole := r\<rparr>) s))) = map email (users (dir s))"
    by (simp add: comp_def map_if_key [of email])
  show "email ` set (users (dir (upd_user uid (\<lambda>x. x\<lparr>urole := r\<rparr>) s))) = email ` set (users (dir s))"
    using arg_cong [OF *, of set] by (simp only: set_map)
qed (simp_all add: comp_def map_if_key [of user_id])

lemma update_user_role_inv:
  assumes "acct_inv now s" and "update_user_role a uid r s = Inr s'"
  shows "acct_inv now s'"
proof -
  obtain u where u: "find_user (dir s) uid = Some u" and s': "s' = upd_user uid (\<lambda>x. x\<lparr>urole := r\<rparr>) s"
    and chk: "urole u = Owner \<and> r \<noteq> Owner \<longrightarrow> 2 \<le> count_owners s"
    using assms(2)
    by (auto simp: update_user_role_def guarded_def assertNotLastOwner_def dest: find_user_SomeD
        split: option.splits if_splits)
  let ?us = "users (dir s)"
  have d: "distinct (map user_id ?us)" using assms(1) by (simp add: acct_inv_def)
  have "1 \<le> count_owners s'" if "?us \<noteq> []"
  proof (cases "urole u = Owner \<and> r \<noteq> Owner")
    case True
    then show ?thesis using chk owners_after_role [OF d, of uid r] by (simp add: count_owners_def s')
  next
    case False
    then have "r = Owner \<or> (\<forall>v \<in> set ?us. user_id v = uid \<longrightarrow> urole v \<noteq> Owner)"
      using unique_user [OF assms(1) u] by blast
    then show ?thesis using owners_after_role_keep [of r ?us uid] assms(1) that
      by (auto simp: count_owners_def s' acct_inv_def)
  qed
  then show ?thesis
    using assms(1) role_rows [of uid r s] unfolding acct_inv_def s' by (auto simp del: upd_user_simps(1))
qed

lemma delete_user_inv:
  assumes "acct_inv now s" and "actor_of s a" and "delete_user a uid s = Inr s'"
  shows "acct_inv now s'"
proof -
  obtain v where v: "find_user (dir s) (sub a) = Some v" "urole v = jwt_role a" using assms(2) by (auto simp: actor_of_def)
  have s': "s' = remove_user_rows uid s" and o: "jwt_role a = Owner" "sub a \<noteq> uid"
    using assms(3)
    by (auto simp: delete_user_def guarded_def roles_canActivate_def dest: find_user_SomeD
        split: option.splits if_splits)
  have mem: "v \<in> set (users (dir s'))" "urole v = Owner"
    using find_user_SomeD [OF v(1)] v(2) o by (auto simp: s' remove_user_rows_def)
  then have "1 \<le> count_owners s'" by (auto simp: count_owners_def Suc_le_eq filter_empty_conv)
  moreover have "live_emails now s' = live_emails now s" "open_emails s' = open_emails s"
    "map inv_id (invitations s') = map inv_id (invitations s)"
    unfolding s' remove_user_rows_def live_emails_def open_emails_def account_state.select_convs
    by (auto simp: invitation_pending_def map_filter_keep [of inv_email] comp_def map_if_key [of inv_id] simp del: set_map)
  moreover have "distinct (map user_id (users (dir s')))" "distinct (map email (users (dir s')))"
    "email ` set (users (dir s')) \<subseteq> email ` set (users (dir s))"
    using assms(1) by (auto simp: s' remove_user_rows_def acct_inv_def distinct_map_filter)
  ultimately show ?thesis using assms(1) mem(1) unfolding acct_inv_def by auto
qed


lemma assertEmailAvailable_InrD:
  assumes "assertEmailAvailable now s m (Some uid) = Inr ()" and "distinct (map email (users (dir s)))"
  shows "\<forall>u \<in> set (users (dir s)). email u = m \<longrightarrow> user_id u = uid" and "m \<notin> live_emails now s"
proof -
  show "m \<notin> live_emails now s"
    using assms(1) by (auto simp: assertEmailAvailable_def live_emails_def invitation_pending_def list_ex_iff split: if_splits)
  show "\<forall>u \<in> set (users (dir s)). email u = m \<longrightarrow> user_id u = uid"
  proof (intro ballI impI)
    fix u assume u: "u \<in> set (users (dir s))" "email u = m"
    then obtain v where v: "find_by_email s m = Some v" using find_by_email_None [of s m] by (cases "find_by_email s m") auto
    then have "user_id v = uid" using assms(1) by (auto simp: assertEmailAvailable_def split: if_splits)
    moreover have "v = u" using v u assms(2)
      by (auto simp: find_by_email_def find_Some_iff distinct_map dest: inj_onD)
    ultimately show "user_id u = uid" by simp
  qed
qed

lemma updateProfile_inv:
  assumes I: "acct_inv now s" and e: "case patch_email p of None \<Rightarrow> True | Some m \<Rightarrow>
      (\<forall>u \<in> set (users (dir s)). email u = m \<longrightarrow> user_id u = uid) \<and> m \<notin> live_emails now s"
    and up: "updateProfile uid p s = Inr s'"
  shows "acct_inv now s'"
proof -
  define f where "f = (\<lambda>u :: user. u\<lparr>user_name := (case patch_name p of None \<Rightarrow> user_name u | Some n \<Rightarrow> n),
     email := (case patch_email p of None \<Rightarrow> email u | Some e \<Rightarrow> e)\<rparr>)"
  have s': "s' = upd_user uid f s" using up by (simp add: updateProfile_def f_def split: if_splits)
  show ?thesis
  proof (cases "patch_email p")
    case None
    then show ?thesis unfolding s' by (intro upd_user_inv [OF I]) (simp_all add: f_def)
  next
    case (Some m)
    have ids: "map user_id (users (dir s')) = map user_id (users (dir s))"
      by (simp add: s' comp_def map_if_key [of user_id f] f_def)
    have own: "count_owners s' = count_owners s" unfolding s' by (rule count_owners_keep) (simp add: f_def)
    have em: "email ` set (users (dir s')) \<subseteq> insert m (email ` set (users (dir s)))"
      by (auto simp: s' f_def Some split: if_splits)
    let ?F = "\<lambda>u. if user_id u = uid then f u else u"
    have fm: "email (f u) = m" for u by (simp add: f_def Some)
    have "u = v" if uv: "u \<in> set (users (dir s))" "v \<in> set (users (dir s))" and eq: "email (?F u) = email (?F v)" for u v
    proof -
      have "user_id u = user_id v \<or> email u = email v" using uv eq e Some fm by (auto split: if_splits)
      then show ?thesis using I uv unfolding acct_inv_def distinct_map by (auto dest: inj_onD)
    qed
    then have "inj_on (\<lambda>u. email (?F u)) (set (users (dir s)))" by (auto intro: inj_onI)
    moreover have "distinct (users (dir s))" using I by (simp add: acct_inv_def distinct_map)
    ultimately have "distinct (map email (map ?F (users (dir s))))" by (simp add: distinct_map comp_def)
    then have "distinct (map email (users (dir s')))"
      by (simp add: s')
    then show ?thesis using I e Some ids own em unfolding acct_inv_def s' by (auto simp del: upd_user_simps(1))
  qed
qed

lemma apply_patch_inv:
  assumes "acct_inv now s" and "case patch_email p of None \<Rightarrow> True | Some m \<Rightarrow>
      assertEmailAvailable now s m (Some (user_id u)) = Inr ()"
    and "apply_patch u p s = Inr s'"
  shows "acct_inv now s'"
proof (cases "patch_name p = None \<and> patch_email p = None")
  case False
  have d: "distinct (map email (users (dir s)))" using assms(1) by (simp add: acct_inv_def)
  show ?thesis
    by (rule updateProfile_inv [OF assms(1), where p = p and uid = "user_id u"])
      (use assms(2,3) False assertEmailAvailable_InrD [OF _ d] in \<open>auto simp: apply_patch_def split: option.splits if_splits\<close>)
qed (use assms in \<open>auto simp: apply_patch_def\<close>)

lemma update_own_profile_inv:
  assumes "acct_inv now s" and "update_own_profile vp now a n mail cur s = Inr s'"
  shows "acct_inv now s'"
  using assms(2)
  by (auto simp: update_own_profile_def split: option.splits if_splits
      intro!: apply_patch_inv [OF assms(1)])

lemma update_user_profile_inv:
  assumes "acct_inv now s" and "update_user_profile now a uid n mail s = Inr s'"
  shows "acct_inv now s'"
  using assms(2)
  by (auto simp: update_user_profile_def guarded_def split: option.splits if_splits
      intro!: apply_patch_inv [OF assms(1)])


subsection \<open>Rows that are added\<close>

lemma add_user_simps [simp]:
  "users (dir (add_user u s)) = users (dir s) @ [u]"
  "invitations (add_user u s) = invitations s"
  "open_emails (add_user u s) = open_emails s"
  "live_emails now (add_user u s) = live_emails now s"
  "count_owners (add_user u s) = count_owners s + (if urole u = Owner then 1 else 0)"
  by (simp_all add: add_user_def open_emails_def live_emails_def count_owners_def)

lemma first_owner_inv:
  assumes "acct_inv now s" and "users (dir s) = []" and "urole u = Owner"
  shows "acct_inv now (add_user u s)"
  using assms by (auto simp: acct_inv_def live_emails_def)

lemma setup_inv:
  assumes "acct_inv now s" and "setup_execute h i mail pw n s = Inr s'"
  shows "acct_inv now s'"
  using assms(2) by (auto simp: setup_execute_def new_user_def intro!: first_owner_inv [OF assms(1)] split: if_splits)

lemma bootstrap_inv:
  assumes "acct_inv now s" and "onApplicationBootstrap h i mail pw n s = Inr s'"
  shows "acct_inv now s'"
  using assms
  by (auto simp: onApplicationBootstrap_def create_user_def new_user_def Let_def intro!: first_owner_inv [OF assms(1)]
      split: option.splits if_splits)

lemma actor_exists: "actor_of s a \<Longrightarrow> users (dir s) \<noteq> []"
  by (auto simp: actor_of_def dest: find_user_SomeD)

lemma disjoint_insert_mono: "A \<inter> L = {} \<Longrightarrow> e \<notin> A \<Longrightarrow> L' \<subseteq> insert e L \<Longrightarrow> A \<inter> L' = {}"
  by blast

lemma create_invitation_inv:
  assumes I: "acct_inv now s" and "actor_of s a" and "i \<notin> inv_id ` set (invitations s)"
    and op: "create_invitation sha now i tok a mail r s = Inr s'"
  shows "acct_inv now s'"
proof -
  let ?e = "normalizeEmail mail"
  let ?keep = "filter (\<lambda>x. \<not> (inv_email x = ?e \<and> acceptedAt x = None)) (invitations s)"
  obtain row where row: "inv_id row = i" "inv_email row = ?e" "acceptedAt row = None"
    and s': "s' = s\<lparr>invitations := ?keep @ [row]\<rparr>" and free: "?e \<notin> email ` set (users (dir s))"
    using op by (force simp: create_invitation_def guarded_def Let_def find_by_email_None split: if_splits)
  have "map inv_email (filter (\<lambda>x. acceptedAt x = None) (filter (\<lambda>x. \<not> (inv_email x = m \<and> acceptedAt x = None)) xs))
      = filter (\<lambda>k. k \<noteq> m) (map inv_email (filter (\<lambda>x. acceptedAt x = None) xs))" for m and xs :: "invitation list"
    by (induction xs) auto
  then have "open_emails s' = filter (\<lambda>m. m \<noteq> ?e) (open_emails s) @ [?e]"
    by (simp add: open_emails_def s' row del: filter_filter)
  moreover have "live_emails now s' \<subseteq> insert ?e (live_emails now s)"
    by (auto simp: live_emails_def s' row)
  moreover have "distinct (map inv_id (invitations s'))"
    using I assms(3) by (auto simp: s' row acct_inv_def distinct_map_filter)
  moreover have "users (dir s') = users (dir s)" "count_owners s' = count_owners s"
    by (simp_all add: s' count_owners_def)
  moreover have "email ` set (users (dir s)) \<inter> live_emails now s' = {}"
    using disjoint_insert_mono [OF _ free calculation(2)] I by (simp add: acct_inv_def)
  ultimately show ?thesis
    using I actor_exists [OF assms(2)] unfolding acct_inv_def by simp
qed

lemma accept_transaction_inv:
  assumes I: "acct_inv now s" and fresh: "i \<notin> user_id ` set (users (dir s))"
    and mem: "invn \<in> set (invitations s)" "acceptedAt invn = None"
    and op: "accept_transaction now i pw n invn s = Inr s'"
  shows "acct_inv now s'"
proof -
  let ?g = "\<lambda>x. if inv_id x = inv_id invn \<and> acceptedAt x = None then x\<lparr>acceptedAt := Some now\<rparr> else x"
  let ?s1 = "s\<lparr>invitations := map ?g (invitations s)\<rparr>"
  let ?e = "inv_email invn"
  define u where "u = new_user i ?e pw (cleanName n) (inv_role invn)"
  have u: "user_id u = i" "email u = ?e" by (simp_all add: u_def new_user_def)
  have s': "s' = add_user u ?s1" and free: "?e \<notin> email ` set (users (dir s))"
    using op by (auto simp: accept_transaction_def u_def find_by_email_None split: if_splits)
  have one: "x = invn" if "x \<in> set (invitations s)" "inv_id x = inv_id invn" for x
    using I that mem by (auto simp: acct_inv_def distinct_map dest: inj_onD)
  have oe: "x = invn" if "x \<in> set (invitations s)" "acceptedAt x = None" "inv_email x = ?e" for x
    using I that mem by (auto simp: acct_inv_def open_emails_def distinct_map dest: inj_onD)
  have "live_emails now ?s1 \<subseteq> live_emails now s - {?e}"
    using one oe by (auto simp: live_emails_def invitation_pending_def split: if_splits)
  moreover have "distinct (map inv_email (filter (\<lambda>x. acceptedAt x = None) (map ?g xs)))"
    if "distinct (map inv_email (filter (\<lambda>x. acceptedAt x = None) xs))" for xs :: "invitation list"
    using that by (induction xs) auto
  then have "distinct (open_emails ?s1)" using I by (simp add: acct_inv_def open_emails_def)
  moreover have "map inv_id (map ?g (invitations s)) = map inv_id (invitations s)"
    by (simp add: comp_def map_if_key [of inv_id])
  then have "distinct (map inv_id (invitations ?s1))" using I by (simp add: acct_inv_def del: map_map)
  ultimately show ?thesis
    using I u free fresh mem unfolding s' by (intro acct_invI) (auto simp: acct_inv_def count_owners_def)
qed

lemma accept_invitation_inv:
  assumes "acct_inv now s" and "i \<notin> user_id ` set (users (dir s))"
    and "accept_invitation sha h now i tok pw n s = Inr s'"
  shows "acct_inv now s'"
  using assms(3) accept_transaction_inv [OF assms(1,2)]
  by (auto simp: accept_invitation_def findPendingByToken_def invitation_pending_def
      dest!: find_SomeD split: option.splits)

lemma revoke_invitation_inv:
  assumes "acct_inv now s" and "revoke_invitation a iid s = Inr s'"
  shows "acct_inv now s'"
proof -
  have s': "s' = s\<lparr>invitations := filter (\<lambda>i. inv_id i \<noteq> iid) (invitations s)\<rparr>"
    using assms(2) by (auto simp: revoke_invitation_def guarded_def split: if_splits)
  have "live_emails now s' \<subseteq> live_emails now s" by (auto simp: s' live_emails_def)
  moreover have "distinct (open_emails s')" using assms(1)
    by (simp add: s' acct_inv_def open_emails_def filter_filter distinct_map_filter conj_commute)
      (metis distinct_map_filter filter_filter)
  ultimately show ?thesis using assms(1) by (auto simp: s' acct_inv_def count_owners_def distinct_map_filter)
qed


subsection \<open>Every reachable state\<close>

lemma acct_apply_inv:
  assumes I: "acct_inv now s" and ac: "public_op op \<or> actor_of s a" and fr: "ids_fresh s op"
    and op: "acct_apply cr now a op s = Inr s'"
  shows "acct_inv now s'"
proof (cases op)
  case (OpSetup i mail pw n)
  then show ?thesis using op setup_inv [OF I] by simp
next
  case (OpBootstrap i mail pw n)
  then show ?thesis using op bootstrap_inv [OF I] by simp
next
  case (OpRole uid r)
  then show ?thesis using op update_user_role_inv [OF I] by simp
next
  case (OpDelete uid)
  then show ?thesis using op ac delete_user_inv [OF I] by simp
next
  case (OpSetPassword uid pw)
  then show ?thesis using op
    by (auto simp: set_user_password_def guarded_def split: option.splits if_splits intro!: upd_user_inv [OF I])
next
  case (OpDisable2fa uid)
  then show ?thesis using op
    by (auto simp: disable_user_two_factor_def totp_disable_def guarded_def split: option.splits if_splits
        intro!: upd_user_inv [OF I])
next
  case (OpChangePassword c n)
  then show ?thesis using op
    by (auto simp: change_password_def split: option.splits if_splits intro!: upd_user_inv [OF I])
next
  case (OpOwnProfile n mail c)
  then show ?thesis using op update_own_profile_inv [OF I] by simp
next
  case (OpUserProfile uid n mail)
  then show ?thesis using op update_user_profile_inv [OF I] by simp
next
  case (OpInvite i tok mail r)
  then show ?thesis using op ac fr create_invitation_inv [OF I] by simp
next
  case (OpAccept i tok pw n)
  then show ?thesis using op fr accept_invitation_inv [OF I] by simp
next
  case (OpRevoke iid)
  then show ?thesis using op revoke_invitation_inv [OF I] by simp
qed

lemma acct_reach_inv: "acct_reach cr now s \<Longrightarrow> acct_inv now s"
proof (induction rule: acct_reach.induct)
  case (start now)
  show ?case by (simp add: acct_inv_def fresh_state_def open_emails_def live_emails_def)
next
  case (tick now s later)
  then show ?case using acct_inv_later by blast
next
  case (step now s op a s')
  then show ?case using acct_apply_inv by blast
qed

text \<open>
  C14: in every state the account operations can reach, one at a time, an instance with any user has an
  owner, ids and emails are unique, there is at most one unaccepted invitation per address, and no
  invitation that can still be accepted is for the address of an existing account.
\<close>

theorem accounts_invariant:
  assumes "acct_reach cr now s"
  shows "acct_inv now s"
  using assms by (rule acct_reach_inv)

definition demo_crypto :: crypto where
  "demo_crypto = \<lparr>sha256 = (\<lambda>x. x), bcrypt_hash = (\<lambda>x. x), bcrypt_verify = (\<lambda>x y. x = y)\<rparr>"

definition demo_owner :: jwt_payload where
  "demo_owner = \<lparr>sub = ''o'', jwt_email = ''o@x.io'', jwt_role = Owner, tokenId = None\<rparr>"

definition after_setup :: account_state where
  "after_setup = add_user (new_user ''o'' ''o@x.io'' ''pw'' None Owner) fresh_state"

definition after_invite :: account_state where
  "after_invite = after_setup\<lparr>invitations := [\<lparr>inv_id = ''i'', inv_email = ''b@x.io'', inv_role = Member,
     inv_tokenHash = ''tok'', invitedById = Some ''o'', inv_expiresAt = 604800000, acceptedAt = None\<rparr>]\<rparr>"

lemma reach_after_invite: "acct_reach demo_crypto 0 after_invite"
proof (rule acct_reach.step [where op = "OpInvite ''i'' ''tok'' '' B@X.io'' Member" and a = demo_owner])
  show "acct_reach demo_crypto 0 after_setup"
  proof (rule acct_reach.step [where op = "OpSetup ''o'' ''O@x.io'' ''pw'' None"])
    show "acct_reach demo_crypto 0 fresh_state" by (rule acct_reach.start)
    show "acct_apply demo_crypto 0 demo_owner (OpSetup ''o'' ''O@x.io'' ''pw'' None) fresh_state = Inr after_setup"
      by code_simp
  qed (simp_all add: fresh_state_def)
  show "acct_apply demo_crypto 0 demo_owner (OpInvite ''i'' ''tok'' '' B@X.io'' Member) after_setup = Inr after_invite"
    by code_simp
  have "find_user (dir after_setup) (sub demo_owner) = Some (new_user ''o'' ''o@x.io'' ''pw'' None Owner)" by code_simp
  then show "public_op (OpInvite ''i'' ''tok'' '' B@X.io'' Member) \<or> actor_of after_setup demo_owner"
    by (simp add: actor_of_def demo_owner_def new_user_def)
  show "ids_fresh after_setup (OpInvite ''i'' ''tok'' '' B@X.io'' Member)" by code_simp
qed

theorem accounts_invariant_witness: "acct_inv 0 after_invite"
  using accounts_invariant [OF reach_after_invite] .


subsection \<open>Invitations are used once\<close>

fun acct_run :: "crypto \<Rightarrow> (int \<times> jwt_payload \<times> acct_op) list \<Rightarrow> account_state \<Rightarrow> account_state" where
  "acct_run cr [] s = s"
| "acct_run cr ((now, a, op) # ops) s =
     acct_run cr ops (case acct_apply cr now a op s of Inl _ \<Rightarrow> s | Inr s' \<Rightarrow> s')"

definition open_id :: "string \<Rightarrow> account_state \<Rightarrow> bool" where
  "open_id k s \<longleftrightarrow> list_ex (\<lambda>i. inv_id i = k \<and> acceptedAt i = None) (invitations s)"

fun issues_id :: "string \<Rightarrow> acct_op \<Rightarrow> bool" where
  "issues_id k (OpInvite i _ _ _) = (i = k)"
| "issues_id k _ = False"

lemma open_id_simps [simp]:
  "open_id k (upd_user uid f s) = open_id k s" "open_id k (add_user u s) = open_id k s"
  by (simp_all add: open_id_def)

lemma list_ex_map_accept:
  "list_ex (\<lambda>i. inv_id i = k \<and> acceptedAt i = None)
     (map (\<lambda>i. if P i then i\<lparr>acceptedAt := Some t\<rparr> else i) is) \<Longrightarrow>
   list_ex (\<lambda>i. inv_id i = k \<and> acceptedAt i = None) is"
  by (induction "is") (auto split: if_splits)

lemma apply_patch_open [simp]: "apply_patch u p s = Inr s' \<Longrightarrow> open_id k s' = open_id k s"
  by (auto simp: apply_patch_def updateProfile_def split: if_splits)

lemma open_id_step:
  assumes "acct_apply cr now a op s = Inr s'" and "\<not> issues_id k op" and "open_id k s'"
  shows "open_id k s"
proof (cases op)
  case (OpDelete uid)
  have "list_ex (\<lambda>i. inv_id i = k \<and> acceptedAt i = None) (map (\<lambda>i. if invitedById i = x then i\<lparr>invitedById := None\<rparr> else i) xs)
      \<Longrightarrow> list_ex (\<lambda>i. inv_id i = k \<and> acceptedAt i = None) xs" for x xs by (induction xs) (auto split: if_splits)
  then show ?thesis using assms OpDelete
    by (auto simp: delete_user_def guarded_def remove_user_rows_def open_id_def split: option.splits if_splits)
next
  case (OpAccept i tok pw n)
  then show ?thesis using assms
    by (auto simp: accept_invitation_def accept_transaction_def open_id_def split: option.splits if_splits
        dest: list_ex_map_accept)
next
  case (OpInvite i tok mail r)
  then show ?thesis using assms
    by (auto simp: create_invitation_def guarded_def Let_def open_id_def list_ex_iff split: if_splits)
next
  case (OpRevoke iid)
  then show ?thesis using assms
    by (auto simp: revoke_invitation_def guarded_def open_id_def list_ex_iff split: if_splits)
qed (use assms in \<open>auto simp: setup_execute_def onApplicationBootstrap_def create_user_def Let_def update_user_role_def
    set_user_password_def disable_user_two_factor_def totp_disable_def change_password_def update_own_profile_def
    update_user_profile_def guarded_def split: option.splits if_splits\<close>)

lemma closed_run:
  assumes "\<not> open_id k s" and "\<forall>(now, a, op) \<in> set ops. \<not> issues_id k op"
  shows "\<not> open_id k (acct_run cr ops s)"
  using assms
proof (induction ops arbitrary: s)
  case (Cons x ops)
  obtain now a op where x: "x = (now, a, op)" by (cases x) auto
  have "\<not> open_id k (case acct_apply cr now a op s of Inl _ \<Rightarrow> s | Inr s' \<Rightarrow> s')"
    using Cons.prems open_id_step [of cr now a op s _ k] by (auto simp: x split: sum.splits)
  then show ?case using Cons by (simp add: x)
qed simp

lemma accept_closes:
  assumes "accept_transaction now i pw n invn s = Inr s1"
  shows "\<not> open_id (inv_id invn) s1"
  using assms by (auto simp: accept_transaction_def open_id_def list_ex_iff split: if_splits)

text \<open>
  C15: an invitation link creates at most one account.  A request that looked the invitation up before
  another one used it is refused when its own transaction runs, whatever account operations ran in
  between (no later invitation reusing the row's uuid).
\<close>

theorem invitation_single_use:
  assumes "accept_transaction now i1 pw1 n1 invn s = Inr s1"
    and "\<forall>(t, a, op) \<in> set ops. \<not> issues_id (inv_id invn) op"
  shows "accept_transaction later i2 pw2 n2 invn (acct_run cr ops s1) = Inl (Conflict InvitationUsed)"
  using closed_run [OF accept_closes [OF assms(1)] assms(2)]
  by (simp add: accept_transaction_def open_id_def)

theorem invitation_single_use_witness:
  "\<exists>s1. accept_transaction 5 ''b'' ''h'' None (hd (invitations after_invite)) after_invite = Inr s1 \<and>
        accept_transaction 6 ''c'' ''h'' None (hd (invitations after_invite)) 
          (acct_run demo_crypto [(5, demo_owner, OpDelete ''b'')] s1) = Inl (Conflict InvitationUsed)"
proof -
  let ?i = "hd (invitations after_invite)"
  let ?s1 = "case accept_transaction 5 ''b'' ''h'' None ?i after_invite of Inr x \<Rightarrow> x | Inl _ \<Rightarrow> fresh_state"
  have ok: "accept_transaction 5 ''b'' ''h'' None ?i after_invite = Inr ?s1" by code_simp
  have "\<forall>(t, a, op) \<in> set [(5 :: int, demo_owner, OpDelete ''b'')]. \<not> issues_id (inv_id ?i) op" by simp
  then show ?thesis using invitation_single_use [OF ok] ok by blast
qed

section \<open>What concurrency can break\<close>

text \<open>
  \<open>update_user_role\<close> reads the number of owners and saves the row in two statements with no
  transaction.  The two halves, as two requests may interleave them.
\<close>

definition role_check :: "jwt_payload \<Rightarrow> string \<Rightarrow> user_role \<Rightarrow> account_state \<Rightarrow> user accr" where
  "role_check a uid r s = guarded [Owner] a (case find_user (dir s) uid of
       None \<Rightarrow> Inl (NotFound UserNotFound)
     | Some u \<Rightarrow> rbind (if urole u = Owner \<and> r \<noteq> Owner then assertNotLastOwner s else Inr ()) (\<lambda>_. Inr u))"

definition role_save :: "user \<Rightarrow> user_role \<Rightarrow> account_state \<Rightarrow> account_state" where
  "role_save u r s = upd_user (user_id u) (\<lambda>x. x\<lparr>urole := r\<rparr>) s"

lemma update_user_role_split:
  "update_user_role a uid r s = rbind (role_check a uid r s) (\<lambda>u. Inr (role_save u r s))"
  by (auto simp: update_user_role_def role_check_def role_save_def guarded_def rbind_def split: option.splits sum.splits)

definition two_owners :: account_state where
  "two_owners = add_user (new_user ''p'' ''p@x.io'' ''pw'' None Owner) after_setup"

definition second_owner :: jwt_payload where
  "second_owner = \<lparr>sub = ''p'', jwt_email = ''p@x.io'', jwt_role = Owner, tokenId = None\<rparr>"



section \<open>Who can make an owner\<close>

definition owner_ids :: "account_state \<Rightarrow> string set" where
  "owner_ids s = set (map user_id (filter (\<lambda>u. urole u = Owner) (users (dir s))))"

definition owner_invites :: "account_state \<Rightarrow> string set" where
  "owner_invites s = set (map inv_id (filter (\<lambda>i. inv_role i = Owner) (invitations s)))"

lemma owner_ids_keep:
  assumes "\<And>u. user_id (f u) = user_id u" "\<And>u. urole (f u) = urole u"
  shows "owner_ids (upd_user uid f s) = owner_ids s"
  unfolding owner_ids_def upd_user_simps by (subst map_filter_keep) (simp_all add: assms)

lemma apply_patch_owners:
  assumes "apply_patch u p s = Inr s'"
  shows "owner_ids s' = owner_ids s" "owner_invites s' = owner_invites s"
  using assms by (auto simp: apply_patch_def updateProfile_def owner_ids_keep owner_invites_def split: if_splits)

text \<open>
  Whoever is not an owner cannot make one.  A signed-in request of an admin or member, with or
  without an API token, leaves the set of owners and the set of invitations for an owner as they were
  or smaller, whatever it asks for.
\<close>

theorem non_owner_cannot_make_owner:
  assumes "acct_apply cr now a op s = Inr s'" and "\<not> public_op op" and "jwt_role a \<noteq> Owner"
  shows "owner_ids s' \<subseteq> owner_ids s \<and> owner_invites s' \<subseteq> owner_invites s"
proof (cases op)
  case (OpInvite i tok mail r)
  then show ?thesis using assms
    by (auto simp: create_invitation_def guarded_def Let_def owner_ids_def owner_invites_def split: if_splits)
next
  case (OpRevoke iid)
  then show ?thesis using assms
    by (auto simp: revoke_invitation_def guarded_def owner_ids_def owner_invites_def split: if_splits)
next
  case (OpOwnProfile n mail c)
  then show ?thesis using assms apply_patch_owners
    by (auto simp: update_own_profile_def split: option.splits if_splits; blast)
next
  case (OpChangePassword c n)
  then show ?thesis using assms
    by (auto simp: change_password_def owner_ids_keep owner_invites_def split: option.splits if_splits)
qed (use assms in \<open>auto simp: update_user_role_def delete_user_def set_user_password_def disable_user_two_factor_def
    update_user_profile_def guarded_def roles_canActivate_def\<close>)

definition demo_admin :: jwt_payload where
  "demo_admin = \<lparr>sub = ''p'', jwt_email = ''p@x.io'', jwt_role = Admin, tokenId = None\<rparr>"

theorem non_owner_cannot_make_owner_witness:
  "\<exists>s'. acct_apply demo_crypto 0 demo_admin (OpInvite ''i'' ''t'' ''c@x.io'' Admin) after_setup = Inr s' \<and>
     owner_invites s' \<subseteq> owner_invites after_setup"
proof -
  let ?r = "acct_apply demo_crypto 0 demo_admin (OpInvite ''i'' ''t'' ''c@x.io'' Admin) after_setup"
  have "?r = Inr (case ?r of Inr x \<Rightarrow> x | Inl _ \<Rightarrow> fresh_state)" by code_simp
  moreover have "\<not> public_op (OpInvite ''i'' ''t'' ''c@x.io'' Admin)" by simp
  moreover have "jwt_role demo_admin \<noteq> Owner" by code_simp
  ultimately show ?thesis using non_owner_cannot_make_owner by blast
qed

section \<open>The second factor\<close>

text \<open>
  C24: with the second factor on, a password alone never gives a session.  Whatever the first step
  returns for such a user is a challenge that the session strategy refuses and that the second step
  turns into a session only for a valid one-time password or an unused backup code.
\<close>

theorem second_factor_required:
  assumes "findByEmailWithPassword s mail = Some u" and "totpEnabled u" and "acct_inv now s"
    and "sign_in verify s mail pw = Inr r"
  shows "\<exists>c. r = RequiresTwoFactor c \<and> jwt_validate s c = Inl (Unauthorized NotASession) \<and>
    (\<forall>sha decrypt chk code c' s'. sign_in_two_factor sha decrypt chk (Some c) code s = Inr (c', s') \<longrightarrow>
       c_sub c' = user_id u \<and> (user_verifyTotp decrypt chk u code \<or>
         (\<exists>hs. totpBackupHashes u = Some hs \<and> hashBackupCode sha code \<in> set hs)))"
proof -
  let ?c = "\<lparr>c_sub = user_id u, c_scope = Some ''2fa''\<rparr>"
  have r: "r = RequiresTwoFactor ?c" using assms(1,2,4) by (auto simp: sign_in_def split: if_splits)
  have mem: "u \<in> set (users (dir s))"
    using assms(1) by (auto simp: findByEmailWithPassword_def find_by_email_def dest: find_SomeD)
  have "find_user (dir s) (user_id u) = Some u"
  proof (cases "find_user (dir s) (user_id u)")
    case None
    then show ?thesis using mem by (auto simp: find_user_def find_None_iff)
  next
    case (Some v)
    then show ?thesis using unique_user [OF assms(3) Some mem] by simp
  qed
  then show ?thesis unfolding r
    by (intro exI [of _ ?c], cases "totpBackupHashes u")
      (auto simp: jwt_validate_def sign_in_two_factor_def verifyChallenge_def issue_def Let_def
        split: prod.splits option.splits if_splits)
qed

definition demo_2fa :: account_state where
  "demo_2fa = upd_user ''o'' (\<lambda>u. u\<lparr>totpEnabled := True, totpSecretEncrypted := Some ''s'',
     totpBackupHashes := Some [''abc'']\<rparr>) after_setup"

theorem second_factor_required_witness:
  "\<exists>c. sign_in (\<lambda>x y. x = y) demo_2fa ''O@X.io'' ''pw'' = Inr (RequiresTwoFactor c) \<and>
       jwt_validate demo_2fa c = Inl (Unauthorized NotASession)"
proof -
  let ?u = "hd (users (dir demo_2fa))"
  let ?c = "\<lparr>c_sub = ''o'', c_scope = Some ''2fa''\<rparr>"
  have "findByEmailWithPassword demo_2fa ''O@X.io'' = Some ?u" by code_simp
  moreover have "totpEnabled ?u" by code_simp
  moreover have "acct_inv 0 demo_2fa" by code_simp
  moreover have s: "sign_in (\<lambda>x y. x = y) demo_2fa ''O@X.io'' ''pw'' = Inr (RequiresTwoFactor ?c)" by code_simp
  ultimately show ?thesis using second_factor_required by blast
qed

text \<open>
  A backup code works once.  After a challenge was passed with a backup code, the same code (in any
  spelling with spaces, dashes or capitals) is refused for the stored user, unless it is also a valid
  one-time password.
\<close>

theorem backup_code_single_use:
  assumes "find_user (dir s) uid = Some u" and "verifyChallenge sha decrypt chk u code s = (True, s')"
    and "\<not> user_verifyTotp decrypt chk u code" and "hashBackupCode sha again = hashBackupCode sha code"
    and "\<not> user_verifyTotp decrypt chk u again"
  shows "\<exists>u'. find_user (dir s') uid = Some u' \<and> fst (verifyChallenge sha decrypt chk u' again s') = False"
proof -
  let ?h = "hashBackupCode sha code"
  obtain hs where s': "s' = upd_user uid (\<lambda>x. x\<lparr>totpBackupHashes := Some (filter (\<lambda>y. y \<noteq> ?h) hs)\<rparr>) s"
    using assms(1-3) find_user_SomeD [OF assms(1)] by (auto simp: verifyChallenge_def Let_def split: if_splits)
  let ?u' = "u\<lparr>totpBackupHashes := Some (filter (\<lambda>y. y \<noteq> ?h) hs)\<rparr>"
  have "find (\<lambda>x. user_id x = uid) (map (\<lambda>u. if user_id u = uid then f u else u) us) = map_option f (find (\<lambda>x. user_id x = uid) us)"
    if "\<And>x. user_id (f x) = user_id x" for f and us :: "user list"
    using that by (induction us) auto
  then have "find_user (dir s') uid = Some ?u'" using assms(1) by (simp add: find_user_def s')
  moreover have "fst (verifyChallenge sha decrypt chk ?u' again s') = False"
    using assms(4,5) by (auto simp: verifyChallenge_def user_verifyTotp_def Let_def split: option.splits)
  ultimately show ?thesis by blast
qed

theorem backup_code_single_use_witness:
  "\<exists>u'. find_user (dir (snd (verifyChallenge (\<lambda>x. x) (\<lambda>x. x) (\<lambda>x y. False) (hd (users (dir demo_2fa))) ''A-bc'' demo_2fa))) ''o''
     = Some u'"
proof -
  let ?u = "hd (users (dir demo_2fa))"
  let ?r = "verifyChallenge (\<lambda>x. x) (\<lambda>x. x) (\<lambda>x y. False) ?u ''A-bc'' demo_2fa"
  have "find_user (dir demo_2fa) ''o'' = Some ?u" by code_simp
  moreover have "?r = (True, snd ?r)" by code_simp
  moreover have "\<not> user_verifyTotp (\<lambda>x. x) (\<lambda>x y. False) ?u ''A-bc''" by code_simp
  moreover have "hashBackupCode (\<lambda>x. x) ''a b c'' = hashBackupCode (\<lambda>x. x) ''A-bc''" by code_simp
  moreover have "\<not> user_verifyTotp (\<lambda>x. x) (\<lambda>x y. False) ?u ''a b c''" by code_simp
  ultimately show ?thesis using backup_code_single_use by blast
qed

end
