(* ===== verification/Totp.thy ===== *)
theory Totp
  imports Prelude "HOL-Library.Word"
begin

text \<open>
  One-time passwords (\<open>src/src/modules/auth/two-factor/totp.ts\<close>): base32 over JavaScript's 32-bit
  integers, HOTP and the check with its drift window.  HMAC-SHA1 is an argument.  A shift by less than
  32 and the bitwise operators of JavaScript work on 32-bit integers, so the accumulator is a 32-bit
  word whose high bits are lost on the left shift exactly as in the code.
\<close>

unbundle bit_operations_syntax

section \<open>Base32\<close>

definition BASE32 :: string where
  "BASE32 = ''ABCDEFGHIJKLMNOPQRSTUVWXYZ234567''"

definition digit :: "32 word \<Rightarrow> char" where
  "digit d = BASE32 ! unat (d AND 31)"

text \<open>The inner \<open>while (bits >= 5)\<close>.\<close>

function emit :: "nat \<Rightarrow> 32 word \<Rightarrow> string \<Rightarrow> nat \<times> string" where
  "emit bits value out = (if 5 \<le> bits
     then emit (bits - 5) value (out @ [digit (drop_bit (bits - 5) value)])
     else (bits, out))"
  by pat_completeness auto
termination by (relation "measure (\<lambda>(bits, _, _). bits)") auto

declare emit.simps [simp del]

fun encode_loop :: "8 word list \<Rightarrow> nat \<Rightarrow> 32 word \<Rightarrow> string \<Rightarrow> nat \<times> 32 word \<times> string" where
  "encode_loop [] bits value out = (bits, value, out)"
| "encode_loop (byte # buf) bits value out =
     (let value' = push_bit 8 value OR ucast byte;
          (bits', out') = emit (bits + 8) value' out
      in encode_loop buf bits' value' out')"

definition base32Encode :: "8 word list \<Rightarrow> string" where
  "base32Encode buf = (case encode_loop buf 0 0 [] of
     (bits, value, out) \<Rightarrow> if bits > 0 then out @ [digit (push_bit (5 - bits) value)] else out)"

text \<open>
  \<open>toUpperCase\<close> as far as the alphabet can see it: a sharp s becomes two letters; every other letter
  above ASCII stays outside the alphabet and is dropped by the filter either way.
\<close>

definition upper_chars :: "char \<Rightarrow> string" where
  "upper_chars c = (if c = CHR 0xDF then ''SS'' else if is_lower c then [char_of (of_char c - 32 :: nat)] else [c])"

fun decode_loop :: "string \<Rightarrow> nat \<Rightarrow> 32 word \<Rightarrow> 8 word list \<Rightarrow> 8 word list" where
  "decode_loop [] bits value bytes = bytes"
| "decode_loop (ch # clean) bits value bytes =
     (let value' = push_bit 5 value OR (case index_of ch BASE32 of Some i \<Rightarrow> word_of_nat i | None \<Rightarrow> - 1);
          bits' = bits + 5
      in if 8 \<le> bits'
         then decode_loop clean (bits' - 8) value' (bytes @ [ucast (drop_bit (bits' - 8) value' AND 255)])
         else decode_loop clean bits' value' bytes)"

definition base32Decode :: "string \<Rightarrow> 8 word list" where
  "base32Decode s = decode_loop (filter (\<lambda>c. c \<in> set BASE32) (concat (map upper_chars s))) 0 0 []"

section \<open>HOTP and TOTP\<close>

definition STEP_SECONDS :: int where "STEP_SECONDS = 30"

definition DIGITS :: nat where "DIGITS = 6"

fun decimal :: "nat \<Rightarrow> nat \<Rightarrow> string" where
  "decimal 0 n = []"
| "decimal (Suc k) n = decimal k (n div 10) @ [char_of (48 + n mod 10)]"

text \<open>
  \<open>code.toString().padStart(DIGITS, '0')\<close> of a number below \<open>10 ^ DIGITS\<close> is its last \<open>DIGITS\<close> decimal
  digits.  \<open>hmac key message\<close> is HMAC-SHA1, twenty bytes; \<open>counter_bytes\<close> is \<open>writeBigUInt64BE\<close>.
\<close>

definition counter_bytes :: "int \<Rightarrow> 8 word list" where
  "counter_bytes n = map (\<lambda>i. word_of_int (n div 256 ^ (7 - i))) [0..<8]"

definition readUInt32BE :: "8 word list \<Rightarrow> nat \<Rightarrow> nat" where
  "readUInt32BE m off = foldl (\<lambda>a i. a * 256 + unat (m ! (off + i))) 0 [0..<4]"

definition hotp :: "(8 word list \<Rightarrow> 8 word list \<Rightarrow> 8 word list) \<Rightarrow> string \<Rightarrow> int \<Rightarrow> string" where
  "hotp hmac secret counter =
     (let mac = hmac (base32Decode secret) (counter_bytes counter);
          offset = unat (last mac AND 0x0f);
          code = (readUInt32BE mac offset mod 2 ^ 31) mod 10 ^ DIGITS
      in decimal DIGITS code)"

definition totp :: "(8 word list \<Rightarrow> 8 word list \<Rightarrow> 8 word list) \<Rightarrow> string \<Rightarrow> int \<Rightarrow> string" where
  "totp hmac secret at = hotp hmac secret (at div 1000 div STEP_SECONDS)"

definition verifyTotp ::
    "(8 word list \<Rightarrow> 8 word list \<Rightarrow> 8 word list) \<Rightarrow> string \<Rightarrow> string \<Rightarrow> int \<Rightarrow> int \<Rightarrow> bool" where
  "verifyTotp hmac secret token window at =
     (if \<not> (length token = 6 \<and> list_all is_digit token) then False
      else let step = at div 1000 div STEP_SECONDS
      in list_ex (\<lambda>i. token = hotp hmac secret (step + i)) (map (\<lambda>k. int k - window) [0..<nat (2 * window + 1)]))"


section \<open>Round trip\<close>

text \<open>The low \<open>n\<close> bits of a word, most significant first.\<close>

definition low :: "nat \<Rightarrow> 'a :: len word \<Rightarrow> bool list" where
  "low n v = map (bit v) (rev [0..<n])"

lemma length_low [simp]: "length (low n v) = n"
  by (simp add: low_def)

lemma low_nth: "i < n \<Longrightarrow> low n v ! i = bit v (n - 1 - i)"
  by (simp add: low_def rev_nth)

lemma low_push:
  fixes v w :: "32 word"
  assumes "n + k \<le> 32" and "\<And>i. k \<le> i \<Longrightarrow> \<not> bit w i"
  shows "low (n + k) (push_bit k v OR w) = low n v @ low k w"
proof (rule nth_equalityI)
  fix i assume i: "i < length (low (n + k) (push_bit k v OR w))"
  show "low (n + k) (push_bit k v OR w) ! i = (low n v @ low k w) ! i"
  proof (cases "i < n")
    case True
    then show ?thesis using assms i
      by (auto simp: low_nth nth_append bit_simps)
  next
    case False
    then show ?thesis using assms(1) i
      by (auto simp: low_nth nth_append bit_simps add.commute)
  qed
qed simp

lemma low_take:
  fixes v :: "'a :: len word"
  assumes "k \<le> n"
  shows "low n v = low k (drop_bit (n - k) v) @ low (n - k) v"
proof (rule nth_equalityI)
  fix i assume i: "i < length (low n v)"
  then show "low n v ! i = (low k (drop_bit (n - k) v) @ low (n - k) v) ! i"
    using assms by (cases "i < k") (auto simp: low_nth nth_append bit_simps add.commute)
qed (use assms in simp)

lemma low_mask: "n \<le> LENGTH('a) \<Longrightarrow> low n (v AND (mask n :: 'a :: len word)) = low n v"
  by (rule nth_equalityI) (auto simp: low_nth bit_simps)


text \<open>What a digit of the alphabet stands for, and the bits of a digit string.\<close>

definition digit_value :: "char \<Rightarrow> 32 word" where
  "digit_value c = (case index_of c BASE32 of Some i \<Rightarrow> word_of_nat i | None \<Rightarrow> - 1)"

definition digit_bits :: "string \<Rightarrow> bool list" where
  "digit_bits cs = concat (map (\<lambda>c. low 5 (digit_value c)) cs)"

lemma digit_bits_simps [simp]:
  "digit_bits [] = []" "digit_bits (c # cs) = low 5 (digit_value c) @ digit_bits cs"
  "digit_bits (cs @ ds) = digit_bits cs @ digit_bits ds"
  by (simp_all add: digit_bits_def)

lemma length_BASE32: "length BASE32 = 32"
  by code_simp

lemma index_BASE32: "i < 32 \<Longrightarrow> index_of (BASE32 ! i) BASE32 = Some i"
proof -
  have "list_all (\<lambda>i. index_of (BASE32 ! i) BASE32 = Some i) [0..<32]" by code_simp
  then show "i < 32 \<Longrightarrow> ?thesis" by (simp add: list_all_iff)
qed

lemma unat_and_31: "unat ((d :: 32 word) AND 31) < 32"
proof -
  have "d AND 31 = take_bit 5 d" by (simp add: take_bit_eq_mask mask_eq_exp_minus_1)
  then show ?thesis using take_bit_nat_less_exp [of 5 "unat d"] by (simp add: unsigned_take_bit_eq)
qed

lemma digit_value_digit: "digit_value (digit d) = d AND 31"
  using index_BASE32 [OF unat_and_31 [of d]] by (simp add: digit_value_def digit_def)

lemma digit_bits_digit: "low 5 (digit_value (digit d)) = low 5 d"
proof -
  have "(31 :: 32 word) = mask 5" by (simp add: mask_eq_exp_minus_1)
  then show ?thesis by (simp only: digit_value_digit) (rule low_mask, simp)
qed

lemma digit_in: "digit d \<in> set BASE32"
  unfolding digit_def using unat_and_31 [of d] length_BASE32 by (intro nth_mem) simp

lemma emit_bits:
  assumes "emit bits v out = (b, out')"
  shows "b < 5 \<and> digit_bits out' @ low b v = digit_bits out @ low bits v \<and> (set out \<subseteq> set BASE32 \<longrightarrow> set out' \<subseteq> set BASE32)"
  using assms
proof (induction bits v out rule: emit.induct)
  case (1 bits v out)
  show ?case
  proof (cases "5 \<le> bits")
    case True
    then have "emit (bits - 5) v (out @ [digit (drop_bit (bits - 5) v)]) = (b, out')"
      using "1.prems" emit.simps by metis
    from "1.IH" [OF True this] show ?thesis
      using low_take [OF True, of v] digit_in by (simp add: digit_bits_digit)
  next
    case False
    then show ?thesis using "1.prems" by (simp add: emit.simps)
  qed
qed

lemma byte_high: "8 \<le> i \<Longrightarrow> \<not> bit (ucast (b :: 8 word) :: 32 word) i"
  by (auto simp: bit_simps dest: bit_imp_le_length)

lemma low_ucast: "low 8 (ucast (b :: 8 word) :: 32 word) = low 8 b"
  by (rule nth_equalityI) (auto simp: low_nth bit_simps)

lemma encode_loop_bits:
  assumes "encode_loop buf bits v out = (b, v', out')" and "bits < 5" and "set out \<subseteq> set BASE32"
  shows "b < 5 \<and> digit_bits out' @ low b v' = digit_bits out @ low bits v @ concat (map (low 8) buf) \<and> set out' \<subseteq> set BASE32"
  using assms
proof (induction buf arbitrary: bits v out)
  case (Cons byte buf)
  let ?v = "push_bit 8 v OR ucast byte :: 32 word"
  obtain b1 o1 where e: "emit (bits + 8) ?v out = (b1, o1)" by fastforce
  have "low (bits + 8) ?v = low bits v @ low 8 byte"
    using low_push [of bits 8 "ucast byte" v] byte_high Cons.prems(2) by (simp add: low_ucast)
  moreover note em = emit_bits [OF e]
  moreover have "encode_loop buf b1 ?v o1 = (b, v', out')" using Cons.prems(1) e by (simp add: Let_def)
  ultimately show ?case using Cons.IH [of b1 ?v o1] Cons.prems(3) by simp
qed simp

lemma encode_bits:
  "\<exists>p < 5. digit_bits (base32Encode buf) = concat (map (low 8) buf) @ replicate p False"
  "set (base32Encode buf) \<subseteq> set BASE32"
proof -
  obtain b v out where e: "encode_loop buf 0 0 [] = (b, v, out)" by (metis prod_cases3)
  from encode_loop_bits [OF e] have b: "b < 5" and d: "digit_bits out @ low b v = concat (map (low 8) buf)"
    and i: "set out \<subseteq> set BASE32" by (auto simp: low_def)
  have z: "low k (0 :: 32 word) = replicate k False" for k by (rule nth_equalityI) (auto simp: low_nth)
  have pad: "low 5 (push_bit (5 - b) v) = low b v @ replicate (5 - b) False"
    using low_push [of b "5 - b" 0 v] b by (simp add: z)
  have "digit_bits (base32Encode buf) = concat (map (low 8) buf) @ replicate (if b = 0 then 0 else 5 - b) False"
  proof (cases "b = 0")
    case True
    then show ?thesis using d by (simp add: base32Encode_def e) (simp add: low_def)
  next
    case False
    then show ?thesis using pad by (simp add: base32Encode_def e digit_bits_digit flip: d)
  qed
  then show "\<exists>p < 5. digit_bits (base32Encode buf) = concat (map (low 8) buf) @ replicate p False"
    by (intro exI [of _ "if b = 0 then 0 else 5 - b"]) simp
  show "set (base32Encode buf) \<subseteq> set BASE32" using i digit_in by (auto simp: base32Encode_def e)
qed

lemma value_high:
  assumes "c \<in> set BASE32" and "5 \<le> i" shows "\<not> bit (digit_value c) i"
proof -
  obtain k where k: "k < 32" "c = BASE32 ! k" using assms(1) length_BASE32 by (metis in_set_conv_nth)
  then have "digit_value c = word_of_nat k" by (simp add: digit_value_def index_BASE32)
  moreover have "k < 2 ^ i" using k(1) power_increasing [of 5 i "2 :: nat"] assms(2) by simp
  then have "\<not> bit k i" by (simp add: bit_iff_odd)
  ultimately show ?thesis by (simp add: bit_simps)
qed

lemma decode_loop_bits:
  assumes "set cs \<subseteq> set BASE32" and "bits < 8"
  shows "\<exists>r. length r < 8 \<and> concat (map (low 8) (decode_loop cs bits v bytes)) @ r
     = concat (map (low 8) bytes) @ low bits v @ digit_bits cs"
  using assms
proof (induction cs arbitrary: bits v bytes)
  case (Cons c cs)
  define V where "V = push_bit 5 v OR digit_value c"
  define B :: "8 word" where "B = ucast (drop_bit (bits + 5 - 8) V AND 255)"
  have step: "decode_loop (c # cs) bits v bytes = (if 8 \<le> bits + 5 then decode_loop cs (bits + 5 - 8) V (bytes @ [B])
      else decode_loop cs (bits + 5) V bytes)"
    unfolding decode_loop.simps Let_def V_def B_def digit_value_def ..
  have l: "low (bits + 5) V = low bits v @ low 5 (digit_value c)"
    using low_push [of bits 5 "digit_value c" v] value_high [of c] Cons.prems by (simp add: V_def)
  show ?case
  proof (cases "8 \<le> bits + 5")
    case True
    have "low 8 B = low 8 (drop_bit (bits + 5 - 8) V)"
    proof -
      have "low 8 (ucast w :: 8 word) = low 8 w" for w :: "32 word" by (intro nth_equalityI) (auto simp: low_nth bit_simps)
      moreover have "low 8 (w AND mask 8) = low 8 w" for w :: "32 word" by (rule low_mask) simp
      moreover have "(255 :: 32 word) = mask 8" by (simp add: mask_eq_exp_minus_1)
      ultimately show ?thesis by (simp only: B_def)
    qed
    then have lb: "low bits v @ low 5 (digit_value c) = low 8 B @ low (bits + 5 - 8) V"
      using low_take [OF True, of V] l by simp
    have "\<exists>r. length r < 8 \<and> concat (map (low 8) (decode_loop cs (bits + 5 - 8) V (bytes @ [B]))) @ r
        = concat (map (low 8) (bytes @ [B])) @ low (bits + 5 - 8) V @ digit_bits cs"
      by (rule Cons.IH) (use Cons.prems True in auto)
    moreover have eq: "concat (map (low 8) (bytes @ [B])) @ low (bits + 5 - 8) V @ digit_bits cs
        = concat (map (low 8) bytes) @ low bits v @ digit_bits (c # cs)"
      using arg_cong [OF lb, of "\<lambda>x. x @ digit_bits cs"] by (simp del: append_same_eq)
    ultimately show ?thesis unfolding step if_P [OF True] eq by blast
  next
    case False
    have "\<exists>r. length r < 8 \<and> concat (map (low 8) (decode_loop cs (bits + 5) V bytes)) @ r
        = concat (map (low 8) bytes) @ low (bits + 5) V @ digit_bits cs"
      by (rule Cons.IH) (use Cons.prems False in auto)
    then show ?thesis unfolding step using False l by simp
  qed
qed (auto intro: exI [of _ "low bits v"])


lemma low8_inj: "low 8 (a :: 8 word) = low 8 b \<Longrightarrow> a = b"
proof (rule bit_word_eqI)
  fix n assume eq: "low 8 a = low 8 b" and n: "n < LENGTH(8)"
  then have "low 8 a ! (7 - n) = low 8 b ! (7 - n)" by simp
  then show "bit a n = bit b n" using n by (simp add: low_nth)
qed

lemma bytes_unique:
  fixes xs ys :: "8 word list"
  assumes "concat (map (low 8) xs) @ r = concat (map (low 8) ys) @ replicate p False" and "length r < 8" and "p < 5"
  shows "xs = ys"
proof -
  have len: "length (concat (map (low 8) zs)) = 8 * length zs" for zs :: "8 word list" by (induction zs) auto
  from arg_cong [OF assms(1), of length] have l: "length xs = length ys" using assms(2,3) by (simp add: len)
  then have "concat (map (low 8) xs) = concat (map (low 8) ys)" using assms(1) len by (simp add: append_eq_append_conv)
  then show ?thesis using l
  proof (induction xs ys rule: list_induct2')
    case (4 x xs y ys)
    then show ?case using low8_inj by (simp add: append_eq_append_conv)
  qed simp_all
qed

lemma upper_BASE32: "c \<in> set BASE32 \<Longrightarrow> upper_chars c = [c]"
proof -
  have "list_all (\<lambda>c. upper_chars c = [c]) BASE32" by code_simp
  then show "c \<in> set BASE32 \<Longrightarrow> ?thesis" by (simp add: list_all_iff)
qed

lemma clean_id: "set cs \<subseteq> set BASE32 \<Longrightarrow> filter (\<lambda>c. c \<in> set BASE32) (concat (map upper_chars cs)) = cs"
  by (induction cs) (auto simp: upper_BASE32)

text \<open>
  Decoding an encoded secret gives back its bytes, for every byte string: neither the 32-bit
  accumulator that overflows on long inputs nor the padding of the last digit loses anything.
\<close>

theorem base32_roundtrip: "base32Decode (base32Encode buf) = buf"
proof -
  obtain p where p: "p < 5" "digit_bits (base32Encode buf) = concat (map (low 8) buf) @ replicate p False"
    using encode_bits(1) by blast
  obtain r where "length r < 8" "concat (map (low 8) (decode_loop (base32Encode buf) 0 0 [])) @ r = digit_bits (base32Encode buf)"
    using decode_loop_bits [OF encode_bits(2), of 0 buf 0 "[]"] by (auto simp: low_def)
  then show ?thesis using p bytes_unique by (simp add: base32Decode_def clean_id [OF encode_bits(2)])
qed


section \<open>The drift window\<close>

lemma decimal_digits: "length (decimal k n) = k \<and> list_all is_digit (decimal k n)"
proof (induction k arbitrary: n)
  case (Suc k)
  have "list_all (\<lambda>m. is_digit (char_of (48 + m :: nat))) [0..<10]" by code_simp
  then have "is_digit (char_of (48 + n mod 10))" by (simp add: list_all_iff)
  then show ?case using Suc by simp
qed simp

text \<open>
  The code an authenticator shows at time \<open>t\<close> is accepted at time \<open>at\<close> whenever the two lie at most
  \<open>window\<close> thirty-second steps apart, in either direction; with the default window that is any drift of
  up to thirty seconds.
\<close>

theorem totp_accepted_within_window:
  assumes "\<bar>at div 1000 div STEP_SECONDS - t div 1000 div STEP_SECONDS\<bar> \<le> window"
  shows "verifyTotp hmac secret (totp hmac secret t) window at"
proof -
  let ?i = "t div 1000 div STEP_SECONDS - at div 1000 div STEP_SECONDS"
  have "?i \<in> set (map (\<lambda>k. int k - window) [0..<nat (2 * window + 1)])"
    using assms by (auto simp: image_iff intro!: bexI [of _ "nat (?i + window)"])
  moreover have "length (totp hmac secret t) = 6 \<and> list_all is_digit (totp hmac secret t)"
    using decimal_digits by (simp add: totp_def hotp_def DIGITS_def Let_def)
  moreover have "totp hmac secret t = hotp hmac secret (at div 1000 div STEP_SECONDS + ?i)" by (simp add: totp_def)
  ultimately have "list_ex (\<lambda>i. totp hmac secret t = hotp hmac secret (at div 1000 div STEP_SECONDS + i))
      (map (\<lambda>k. int k - window) [0..<nat (2 * window + 1)])" unfolding list_ex_iff by blast
  then show ?thesis using \<open>length _ = 6 \<and> _\<close> unfolding verifyTotp_def Let_def by simp
qed

theorem totp_accepted_within_window_witness:
  "verifyTotp (\<lambda>k m. replicate 20 7) ''GEZDGNBV'' (totp (\<lambda>k m. replicate 20 7) ''GEZDGNBV'' 1000000) 1 1029000"
  by (rule totp_accepted_within_window) (simp add: STEP_SECONDS_def)

end
