(* ===== verification/Set_Names.thy ===== *)
theory Set_Names
  imports Prelude
begin

text \<open>
  Naming helpers of variable sets (\<open>src/src/modules/variable-set/variable-set-names.ts\<close>) and the slug
  pattern of \<open>variable-set.entity.ts\<close>, with the proofs that the two searches for a free name end and
  that derived slugs satisfy the pattern.
\<close>

section \<open>Numbers as text\<close>

text \<open>\<open>`${i}`\<close> of a non-negative integer.\<close>

fun nat_str :: "nat \<Rightarrow> string" where
  "nat_str n = (if n < 10 then [char_of (48 + n)] else nat_str (n div 10) @ [char_of (48 + n mod 10)])"

declare nat_str.simps [simp del]

section \<open>Slugs\<close>

definition SET_NAME_MAX :: nat where "SET_NAME_MAX = 100"

definition SET_SLUG_MAX :: nat where "SET_SLUG_MAX = 64"

definition slug_char :: "char \<Rightarrow> bool" where
  "slug_char c \<longleftrightarrow> is_lower c \<or> is_digit c"

text \<open>
  \<open>normalize('NFKD')\<close> followed by dropping the combining marks, on one lower-case code unit of the
  modelled range: accented letters lose their accent, the ordinal signs and superscript digits become
  plain, vulgar fractions become two digits around a slash.  Whatever else is not a letter or digit
  stays that way, which is all the next replacement asks; a space stands for it.
\<close>

definition nfkd :: "char \<Rightarrow> string" where
  "nfkd c = (let n = (of_char c :: nat) in
     if n < 128 then [c]
     else if n \<in> {0xE0, 0xE1, 0xE2, 0xE3, 0xE4, 0xE5, 0xAA} then ''a''
     else if n = 0xE7 then ''c''
     else if n \<in> {0xE8, 0xE9, 0xEA, 0xEB} then ''e''
     else if n \<in> {0xEC, 0xED, 0xEE, 0xEF} then ''i''
     else if n = 0xF1 then ''n''
     else if n \<in> {0xF2, 0xF3, 0xF4, 0xF5, 0xF6, 0xBA} then ''o''
     else if n \<in> {0xF9, 0xFA, 0xFB, 0xFC} then ''u''
     else if n \<in> {0xFD, 0xFF} then ''y''
     else if n = 0xB9 then ''1'' else if n = 0xB2 then ''2'' else if n = 0xB3 then ''3''
     else if n = 0xBC then ''1 4'' else if n = 0xBD then ''1 2'' else if n = 0xBE then ''3 4''
     else '' '')"

text \<open>\<open>replace(/[^a-z0-9]+/g, '-')\<close>; the flag says whether the run before was already replaced.\<close>

fun dash_runs :: "bool \<Rightarrow> string \<Rightarrow> string" where
  "dash_runs in_run [] = []"
| "dash_runs in_run (c # cs) =
     (if slug_char c then c # dash_runs False cs
      else if in_run then dash_runs True cs
      else CHR ''-'' # dash_runs True cs)"

definition strip_end_dashes :: "string \<Rightarrow> string" where
  "strip_end_dashes s = rev (dropWhile (\<lambda>c. c = CHR ''-'') (rev s))"

definition strip_dashes :: "string \<Rightarrow> string" where
  "strip_dashes s = strip_end_dashes (dropWhile (\<lambda>c. c = CHR ''-'') s)"

definition slugifySetName :: "string \<Rightarrow> string" where
  "slugifySetName name =
     (let slug = strip_end_dashes (take SET_SLUG_MAX
            (strip_dashes (dash_runs False (concat (map nfkd (toLowerCase name))))))
      in if slug \<noteq> [] then slug else ''set'')"

text \<open>\<open>VARIABLE_SET_SLUG\<close>.\<close>

definition VARIABLE_SET_SLUG :: "string \<Rightarrow> bool" where
  "VARIABLE_SET_SLUG s \<longleftrightarrow> s \<noteq> [] \<and> length s \<le> 64 \<and> slug_char (hd s) \<and> slug_char (last s) \<and>
     list_all (\<lambda>c. slug_char c \<or> c = CHR ''-'') s"

section \<open>Free names\<close>

text \<open>\<open>s.slice(0, max - k)\<close>: a negative end counts from the end of the string.\<close>

definition slice_to :: "string \<Rightarrow> nat \<Rightarrow> nat \<Rightarrow> string" where
  "slice_to s m k = (if k \<le> m then take (m - k) s else take (length s - (k - m)) s)"

definition name_candidate :: "string \<Rightarrow> nat \<Rightarrow> string" where
  "name_candidate base i = (let suffix = '' ('' @ nat_str i @ '')''
     in slice_to base SET_NAME_MAX (length suffix) @ suffix)"

definition uniqueSetName :: "string \<Rightarrow> string list \<Rightarrow> string option" where
  "uniqueSetName name taken =
     (let used = map toLowerCase taken;
          base = (if take SET_NAME_MAX (trim name) \<noteq> [] then take SET_NAME_MAX (trim name) else ''Variables'')
      in if toLowerCase base \<notin> set used then Some base
         else first_free (Suc (length used)) (name_candidate base) (\<lambda>c. toLowerCase c \<in> set used) 2)"

definition slug_candidate :: "string \<Rightarrow> nat \<Rightarrow> string" where
  "slug_candidate slug i = (let suffix = ''-'' @ nat_str i
     in strip_end_dashes (slice_to slug SET_SLUG_MAX (length suffix)) @ suffix)"

definition uniqueSetSlug :: "string \<Rightarrow> string list \<Rightarrow> string option" where
  "uniqueSetSlug slug taken =
     (if slug \<notin> set taken then Some slug
      else first_free (Suc (length taken)) (slug_candidate slug) (\<lambda>c. c \<in> set taken) 2)"

section \<open>Numbers are read back\<close>

definition str_val :: "string \<Rightarrow> nat" where
  "str_val s = foldl (\<lambda>a c. a * 10 + (of_char c - 48)) 0 s"

lemma digit_char: "(n :: nat) < 10 \<Longrightarrow> of_char (char_of (48 + n) :: char) = 48 + n" "n < 10 \<Longrightarrow> is_digit (char_of (48 + n))"
proof -
  have a: "list_all (\<lambda>n. of_char (char_of (48 + n) :: char) = (48 + n :: nat) \<and> is_digit (char_of (48 + n :: nat))) [0..<10]"
    by code_simp
  then show "n < 10 \<Longrightarrow> of_char (char_of (48 + n) :: char) = 48 + n" "n < 10 \<Longrightarrow> is_digit (char_of (48 + n))"
    by (simp_all add: list_all_iff)
qed

lemma str_val_nat_str: "str_val (nat_str n) = n"
proof (induction n rule: nat_str.induct)
  case (1 n)
  show ?case
  proof (cases "n < 10")
    case True
    then show ?thesis using digit_char(1) [of n] by (simp add: nat_str.simps [of n] str_val_def)
  next
    case False
    then show ?thesis using 1 digit_char(1) [of "n mod 10"] by (simp add: nat_str.simps [of n] str_val_def)
  qed
qed

lemma nat_str_digits: "list_all is_digit (nat_str n)"
proof (induction n rule: nat_str.induct)
  case (1 n)
  then show ?case using digit_char(2) [of n] digit_char(2) [of "n mod 10"]
    by (cases "n < 10") (simp_all add: nat_str.simps [of n])
qed

lemma nat_str_nonempty: "nat_str n \<noteq> []"
  by (simp add: nat_str.simps [of n])

text \<open>What follows the last separator determines the number.\<close>

lemma suffix_number_inj:
  assumes "p @ d # nat_str i @ e = q @ d # nat_str j @ e" and "\<not> is_digit d"
  shows "i = j"
proof -
  have tw: "takeWhile is_digit (rev (nat_str k) @ d # r) = rev (nat_str k)" for k r
  proof -
    have "takeWhile is_digit (rev (nat_str k) @ d # r) = rev (nat_str k) @ takeWhile is_digit (d # r)"
      by (rule takeWhile_append2) (use nat_str_digits [of k] in \<open>simp add: list_all_iff\<close>)
    then show ?thesis using assms(2) by simp
  qed
  have "rev (nat_str i) @ d # rev p = rev (nat_str j) @ d # rev q"
    using arg_cong [OF assms(1), of rev] by simp
  then have "rev (nat_str i) = rev (nat_str j)" by (metis tw)
  then show ?thesis using str_val_nat_str by (metis rev_rev_ident)
qed

lemma lower_digits: "list_all is_digit s \<Longrightarrow> toLowerCase s = s"
proof -
  have "is_digit c \<Longrightarrow> lower_char c = c" for c by (auto simp: lower_char_def is_upper_def is_digit_def)
  then show "list_all is_digit s \<Longrightarrow> toLowerCase s = s" by (induction s) (auto simp: toLowerCase_def)
qed

lemma toLowerCase_append [simp]: "toLowerCase (a @ b) = toLowerCase a @ toLowerCase b"
  by (simp add: toLowerCase_def)

lemma name_candidate_inj: "toLowerCase (name_candidate b i) = toLowerCase (name_candidate b j) \<Longrightarrow> i = j"
proof -
  assume a: "toLowerCase (name_candidate b i) = toLowerCase (name_candidate b j)"
  have l: "toLowerCase '' ('' = '' (''" "toLowerCase '')'' = '')''" by code_simp+
  have shape: "toLowerCase (name_candidate b k) = (toLowerCase (slice_to b SET_NAME_MAX (length (nat_str k) + 3)) @ '' '')
      @ CHR ''('' # nat_str k @ '')''" for k
    unfolding name_candidate_def Let_def toLowerCase_append l lower_digits [OF nat_str_digits] by (simp add: numeral_3_eq_3)
  show "i = j" by (rule suffix_number_inj [OF a [unfolded shape]]) code_simp
qed

interpretation set_names: fresh_namer "name_candidate base" toLowerCase
  by unfold_locales (rule name_candidate_inj)

lemma slug_candidate_inj: "slug_candidate s i = slug_candidate s j \<Longrightarrow> i = j"
proof -
  assume a: "slug_candidate s i = slug_candidate s j"
  have shape: "slug_candidate s k = strip_end_dashes (slice_to s SET_SLUG_MAX (Suc (length (nat_str k))))
      @ CHR ''-'' # nat_str k @ []" for k by (simp add: slug_candidate_def Let_def)
  show "i = j" by (rule suffix_number_inj [OF a [unfolded shape]]) code_simp
qed

interpretation set_slugs: fresh_namer "slug_candidate slug" "\<lambda>c. c"
  by unfold_locales (rule slug_candidate_inj)

section \<open>The searches end\<close>

text \<open>
  C27: the search for a set name ends, for any list of names in use, with a name that differs from all of
  them whatever the case; it keeps the (trimmed) requested name when that is free.
\<close>

theorem uniqueSetName_free:
  "\<exists>c. uniqueSetName name taken = Some c \<and> toLowerCase c \<notin> toLowerCase ` set taken \<and>
     (toLowerCase (trim name) \<notin> toLowerCase ` set taken \<and> trim name \<noteq> [] \<and> length (trim name) \<le> SET_NAME_MAX
        \<longrightarrow> c = trim name)"
proof -
  let ?base = "if take SET_NAME_MAX (trim name) \<noteq> [] then take SET_NAME_MAX (trim name) else ''Variables''"
  show ?thesis
  proof (cases "toLowerCase ?base \<in> set (map toLowerCase taken)")
    case False
    then have "uniqueSetName name taken = Some ?base" by (simp only: uniqueSetName_def Let_def if_True not_False_eq_True)
    then show ?thesis using False by (intro exI [of _ ?base]) (auto simp: SET_NAME_MAX_def)
  next
    case True
    obtain c where c: "first_free (Suc (length (map toLowerCase taken))) (name_candidate ?base)
        (\<lambda>c. toLowerCase c \<in> set (map toLowerCase taken)) 2 = Some c" "toLowerCase c \<notin> set (map toLowerCase taken)"
      using set_names.finds_free [of "map toLowerCase taken" "Suc (length (map toLowerCase taken))" ?base 2] by blast
    have "uniqueSetName name taken = Some c" using True c(1) by (simp only: uniqueSetName_def Let_def if_False not_True_eq_False)
    moreover have "\<not> (toLowerCase (trim name) \<notin> toLowerCase ` set taken \<and> trim name \<noteq> [] \<and> length (trim name) \<le> SET_NAME_MAX)"
      using True by (auto simp: SET_NAME_MAX_def split: if_splits)
    ultimately show ?thesis using c(2) by (intro exI [of _ c]) auto
  qed
qed

theorem uniqueSetName_free_witness:
  "\<exists>c. uniqueSetName '' Shop '' [''blog''] = Some c \<and> c = ''Shop''"
proof -
  have t: "trim '' Shop '' = ''Shop''" "toLowerCase ''Shop'' \<notin> toLowerCase ` set [''blog'']"
    "length ''Shop'' \<le> SET_NAME_MAX" by code_simp+
  show ?thesis using uniqueSetName_free [of "'' Shop ''" "[''blog'']"] t by auto
qed


lemma uniqueSetName_same: "uniqueSetName n taken = Some n \<Longrightarrow> toLowerCase n \<notin> toLowerCase ` set taken"
  by (auto simp: uniqueSetName_def Let_def split: if_splits dest!: first_free_SomeD)

lemma uniqueSetSlug_fresh: "the (uniqueSetSlug slug taken) \<notin> set taken"
  using set_slugs.finds_free [of taken "Suc (length taken)" slug 2] by (auto simp: uniqueSetSlug_def)

section \<open>Derived slugs are well formed\<close>

abbreviation slug_or_dash :: "char \<Rightarrow> bool" where
  "slug_or_dash c \<equiv> slug_char c \<or> c = CHR ''-''"

lemma dash_not_slug: "\<not> slug_char CHR ''-''"
  by code_simp

lemma dash_runs_chars: "c \<in> set (dash_runs b s) \<Longrightarrow> slug_or_dash c"
  by (induction b s rule: dash_runs.induct) (auto split: if_splits)

lemma strip_end_prefix: "\<exists>k. strip_end_dashes s = take k s"
proof -
  obtain k where "dropWhile (\<lambda>c. c = CHR ''-'') (rev s) = drop k (rev s)" using dropWhile_eq_drop by blast
  then have "strip_end_dashes s = take (length s - k) s" by (simp add: strip_end_dashes_def rev_drop)
  then show ?thesis by blast
qed

lemma strip_end_last: "strip_end_dashes s \<noteq> [] \<Longrightarrow> last (strip_end_dashes s) \<noteq> CHR ''-''"
  using hd_dropWhile [of "\<lambda>c. c = CHR ''-''" "rev s"] by (auto simp: strip_end_dashes_def last_rev)

lemma take_hd: "take k s \<noteq> [] \<Longrightarrow> hd (take k s) = hd s"
  by (cases s) (auto simp: take_Cons')

lemma strip_end_hd: "strip_end_dashes s \<noteq> [] \<Longrightarrow> hd (strip_end_dashes s) = hd s"
  using strip_end_prefix [of s] take_hd by metis

lemma set_strip_end: "set (strip_end_dashes s) \<subseteq> set s"
  using strip_end_prefix [of s] by (metis set_take_subset)

lemma length_strip_end: "length (strip_end_dashes s) \<le> length s"
  using strip_end_prefix [of s] by (metis length_take min.cobounded1)

lemma strip_end_nonempty: "s \<noteq> [] \<Longrightarrow> hd s \<noteq> CHR ''-'' \<Longrightarrow> strip_end_dashes s \<noteq> []"
  by (cases s) (auto simp: strip_end_dashes_def dropWhile_eq_Nil_conv)

lemma set_strip_dashes: "set (strip_dashes s) \<subseteq> set s"
  unfolding strip_dashes_def
  by (rule subset_trans [OF set_strip_end]) (auto dest: set_dropWhileD)

lemma strip_dashes_hd: "strip_dashes s \<noteq> [] \<Longrightarrow> hd (strip_dashes s) \<noteq> CHR ''-''"
proof -
  let ?d = "dropWhile (\<lambda>c. c = CHR ''-'') s"
  assume ne: "strip_dashes s \<noteq> []"
  then have "?d \<noteq> []" unfolding strip_dashes_def strip_end_dashes_def by (metis dropWhile.simps(1) rev.simps(1))
  then have "hd ?d \<noteq> CHR ''-''" by (rule hd_dropWhile)
  then show ?thesis using strip_end_hd ne by (simp add: strip_dashes_def)
qed

lemma slugify_valid: "VARIABLE_SET_SLUG (slugifySetName name)"
proof -
  define d where "d = strip_dashes (dash_runs False (concat (map nfkd (toLowerCase name))))"
  define t where "t = strip_end_dashes (take SET_SLUG_MAX d)"
  have ch: "slug_or_dash c" if "c \<in> set d" for c
    using that dash_runs_chars set_strip_dashes unfolding d_def by blast
  have hd: "hd d \<noteq> CHR ''-''" if "d \<noteq> []" using that strip_dashes_hd unfolding d_def by blast
  show ?thesis
  proof (cases "t = []")
    case True
    have "VARIABLE_SET_SLUG ''set''" by code_simp
    then show ?thesis using True by (simp add: slugifySetName_def Let_def t_def d_def)
  next
    case False
    have tc: "slug_or_dash c" if "c \<in> set t" for c
      using that ch set_strip_end set_take_subset unfolding t_def by fast
    have "d \<noteq> []" using False by (auto simp: t_def strip_end_dashes_def)
    moreover have "take SET_SLUG_MAX d \<noteq> []" using calculation by (simp add: SET_SLUG_MAX_def)
    ultimately have "hd t \<noteq> CHR ''-''" "last t \<noteq> CHR ''-''"
      using hd strip_end_hd [of "take SET_SLUG_MAX d"] strip_end_last [of "take SET_SLUG_MAX d"] False take_hd [of SET_SLUG_MAX d]
      by (simp_all add: t_def)
    then have "slug_char (hd t)" "slug_char (last t)" using tc False hd_in_set last_in_set by blast+
    moreover have "length t \<le> 64" using length_strip_end [of "take SET_SLUG_MAX d"] by (simp add: t_def SET_SLUG_MAX_def)
    ultimately have "VARIABLE_SET_SLUG t" using False tc by (simp add: VARIABLE_SET_SLUG_def list_all_iff)
    then show ?thesis using False by (simp add: slugifySetName_def Let_def t_def d_def)
  qed
qed

lemma length_nat_str: "n < 10 ^ Suc k \<Longrightarrow> length (nat_str n) \<le> Suc k"
proof (induction k arbitrary: n)
  case (Suc k)
  show ?case
  proof (cases "n < 10")
    case False
    have "n div 10 < 10 ^ Suc k" using Suc.prems by (simp add: less_mult_imp_div_less)
    then show ?thesis using Suc.IH False by (simp add: nat_str.simps [of n])
  qed (simp add: nat_str.simps [of n])
qed (simp add: nat_str.simps)

lemma slug_candidate_valid:
  assumes "VARIABLE_SET_SLUG s" and "i < 10 ^ Suc 60"
  shows "VARIABLE_SET_SLUG (slug_candidate s i)"
proof -
  let ?k = "Suc (length (nat_str i))"
  have k: "?k \<le> 62" using length_nat_str [OF assms(2)] by simp
  define p where "p = strip_end_dashes (take (SET_SLUG_MAX - ?k) s)"
  have c: "slug_candidate s i = p @ CHR ''-'' # nat_str i"
    using k by (simp add: slug_candidate_def Let_def p_def slice_to_def SET_SLUG_MAX_def)
  have s: "s \<noteq> []" "slug_char (hd s)" "list_all slug_or_dash s" using assms(1) by (auto simp: VARIABLE_SET_SLUG_def)
  have "take (SET_SLUG_MAX - ?k) s \<noteq> []" using k s(1) by (simp add: SET_SLUG_MAX_def)
  moreover have "hd (take (SET_SLUG_MAX - ?k) s) = hd s" using calculation take_hd by blast
  ultimately have p: "p \<noteq> []" "hd p = hd s"
    using strip_end_nonempty strip_end_hd s(2) dash_not_slug unfolding p_def by metis+
  have "length p \<le> 64 - ?k" using length_strip_end [of "take (SET_SLUG_MAX - ?k) s"] by (simp add: p_def SET_SLUG_MAX_def)
  then have len: "length (p @ CHR ''-'' # nat_str i) \<le> 64" using k by simp
  have "set p \<subseteq> set s" using set_strip_end set_take_subset unfolding p_def by fast
  then have pc: "list_all slug_or_dash p" using s(3) by (auto simp: list_all_iff)
  have dc: "list_all slug_char (nat_str i)" using nat_str_digits [of i] by (simp add: list_all_iff slug_char_def)
  then have "slug_char (last (nat_str i))" using nat_str_nonempty last_in_set by (fastforce simp: list_all_iff)
  then show ?thesis
    unfolding c VARIABLE_SET_SLUG_def using p s(2) len pc dc nat_str_nonempty [of i] by (auto simp: list_all_iff)
qed

text \<open>
  C28: the slug derived for a new set always exists, is not in use, and matches the pattern that slugs
  given by hand must match (1 to 64 characters, letters, digits and inner dashes), for any name.
\<close>

theorem derived_slug_valid:
  assumes "length taken < 10 ^ 60"
  shows "\<exists>c. uniqueSetSlug (slugifySetName name) taken = Some c \<and> c \<notin> set taken \<and> VARIABLE_SET_SLUG c"
proof (cases "slugifySetName name \<in> set taken")
  case False
  then show ?thesis using slugify_valid by (simp add: uniqueSetSlug_def)
next
  case True
  obtain c where c: "first_free (Suc (length taken)) (slug_candidate (slugifySetName name)) (\<lambda>c. c \<in> set taken) 2 = Some c"
    "c \<notin> set taken" using set_slugs.finds_free [of taken "Suc (length taken)" "slugifySetName name" 2] by blast
  obtain j where j: "j < 2 + Suc (length taken)" "c = slug_candidate (slugifySetName name) j"
    using first_free_index [OF c(1)] by blast
  have "(10 :: nat) ^ 60 + 3 \<le> 10 ^ Suc 60" by simp
  then have "j < 10 ^ Suc 60" using j(1) assms by linarith
  then have "VARIABLE_SET_SLUG c" using slug_candidate_valid [OF slugify_valid] j(2) by blast
  then show ?thesis using c True by (auto simp: uniqueSetSlug_def)
qed

theorem derived_slug_valid_witness:
  "\<exists>c. uniqueSetSlug (slugifySetName ''My Shop'') [''my-shop''] = Some c \<and> VARIABLE_SET_SLUG c"
proof -
  have "length [''my-shop''] < 10 ^ 60" by simp
  from derived_slug_valid [OF this, of "''My Shop''"] show ?thesis by blast
qed

end
