(* ===== verification/Variable_Sets.thy ===== *)
theory Variable_Sets
  imports Env_Text Access_Control Set_Names
    "HOL-Library.Product_Lexorder" "HOL-Library.List_Lexorder" "HOL-Library.Char_ord"
begin

text \<open>
  Variable sets: who may use values (\<open>variable-set-access.service.ts\<close>), environments with reveal, edit,
  history, restore, diff and promote (\<open>variable-set-environment.service.ts\<close>), sets and sharing
  (\<open>variable-set.service.ts\<close>), and the ordered links of applications and stacks
  (\<open>variable-set-link.service.ts\<close>).  Encryption is a pair of arguments: \<open>enc\<close> takes the nonce it draws,
  \<open>dec\<close> opens what \<open>enc\<close> sealed.  Tables are lists of rows in insertion order; \<open>now\<close> is the clock in
  milliseconds; \<open>save\<close> stamps \<open>updatedAt\<close> only when some column changed, as the ORM does.
\<close>

section \<open>Tables\<close>

record variable_set =
  vs_id :: string
  vs_name :: string
  vs_slug :: string
  description :: "string option"
  sharedWithAll :: bool

record set_environment =
  env_id :: string
  variableSetId :: string
  env_name :: string
  protected :: bool
  variablesEncrypted :: "string option"
  keys :: "string list"
  secretFlags :: "bool obj"
  env_notes :: "string obj"
  updatedAt :: int

datatype version_via = ViaSession | ViaToken | ViaSystem

datatype version_action = Edit | Set | Unset | Push | Restore | Promote | Baseline

datatype version_detail = BeforeFirstChange | RestoredFrom int | FromEnvironment string

record env_version =
  ver_id :: string
  environmentId :: string
  ver_text :: "string option"
  ver_flags :: "bool obj"
  ver_notes :: "string obj"
  authorId :: "string option"
  authorEmail :: "string option"
  via :: version_via
  action :: version_action
  detail :: "version_detail option"
  summary :: change_summary
  createdAt :: int

datatype owner_kind = Application | Compose

record set_link =
  link_env :: string
  owner_kind :: owner_kind
  owner_id :: string
  position :: nat

text \<open>The applications and stacks, as far as this module reads them.\<close>

record link_owner =
  own_kind :: owner_kind
  own_id :: string
  own_name :: string
  own_project :: string

record vs_state =
  people :: directory
  sets :: "variable_set list"
  shares :: "(string \<times> string) list"
  envs :: "set_environment list"
  versions :: "env_version list"
  links :: "set_link list"
  owners :: "link_owner list"

datatype vs_reason =
    SetNotFound
  | OnlyPlatformManages
  | OnlyPlatformCreates
  | ViewersNoValues
  | TokenLimitedTo "string list"
  | ProtectedEnvironment string
  | EnvironmentNotFound
  | EnvironmentNameNotFound string
  | VersionNotFound
  | BadText env_problem
  | BadFlags
  | UnknownFlags "string list"
  | BadDate
  | ChangedMeanwhile string
  | NoLongerValid env_problem
  | AlreadyCurrent
  | SameEnvironment
  | NothingToPromote
  | NotSetInSource "string list"
  | CannotPromote env_problem
  | TooManyEnvironments
  | EnvironmentExists string
  | StillUsed "link_owner list"
  | EmptyName
  | NameTaken string
  | BadSlug
  | SlugTaken string
  | UnknownProject
  | TooManyLinks
  | DuplicateLink
  | NotShared
  | OnlyProjectAdminLinks string
  | OnlyProjectAdminUnlinks string
  | UnknownProjectRow

type_synonym 'a vsr = "(vs_reason, 'a) res"

definition ENV_VERSION_KEEP :: nat where "ENV_VERSION_KEEP = 50"

definition MAX_ENVIRONMENTS :: nat where "MAX_ENVIRONMENTS = 20"

definition MAX_LINKS :: nat where "MAX_LINKS = 10"

definition DEFAULT_ENVIRONMENTS :: "(string \<times> bool) list" where
  "DEFAULT_ENVIRONMENTS = [(''development'', False), (''staging'', False), (''production'', True)]"

section \<open>Access to a set\<close>

datatype set_role = Platform | ProjectRole project_role

record set_access =
  acc_set :: variable_set
  acc_projectIds :: "string list"
  acc_role :: set_role
  acc_ctx :: project_roles

fun RANK :: "project_role \<Rightarrow> nat" where
  "RANK Viewer = 1"
| "RANK Developer = 2"
| "RANK PAdmin = 3"

fun best_role :: "project_role option \<Rightarrow> project_role list \<Rightarrow> project_role option" where
  "best_role best [] = best"
| "best_role best (r # rs) =
     best_role (case best of None \<Rightarrow> Some r | Some b \<Rightarrow> if RANK r > RANK b then Some r else best) rs"

definition setRoleFor :: "project_roles \<Rightarrow> variable_set \<Rightarrow> string list \<Rightarrow> set_role option" where
  "setRoleFor ctx st pids = (case roles ctx of
       All \<Rightarrow> Some Platform
     | Only m \<Rightarrow>
         (let candidates = (if sharedWithAll st then map fst m else filter (\<lambda>i. has_key m i) pids)
          in if candidates = [] then None
             else if platform ctx then Some Platform
             else map_option ProjectRole (best_role None (map (\<lambda>i. the (map_of m i)) candidates))))"

definition sharedProjectIds :: "vs_state \<Rightarrow> string \<Rightarrow> string list" where
  "sharedProjectIds s sid = map snd (filter (\<lambda>(i, p). i = sid) (shares s))"

definition load_set :: "request_context option \<Rightarrow> vs_state \<Rightarrow> string \<Rightarrow> string \<Rightarrow> set_access vsr" where
  "load_set req s uid sid = (case find (\<lambda>x. vs_id x = sid) (sets s) of
       None \<Rightarrow> Inl (NotFound SetNotFound)
     | Some st \<Rightarrow>
         (let ctx = projectRoles req (people s) uid; pids = sharedProjectIds s (vs_id st)
          in case setRoleFor ctx st pids of
              None \<Rightarrow> Inl (NotFound SetNotFound)
            | Some r \<Rightarrow> Inr \<lparr>acc_set = st, acc_projectIds = pids, acc_role = r, acc_ctx = ctx\<rparr>))"

definition loadForManage :: "request_context option \<Rightarrow> vs_state \<Rightarrow> string \<Rightarrow> string \<Rightarrow> set_access vsr" where
  "loadForManage req s uid sid = rbind (load_set req s uid sid) (\<lambda>a.
     if acc_role a \<noteq> Platform then Inl (Forbidden OnlyPlatformManages) else Inr a)"

definition token_scopes :: "request_context option \<Rightarrow> string list option" where
  "token_scopes req = (case currentTokenScope req of None \<Rightarrow> None | Some sc \<Rightarrow> variableScopes sc)"

definition tokenMayUse :: "request_context option \<Rightarrow> string \<Rightarrow> string \<Rightarrow> bool" where
  "tokenMayUse req slug e = variableScopeAllows (token_scopes req) slug e"

definition assertTokenMayUse :: "request_context option \<Rightarrow> string \<Rightarrow> string \<Rightarrow> unit vsr" where
  "assertTokenMayUse req slug e = (if \<not> tokenMayUse req slug e
     then Inl (Forbidden (TokenLimitedTo (case token_scopes req of None \<Rightarrow> [] | Some l \<Rightarrow> l))) else Inr ())"

definition mayUseValues :: "request_context option \<Rightarrow> set_access \<Rightarrow> set_environment \<Rightarrow> bool" where
  "mayUseValues req a e =
     (if acc_role a = ProjectRole Viewer then False
      else if protected e \<and> acc_role a \<noteq> Platform then False
      else tokenMayUse req (vs_slug (acc_set a)) (env_name e))"

definition assertValues :: "request_context option \<Rightarrow> set_access \<Rightarrow> set_environment \<Rightarrow> unit vsr" where
  "assertValues req a e =
     (if acc_role a = ProjectRole Viewer then Inl (Forbidden ViewersNoValues)
      else rbind (assertTokenMayUse req (vs_slug (acc_set a)) (env_name e)) (\<lambda>_.
        if protected e \<and> acc_role a \<noteq> Platform then Inl (Forbidden (ProtectedEnvironment (env_name e))) else Inr ()))"

section \<open>Environments\<close>

definition findInSet :: "vs_state \<Rightarrow> string \<Rightarrow> string \<Rightarrow> set_environment vsr" where
  "findInSet s eid sid = (case find (\<lambda>e. env_id e = eid \<and> variableSetId e = sid) (envs s) of
       None \<Rightarrow> Inl (NotFound EnvironmentNotFound) | Some e \<Rightarrow> Inr e)"

definition findByName :: "vs_state \<Rightarrow> string \<Rightarrow> string \<Rightarrow> set_environment vsr" where
  "findByName s sid n = (case find (\<lambda>e. variableSetId e = sid \<and> env_name e = n) (envs s) of
       None \<Rightarrow> Inl (NotFound (EnvironmentNameNotFound n)) | Some e \<Rightarrow> Inr e)"

definition guardValues ::
    "request_context option \<Rightarrow> vs_state \<Rightarrow> string \<Rightarrow> string \<Rightarrow> string \<Rightarrow> (set_environment \<times> set_access) vsr" where
  "guardValues req s uid sid eid =
     rbind (load_set req s uid sid) (\<lambda>a.
     rbind (findInSet s eid sid) (\<lambda>e.
     rbind (assertValues req a e) (\<lambda>_. Inr (e, a))))"

definition open_text :: "(string \<Rightarrow> string) \<Rightarrow> string option \<Rightarrow> string" where
  "open_text dec c = (case c of None \<Rightarrow> [] | Some x \<Rightarrow> if x = [] then [] else dec x)"

definition seal_text :: "(string \<Rightarrow> string \<Rightarrow> string) \<Rightarrow> string \<Rightarrow> string \<Rightarrow> string option" where
  "seal_text enc nonce t = (if trim t \<noteq> [] then Some (enc nonce t) else None)"

definition textOf :: "(string \<Rightarrow> string) \<Rightarrow> vs_state \<Rightarrow> string \<Rightarrow> string" where
  "textOf dec s eid = (case find (\<lambda>e. env_id e = eid) (envs s) of
       None \<Rightarrow> [] | Some e \<Rightarrow> open_text dec (variablesEncrypted e))"

record env_actor =
  act_user :: string
  act_email :: "string option"
  act_via :: version_via

definition actorOf :: "jwt_payload \<Rightarrow> env_actor" where
  "actorOf u = \<lparr>act_user = sub u, act_email = Some (jwt_email u),
     act_via = (if tokenId u \<noteq> None then ViaToken else ViaSession)\<rparr>"

definition flagLists :: "bool obj \<Rightarrow> string list \<times> string list" where
  "flagLists f = (map fst (filter (\<lambda>(k, b). b) f), map fst (filter (\<lambda>(k, b). \<not> b) f))"

text \<open>\<open>t.replace(/\r\n/g, '\n').trimEnd()\<close>.\<close>

fun crlf_to_lf :: "string \<Rightarrow> string" where
  "crlf_to_lf [] = []"
| "crlf_to_lf [c] = [c]"
| "crlf_to_lf (c # d # cs) = (if c = CR \<and> d = LF then LF # crlf_to_lf cs else c # crlf_to_lf (d # cs))"

definition normalizeText :: "string \<Rightarrow> string" where
  "normalizeText t = trimEnd (crlf_to_lf t)"

text \<open>Stored flags come back from \<open>jsonb\<close> as booleans; values that are not JSON are not stored.\<close>

definition loaded_flags :: "bool obj \<Rightarrow> flags" where
  "loaded_flags f = map (\<lambda>(k, b). (k, Flag b)) f"

fun stored_flag :: "flagv \<Rightarrow> bool option" where
  "stored_flag (Flag b) = Some b"
| "stored_flag Builtin = None"

definition stored_flags :: "flags \<Rightarrow> bool obj" where
  "stored_flags f = [(k, the (stored_flag v)). (k, v) \<leftarrow> f, stored_flag v \<noteq> None]"

definition sameFlags :: "flags \<Rightarrow> flags \<Rightarrow> bool" where
  "sameFlags a b \<longleftrightarrow> length (map fst a) = length (map fst b) \<and>
     list_all (\<lambda>k. flag_at a k = flag_at b k) (map fst a)"

definition assertFlagPatch :: "patchv obj \<Rightarrow> string list \<Rightarrow> unit vsr" where
  "assertFlagPatch patch ks =
     (if list_ex (\<lambda>(k, v). \<not> ENV_NAME k \<or> v = PBuiltin) patch then Inl (BadRequest BadFlags)
      else let unknown = filter (\<lambda>k. k \<notin> set ks) (map fst patch)
      in if unknown \<noteq> [] then Inl (BadRequest (UnknownFlags (take 5 unknown))) else Inr ())"

subsection \<open>Reveal\<close>

record reveal_view =
  rv_variables :: string
  rv_keys :: "string list"
  rv_flags :: "string list \<times> string list"
  rv_notes :: "string obj"
  rv_updatedAt :: int

definition reveal ::
    "(string \<Rightarrow> string) \<Rightarrow> request_context option \<Rightarrow> vs_state \<Rightarrow> env_actor \<Rightarrow> string \<Rightarrow> string \<Rightarrow> reveal_view vsr" where
  "reveal dec req s a sid eid = rbind (guardValues req s (act_user a) sid eid) (\<lambda>(e, acc).
     Inr \<lparr>rv_variables = textOf dec s (env_id e), rv_keys = keys e, rv_flags = flagLists (secretFlags e),
          rv_notes = env_notes e, rv_updatedAt = updatedAt e\<rparr>)"

subsection \<open>Versioned writes\<close>

text \<open>\<open>ORDER BY created_at DESC, id DESC\<close>.\<close>

definition newest_first :: "env_version list \<Rightarrow> env_version list" where
  "newest_first vs = rev (sort_key (\<lambda>v. (createdAt v, ver_id v)) vs)"

definition versions_of :: "vs_state \<Rightarrow> string \<Rightarrow> env_version list" where
  "versions_of s eid = filter (\<lambda>v. environmentId v = eid) (versions s)"

text \<open>The \<open>DELETE ... NOT IN (SELECT id ... LIMIT)\<close> behind every recorded change.\<close>

definition prune_versions :: "string \<Rightarrow> env_version list \<Rightarrow> env_version list" where
  "prune_versions eid vs =
     (let keep = map ver_id (take ENV_VERSION_KEEP (newest_first (filter (\<lambda>v. environmentId v = eid) vs)))
      in filter (\<lambda>v. environmentId v \<noteq> eid \<or> ver_id v \<in> set keep) vs)"

definition save_env :: "int \<Rightarrow> set_environment \<Rightarrow> set_environment \<Rightarrow> vs_state \<Rightarrow> vs_state \<times> set_environment" where
  "save_env now old new s =
     (let row = (if new = old then old else new\<lparr>updatedAt := now\<rparr>)
      in (s\<lparr>envs := map (\<lambda>e. if env_id e = env_id old then row else e) (envs s)\<rparr>, row))"

record vs_env =
  enc :: "string \<Rightarrow> string \<Rightarrow> string"
  dec :: "string \<Rightarrow> string"
  nonces :: "nat \<Rightarrow> string"
  new_ids :: "nat \<Rightarrow> string"
  now :: int

text \<open>
  \<open>commit\<close> on the locked row: the saved row and, when something really changed, a version, preceded by
  a baseline of the old content when it is the first one; then pruning.
\<close>

definition baseline_version :: "vs_env \<Rightarrow> set_environment \<Rightarrow> string \<Rightarrow> env_version" where
  "baseline_version w e oldText = \<lparr>ver_id = new_ids w 0, environmentId = env_id e,
     ver_text = Some (enc w (nonces w 0) oldText), ver_flags = secretFlags e, ver_notes = extractNotes oldText,
     authorId = None, authorEmail = None, via = ViaSystem, action = Baseline, detail = Some BeforeFirstChange,
     summary = \<lparr>added = keysOf oldText, changed = [], removed = [], cs_flags = []\<rparr>, createdAt = updatedAt e\<rparr>"

definition commit ::
    "vs_env \<Rightarrow> set_environment \<Rightarrow> string \<Rightarrow> string \<Rightarrow> patchv obj \<Rightarrow> env_actor \<Rightarrow> version_action
     \<Rightarrow> version_detail option \<Rightarrow> vs_state \<Rightarrow> vs_state \<times> set_environment \<times> flags" where
  "commit w e oldText text patch a act det s =
     (let previous = loaded_flags (secretFlags e);
          ks = keysOf text;
          fl = nextFlags previous (keys e) ks patch;
          smry = summarizeChange oldText text previous fl;
          really = (normalizeText oldText \<noteq> normalizeText text \<or> \<not> sameFlags previous fl);
          v = \<lparr>ver_id = new_ids w 1, environmentId = env_id e, ver_text = seal_text (enc w) (nonces w 1) text,
               ver_flags = stored_flags fl, ver_notes = extractNotes text, authorId = Some (act_user a),
               authorEmail = act_email a, via = act_via a, action = act, detail = det, summary = smry,
               createdAt = now w\<rparr>;
          s1 = (if \<not> really then s
                else let base = (if versions_of s (env_id e) = [] \<and> trim oldText \<noteq> [] then [baseline_version w e oldText] else [])
                in s\<lparr>versions := prune_versions (env_id e) (versions s @ base @ [v])\<rparr>);
          new = e\<lparr>variablesEncrypted := seal_text (enc w) (nonces w 2) text, keys := ks,
                  secretFlags := stored_flags fl, env_notes := extractNotes text\<rparr>
      in case save_env (now w) e new s1 of (s2, row) \<Rightarrow> (s2, row, fl))"

text \<open>
  \<open>transact\<close>: the expected time is absent, not a date, or a number of milliseconds; the body runs on the
  locked row and its text, and a throw leaves the tables as they were.
\<close>

definition transact ::
    "vs_env \<Rightarrow> string \<Rightarrow> string \<Rightarrow> int option option \<Rightarrow> vs_state
     \<Rightarrow> (set_environment \<Rightarrow> string \<Rightarrow> (vs_state \<times> 'a) vsr) \<Rightarrow> (vs_state \<times> 'a) vsr" where
  "transact w sid eid expected s fn =
     (if expected = Some None then Inl (BadRequest BadDate)
      else case find (\<lambda>e. env_id e = eid \<and> variableSetId e = sid) (envs s) of
          None \<Rightarrow> Inl (NotFound EnvironmentNotFound)
        | Some e \<Rightarrow>
            if (case expected of Some (Some t) \<Rightarrow> updatedAt e \<noteq> t | _ \<Rightarrow> False)
            then Inl (Conflict (ChangedMeanwhile (env_name e)))
            else fn e (textOf (dec w) s eid))"

definition update_environment ::
    "vs_env \<Rightarrow> request_context option \<Rightarrow> env_actor \<Rightarrow> string \<Rightarrow> string \<Rightarrow> string \<Rightarrow> int option option
     \<Rightarrow> patchv obj \<Rightarrow> version_action option \<Rightarrow> vs_state \<Rightarrow> (vs_state \<times> set_environment) vsr" where
  "update_environment w req a sid eid variables expected patch act s =
     rbind (guardValues req s (act_user a) sid eid) (\<lambda>(e0, acc).
       case validateEnvironmentText variables of
         Some p \<Rightarrow> Inl (BadRequest (BadText p))
       | None \<Rightarrow>
           rbind (assertFlagPatch patch (keysOf variables)) (\<lambda>_.
             transact w sid eid expected s (\<lambda>e oldText.
               case commit w e oldText variables patch a (case act of None \<Rightarrow> Edit | Some x \<Rightarrow> x) None s of
                 (s', row, fl) \<Rightarrow> Inr (s', row))))"

definition loadVersion :: "vs_state \<Rightarrow> string \<Rightarrow> string \<Rightarrow> env_version vsr" where
  "loadVersion s eid vid = (case find (\<lambda>v. ver_id v = vid \<and> environmentId v = eid) (versions s) of
       None \<Rightarrow> Inl (NotFound VersionNotFound) | Some v \<Rightarrow> Inr v)"

text \<open>\<open>flags?.[k] ?? null\<close> per key, written into a plain object.\<close>

definition flag_patch :: "bool obj \<Rightarrow> string list \<Rightarrow> patchv obj" where
  "flag_patch f ks = fold (\<lambda>k p. obj_set k (case obj_get f k of Own b \<Rightarrow> PFlag b | Inherited \<Rightarrow> PBuiltin | Undef \<Rightarrow> PNull) p) ks []"

definition restoreVersion ::
    "vs_env \<Rightarrow> request_context option \<Rightarrow> env_actor \<Rightarrow> string \<Rightarrow> string \<Rightarrow> string \<Rightarrow> int option option
     \<Rightarrow> vs_state \<Rightarrow> (vs_state \<times> set_environment) vsr" where
  "restoreVersion w req a sid eid vid expected s =
     rbind (guardValues req s (act_user a) sid eid) (\<lambda>(e0, acc).
       transact w sid eid expected s (\<lambda>e oldText.
         rbind (loadVersion s eid vid) (\<lambda>v.
           let text = open_text (dec w) (ver_text v) in
           case validateEnvironmentText text of
             Some p \<Rightarrow> Inl (BadRequest (NoLongerValid p))
           | None \<Rightarrow>
               (let ks = keysOf text; patch = flag_patch (ver_flags v) ks
                in if normalizeText text = normalizeText oldText \<and>
                      sameFlags (loaded_flags (secretFlags e)) (nextFlags [] [] ks patch)
                   then Inl (BadRequest AlreadyCurrent)
                   else case commit w e oldText text patch a Restore (Some (RestoredFrom (createdAt v))) s of
                       (s', row, fl) \<Rightarrow> Inr (s', row)))))"

definition listVersions ::
    "request_context option \<Rightarrow> vs_state \<Rightarrow> string \<Rightarrow> string \<Rightarrow> string \<Rightarrow> (env_version \<times> bool) list vsr" where
  "listVersions req s uid sid eid =
     rbind (load_set req s uid sid) (\<lambda>_.
     rbind (findInSet s eid sid) (\<lambda>_.
       let rows = take ENV_VERSION_KEEP (newest_first (versions_of s eid))
       in Inr (map (\<lambda>(i, v). (v\<lparr>ver_text := None\<rparr>, i = 0)) (zip [0..<length rows] rows))))"

definition revealVersion ::
    "(string \<Rightarrow> string) \<Rightarrow> request_context option \<Rightarrow> vs_state \<Rightarrow> env_actor \<Rightarrow> string \<Rightarrow> string \<Rightarrow> string
     \<Rightarrow> (string \<times> (string list \<times> string list) \<times> string obj \<times> int) vsr" where
  "revealVersion dc req s a sid eid vid =
     rbind (guardValues req s (act_user a) sid eid) (\<lambda>_.
     rbind (loadVersion s eid vid) (\<lambda>v.
       Inr (open_text dc (ver_text v), flagLists (ver_flags v), ver_notes v, createdAt v)))"


subsection \<open>Comparing and promoting\<close>

record env_diff =
  diff_from :: "string \<times> string"
  diff_to :: "string \<times> string"
  comparable :: bool
  diff_onlyInFrom :: "string list"
  diff_onlyInTo :: "string list"
  inBoth :: "string list"
  diff_different :: "string list option"
  diff_same :: "string list option"

definition env_diff_of ::
    "(string \<Rightarrow> string) \<Rightarrow> request_context option \<Rightarrow> vs_state \<Rightarrow> set_access \<Rightarrow> set_environment \<Rightarrow> set_environment \<Rightarrow> env_diff" where
  "env_diff_of dc req s a f t =
     (if mayUseValues req a f \<and> mayUseValues req a t then
        (let c = compareEnvTexts (textOf dc s (env_id f)) (textOf dc s (env_id t))
         in \<lparr>diff_from = (env_id f, env_name f), diff_to = (env_id t, env_name t), comparable = True,
             diff_onlyInFrom = onlyInFrom c, diff_onlyInTo = onlyInTo c,
             inBoth = same c @ different c, diff_different = Some (different c), diff_same = Some (same c)\<rparr>)
      else \<lparr>diff_from = (env_id f, env_name f), diff_to = (env_id t, env_name t), comparable = False,
             diff_onlyInFrom = filter (\<lambda>k. k \<notin> set (keys t)) (keys f),
             diff_onlyInTo = filter (\<lambda>k. k \<notin> set (keys f)) (keys t),
             inBoth = filter (\<lambda>k. k \<in> set (keys t)) (keys f), diff_different = None, diff_same = None\<rparr>)"

definition diff ::
    "(string \<Rightarrow> string) \<Rightarrow> request_context option \<Rightarrow> vs_state \<Rightarrow> string \<Rightarrow> string \<Rightarrow> string \<Rightarrow> string \<Rightarrow> env_diff vsr" where
  "diff dc req s uid sid fromName toName =
     rbind (load_set req s uid sid) (\<lambda>a.
     rbind (findByName s sid fromName) (\<lambda>f.
     rbind (findByName s sid toName) (\<lambda>t. Inr (env_diff_of dc req s a f t))))"

definition promote ::
    "vs_env \<Rightarrow> request_context option \<Rightarrow> env_actor \<Rightarrow> string \<Rightarrow> string \<Rightarrow> string \<Rightarrow> string list
     \<Rightarrow> int option option \<Rightarrow> vs_state \<Rightarrow> (vs_state \<times> set_environment \<times> change_summary) vsr" where
  "promote w req a sid targetId sourceId ks expected s =
     (if sourceId = targetId then Inl (BadRequest SameEnvironment)
      else let unique = nub ks in
        if unique = [] then Inl (BadRequest NothingToPromote)
        else
          rbind (guardValues req s (act_user a) sid sourceId) (\<lambda>(source, acc).
          rbind (guardValues req s (act_user a) sid targetId) (\<lambda>_.
            let sourceText = textOf (dec w) s (env_id source);
                sourceValues = envMap sourceText;
                sourceNotes = extractNotes sourceText;
                missing = filter (\<lambda>k. \<not> has_key sourceValues k) unique
            in if missing \<noteq> [] then Inl (BadRequest (NotSetInSource missing))
               else transact w sid targetId expected s (\<lambda>e oldText.
                 case setValues oldText (map (\<lambda>k. (k, the (map_of sourceValues k))) unique) sourceNotes of
                   None \<Rightarrow> Inl TypeErr
                 | Some text \<Rightarrow>
                     (case validateEnvironmentText text of
                        Some p \<Rightarrow> Inl (BadRequest (CannotPromote p))
                      | None \<Rightarrow>
                          (case commit w e oldText text (flag_patch (secretFlags source) unique) a Promote
                                 (Some (FromEnvironment (env_name source))) s of
                             (s', row, fl) \<Rightarrow>
                               Inr (s', row, summarizeChange oldText text (loaded_flags (secretFlags e)) fl)))))))"

subsection \<open>Adding and removing environments\<close>

definition new_environment :: "vs_env \<Rightarrow> string \<Rightarrow> string \<Rightarrow> string \<Rightarrow> bool \<Rightarrow> set_environment" where
  "new_environment w eid sid n prot = \<lparr>env_id = eid, variableSetId = sid, env_name = n, protected = prot,
     variablesEncrypted = None, keys = [], secretFlags = [], env_notes = [], updatedAt = now w\<rparr>"

text \<open>\<open>ensureDefaults\<close>: the insert ignores names the set already has.\<close>

definition ensureDefaults :: "vs_env \<Rightarrow> string \<Rightarrow> vs_state \<Rightarrow> vs_state" where
  "ensureDefaults w sid s = s\<lparr>envs := envs s @
     [new_environment w (new_ids w (Suc i)) sid n prot. (i, n, prot) \<leftarrow> zip [0..<3] DEFAULT_ENVIRONMENTS,
        \<not> list_ex (\<lambda>e. variableSetId e = sid \<and> env_name e = n) (envs s)]\<rparr>"

definition create_environment ::
    "vs_env \<Rightarrow> request_context option \<Rightarrow> string \<Rightarrow> string \<Rightarrow> string \<Rightarrow> bool \<Rightarrow> vs_state \<Rightarrow> (vs_state \<times> set_environment) vsr" where
  "create_environment w req uid sid n prot s =
     rbind (loadForManage req s uid sid) (\<lambda>a.
     rbind (assertTokenMayUse req (vs_slug (acc_set a)) n) (\<lambda>_.
       if MAX_ENVIRONMENTS \<le> length (filter (\<lambda>e. variableSetId e = sid) (envs s))
       then Inl (BadRequest TooManyEnvironments)
       else if list_ex (\<lambda>e. variableSetId e = sid \<and> env_name e = n) (envs s)
       then Inl (Conflict (EnvironmentExists n))
       else let e = new_environment w (new_ids w 0) sid n prot in Inr (s\<lparr>envs := envs s @ [e]\<rparr>, e)))"

text \<open>
  \<open>usersOf\<close>: the links of an environment joined with their application or stack and its project; the
  context limits it to visible projects, \<open>All\<close> does not.  The order of the rows is left to the table.
\<close>

definition env_users :: "vs_state \<Rightarrow> string \<Rightarrow> link_owner list" where
  "env_users s eid = [ow. l \<leftarrow> filter (\<lambda>l. link_env l = eid) (links s),
     ow \<leftarrow> filter (\<lambda>ow. own_kind ow = owner_kind l \<and> own_id ow = owner_id l \<and>
            list_ex (\<lambda>p. project_id p = own_project ow) (projects (people s))) (owners s)]"

definition visible_project :: "project_roles \<Rightarrow> string \<Rightarrow> bool" where
  "visible_project ctx pid = (case roles ctx of All \<Rightarrow> True | Only m \<Rightarrow> has_key m pid)"

definition usersOf :: "vs_state \<Rightarrow> string \<Rightarrow> project_roles some_or_all \<Rightarrow> link_owner list" where
  "usersOf s eid ctx = filter (\<lambda>ow. case ctx of All \<Rightarrow> True | Only c \<Rightarrow> visible_project c (own_project ow)) (env_users s eid)"

definition remove_environment ::
    "request_context option \<Rightarrow> string \<Rightarrow> string \<Rightarrow> string \<Rightarrow> vs_state \<Rightarrow> vs_state vsr" where
  "remove_environment req uid sid eid s =
     rbind (loadForManage req s uid sid) (\<lambda>a.
     rbind (findInSet s eid sid) (\<lambda>e.
     rbind (assertTokenMayUse req (vs_slug (acc_set a)) (env_name e)) (\<lambda>_.
       let used = usersOf s (env_id e) All in
       if used \<noteq> [] then Inl (Conflict (StillUsed used))
       else if list_ex (\<lambda>l. link_env l = env_id e) (links s) then Inl (Conflict (StillUsed []))
       else Inr (s\<lparr>envs := filter (\<lambda>x. \<not> (env_id x = env_id e \<and> variableSetId x = sid)) (envs s),
                   versions := filter (\<lambda>v. environmentId v \<noteq> env_id e) (versions s)\<rparr>))))"

text \<open>\<open>layersFor\<close>: text and flags in the order asked for, missing ids skipped, no role check.\<close>

record variable_layer =
  layer_env :: string
  layer_text :: string
  layer_flags :: "bool obj"

definition layersFor :: "(string \<Rightarrow> string) \<Rightarrow> vs_state \<Rightarrow> string list \<Rightarrow> variable_layer list" where
  "layersFor dc s ids = [\<lparr>layer_env = i, layer_text = open_text dc (variablesEncrypted e), layer_flags = secretFlags e\<rparr>.
     i \<leftarrow> ids, e \<leftarrow> (case find (\<lambda>e. env_id e = i) (envs s) of None \<Rightarrow> [] | Some e \<Rightarrow> [e])]"

section \<open>Sets\<close>

definition nameTaken :: "vs_state \<Rightarrow> string \<Rightarrow> bool" where
  "nameTaken s n \<longleftrightarrow> uniqueSetName n (map vs_name (sets s)) \<noteq> Some n"

definition existingProjects :: "vs_state \<Rightarrow> string list \<Rightarrow> string list vsr" where
  "existingProjects s ids = (let unique = nub ids in
     if unique = [] then Inr []
     else if length (filter (\<lambda>p. project_id p \<in> set unique) (projects (people s))) \<noteq> length unique
     then Inl (BadRequest UnknownProject) else Inr unique)"

definition blank_to_none :: "string option \<Rightarrow> string option" where
  "blank_to_none d = (case d of None \<Rightarrow> None | Some x \<Rightarrow> if trim x = [] then None else Some (trim x))"

definition choose_slug :: "vs_state \<Rightarrow> string option \<Rightarrow> string \<Rightarrow> string vsr" where
  "choose_slug s given n =
     (if given \<noteq> None \<and> given \<noteq> Some [] then
        (if \<not> VARIABLE_SET_SLUG (the given) then Inl (BadRequest BadSlug)
         else if list_ex (\<lambda>x. vs_slug x = the given) (sets s) then Inl (Conflict (SlugTaken (the given)))
         else Inr (the given))
      else Inr (the (uniqueSetSlug (slugifySetName n) (map vs_slug (sets s)))))"

definition create_set ::
    "vs_env \<Rightarrow> request_context option \<Rightarrow> string \<Rightarrow> string \<Rightarrow> string option \<Rightarrow> string option \<Rightarrow> bool option
     \<Rightarrow> string list option \<Rightarrow> vs_state \<Rightarrow> vs_state vsr" where
  "create_set w req uid rawName givenSlug desc sharedAll pids s =
     (let ctx = projectRoles req (people s) uid; n = trim rawName in
      if \<not> platform ctx then Inl (Forbidden OnlyPlatformCreates)
      else if n = [] then Inl (BadRequest EmptyName)
      else if nameTaken s n then Inl (Conflict (NameTaken n))
      else
        rbind (choose_slug s givenSlug n) (\<lambda>slug.
        rbind (existingProjects s (case pids of None \<Rightarrow> [] | Some l \<Rightarrow> l)) (\<lambda>projectIds.
          let st = \<lparr>vs_id = new_ids w 0, vs_name = n, vs_slug = slug, description = blank_to_none desc,
                    sharedWithAll = (case sharedAll of None \<Rightarrow> False | Some b \<Rightarrow> b)\<rparr>
          in Inr (ensureDefaults w (vs_id st)
                (s\<lparr>sets := sets s @ [st], shares := shares s @ map (\<lambda>p. (vs_id st, p)) projectIds\<rparr>)))))"

definition update_set ::
    "request_context option \<Rightarrow> string \<Rightarrow> string \<Rightarrow> string option \<Rightarrow> string option option \<Rightarrow> vs_state \<Rightarrow> vs_state vsr" where
  "update_set req uid sid newName desc s =
     rbind (loadForManage req s uid sid) (\<lambda>a.
     rbind (case newName of
              None \<Rightarrow> Inr (vs_name (acc_set a))
            | Some raw \<Rightarrow> (let n = trim raw in
                if n = [] then Inl (BadRequest EmptyName)
                else if toLowerCase n \<noteq> toLowerCase (vs_name (acc_set a)) \<and> nameTaken s n
                then Inl (Conflict (NameTaken n)) else Inr n))
       (\<lambda>n. let st = (acc_set a)\<lparr>vs_name := n,
                 description := (case desc of None \<Rightarrow> description (acc_set a) | Some d \<Rightarrow> blank_to_none d)\<rparr>
            in if list_ex (\<lambda>x. vs_id x \<noteq> vs_id st \<and> vs_name x = n) (sets s) then Inl (Conflict (NameTaken n))
               else Inr (s\<lparr>sets := map (\<lambda>x. if vs_id x = vs_id st then st else x) (sets s)\<rparr>)))"

text \<open>\<open>usersOfSet\<close>: each user of any environment of the set once.\<close>

fun dedup_users :: "string list \<Rightarrow> link_owner list \<Rightarrow> link_owner list" where
  "dedup_users seen [] = []"
| "dedup_users seen (u # us) =
     (if own_id u \<in> set seen then dedup_users seen us else u # dedup_users (own_id u # seen) us)"

definition usersOfSet :: "vs_state \<Rightarrow> string \<Rightarrow> link_owner list" where
  "usersOfSet s sid = dedup_users []
     (concat (map (\<lambda>e. usersOf s (env_id e) All) (filter (\<lambda>e. variableSetId e = sid) (envs s))))"

definition share ::
    "request_context option \<Rightarrow> string \<Rightarrow> string \<Rightarrow> bool \<Rightarrow> string list \<Rightarrow> vs_state \<Rightarrow> vs_state vsr" where
  "share req uid sid sharedAll pidsIn s =
     rbind (loadForManage req s uid sid) (\<lambda>a.
     rbind (existingProjects s pidsIn) (\<lambda>pids.
       let losing = (if sharedAll then []
              else filter (\<lambda>u. own_project u \<notin> set pids) (usersOfSet s (vs_id (acc_set a))))
       in if losing \<noteq> [] then Inl (Conflict (StillUsed losing))
          else Inr (s\<lparr>sets := map (\<lambda>x. if vs_id x = vs_id (acc_set a) then x\<lparr>sharedWithAll := sharedAll\<rparr> else x) (sets s),
                      shares := filter (\<lambda>(i, p). i \<noteq> vs_id (acc_set a)) (shares s) @
                                map (\<lambda>p. (vs_id (acc_set a), p)) pids\<rparr>)))"

definition remove_set :: "request_context option \<Rightarrow> string \<Rightarrow> string \<Rightarrow> vs_state \<Rightarrow> vs_state vsr" where
  "remove_set req uid sid s =
     rbind (loadForManage req s uid sid) (\<lambda>a.
       let users = usersOfSet s (vs_id (acc_set a));
           gone = map env_id (filter (\<lambda>e. variableSetId e = vs_id (acc_set a)) (envs s))
       in if users \<noteq> [] then Inl (Conflict (StillUsed users))
          else if list_ex (\<lambda>l. link_env l \<in> set gone) (links s) then Inl (Conflict (StillUsed []))
          else Inr (s\<lparr>sets := filter (\<lambda>x. vs_id x \<noteq> vs_id (acc_set a)) (sets s),
                      shares := filter (\<lambda>(i, p). i \<noteq> vs_id (acc_set a)) (shares s),
                      envs := filter (\<lambda>e. variableSetId e \<noteq> vs_id (acc_set a)) (envs s),
                      versions := filter (\<lambda>v. environmentId v \<notin> set gone) (versions s)\<rparr>))"

section \<open>Links\<close>

definition linkConflicts :: "string list list \<Rightarrow> string list \<Rightarrow> (string list \<times> string list) list" where
  "linkConflicts layers ownKeys = map (\<lambda>i. let later = concat (drop (Suc i) layers) in
       (filter (\<lambda>k. k \<in> set later) (layers ! i),
        filter (\<lambda>k. k \<in> set ownKeys \<and> k \<notin> set later) (layers ! i))) [0..<length layers]"

definition environmentIdsFor :: "vs_state \<Rightarrow> owner_kind \<Rightarrow> string option \<Rightarrow> string list" where
  "environmentIdsFor s k i = (case i of None \<Rightarrow> []
     | Some oid \<Rightarrow> if oid = [] then []
         else map link_env (sort_key position (filter (\<lambda>l. owner_kind l = k \<and> owner_id l = oid) (links s))))"

definition validate_links ::
    "request_context option \<Rightarrow> vs_state \<Rightarrow> owner_kind \<Rightarrow> string option \<Rightarrow> string \<Rightarrow> string list \<Rightarrow> string option \<Rightarrow> unit vsr" where
  "validate_links req s k oid pid ids actorId =
     (if MAX_LINKS < length ids then Inl (BadRequest TooManyLinks)
      else if length (nub ids) \<noteq> length ids then Inl (BadRequest DuplicateLink)
      else
        (let current = environmentIdsFor s k oid;
             es = filter (\<lambda>e. env_id e \<in> set ids) (envs s)
         in if length es \<noteq> length ids then Inl (BadRequest NotShared)
         else
           (let setIds = map variableSetId es;
                sharedSets = map vs_id (filter (\<lambda>x. vs_id x \<in> set setIds \<and> sharedWithAll x) (sets s)) @
                             map fst (filter (\<lambda>(i, p). i \<in> set setIds \<and> p = pid) (shares s))
            in if list_ex (\<lambda>e. variableSetId e \<notin> set sharedSets) es then Inl (BadRequest NotShared)
            else case actorId of
                None \<Rightarrow> Inr ()
              | Some actor \<Rightarrow>
                  (let added = filter (\<lambda>e. env_id e \<notin> set current) es;
                       removedIds = filter (\<lambda>i. i \<notin> set ids) current;
                       removed = filter (\<lambda>e. env_id e \<in> set removedIds) (envs s);
                       touched = filter protected (added @ removed)
                   in if touched = [] then Inr ()
                      else
                        (let role = (case find (\<lambda>p. project_id p = pid) (projects (people s)) of
                               None \<Rightarrow> None | Some p \<Rightarrow> roleFor req (people s) actor p)
                         in if role \<noteq> Some PAdmin then
                              Inl (Forbidden (if hd touched \<in> set added
                                then OnlyProjectAdminLinks (env_name (hd touched))
                                else OnlyProjectAdminUnlinks (env_name (hd touched))))
                            else Inr ())))))"

definition replace_links :: "owner_kind \<Rightarrow> string \<Rightarrow> string list \<Rightarrow> vs_state \<Rightarrow> vs_state" where
  "replace_links k oid ids s = s\<lparr>links := filter (\<lambda>l. \<not> (owner_kind l = k \<and> owner_id l = oid)) (links s) @
     map (\<lambda>(i, e). \<lparr>link_env = e, owner_kind = k, owner_id = oid, position = i\<rparr>) (zip [0..<length ids] ids)\<rparr>"

end
