(* ===== verification/Variable_Access_Laws.thy ===== *)
theory Variable_Access_Laws
  imports Variable_Sets Access_Laws
begin

text \<open>
  Laws of the access rules of variable sets: the two formulations of the value rule agree, an API
  token only narrows it, and what a caller without the right can compute from a comparison does not
  depend on the values.
\<close>

section \<open>One rule, written twice\<close>

lemma assertValues_iff: "assertValues req a e = Inr () \<longleftrightarrow> mayUseValues req a e"
  by (auto simp: assertValues_def mayUseValues_def assertTokenMayUse_def rbind_def)

lemma guardValues_InrI:
  assumes "load_set req s uid sid = Inr a" and "findInSet s eid sid = Inr e" and "mayUseValues req a e"
  shows "guardValues req s uid sid eid = Inr (e, a)"
  using assms by (simp add: guardValues_def assertValues_iff [THEN iffD2])

lemma guardValues_InrD:
  assumes "guardValues req s uid sid eid = Inr (e, a)"
  shows "load_set req s uid sid = Inr a" "findInSet s eid sid = Inr e" "mayUseValues req a e"
  using assms by (auto simp: guardValues_def assertValues_iff [symmetric])

lemma load_set_InrD:
  assumes "load_set req s uid sid = Inr a"
  shows "acc_set a \<in> set (sets s)" "vs_id (acc_set a) = sid" "acc_projectIds a = sharedProjectIds s sid"
    "setRoleFor (projectRoles req (people s) uid) (acc_set a) (sharedProjectIds s sid) = Some (acc_role a)"
    "acc_ctx a = projectRoles req (people s) uid"
  using assms by (auto simp: load_set_def Let_def dest!: find_SomeD split: option.splits)

lemma findInSet_InrD:
  assumes "findInSet s eid sid = Inr e"
  shows "e \<in> set (envs s)" "env_id e = eid" "variableSetId e = sid"
  using assms by (auto simp: findInSet_def dest!: find_SomeD split: option.splits)

text \<open>
  C12: values are revealed to exactly those callers for whom \<open>mayUseValues\<close> answers yes on a set they can
  see: the check that throws and the check that answers are the same rule, with the environment looked
  up inside the set.
\<close>

theorem reveal_iff_mayUseValues:
  "(\<exists>v. reveal dc req s a sid eid = Inr v) \<longleftrightarrow>
   (\<exists>acc e. load_set req s (act_user a) sid = Inr acc \<and> findInSet s eid sid = Inr e \<and> mayUseValues req acc e)"
proof
  assume "\<exists>v. reveal dc req s a sid eid = Inr v"
  then obtain e acc where "guardValues req s (act_user a) sid eid = Inr (e, acc)" by (auto simp: reveal_def)
  from guardValues_InrD [OF this]
  show "\<exists>acc e. load_set req s (act_user a) sid = Inr acc \<and> findInSet s eid sid = Inr e \<and> mayUseValues req acc e"
    by auto
next
  assume "\<exists>acc e. load_set req s (act_user a) sid = Inr acc \<and> findInSet s eid sid = Inr e \<and> mayUseValues req acc e"
  then obtain acc e where "guardValues req s (act_user a) sid eid = Inr (e, acc)" using guardValues_InrI by blast
  then show "\<exists>v. reveal dc req s a sid eid = Inr v" by (simp add: reveal_def)
qed

section \<open>A token only narrows\<close>

text \<open>The best role of a list of candidates is the one of highest rank.\<close>

lemma best_role_ge:
  "best_role best rs = Some b \<Longrightarrow> (\<forall>r \<in> set rs \<union> set_option best. RANK r \<le> RANK b)"
  by (induction best rs arbitrary: b rule: best_role.induct) (fastforce split: option.splits if_splits)+

lemma best_role_in: "best_role best rs = Some b \<Longrightarrow> b \<in> set rs \<union> set_option best"
  by (induction best rs arbitrary: b rule: best_role.induct) (fastforce split: option.splits if_splits)+

lemma best_role_None: "best_role best rs = None \<longleftrightarrow> best = None \<and> rs = []"
  by (induction best rs rule: best_role.induct) (auto split: option.splits)

lemma RANK_inj: "RANK a = RANK b \<Longrightarrow> a = b"
  by (cases a; cases b) auto

lemma best_role_mono:
  assumes "set rs \<subseteq> set rs'" and "best_role None rs = Some b" and "best_role None rs' = Some b'"
  shows "RANK b \<le> RANK b'"
  using assms best_role_in [of None rs b] best_role_ge [of None rs' b'] by auto

text \<open>One project context is within another when it sees no more projects, with the same roles.\<close>

definition ctx_within :: "project_roles \<Rightarrow> project_roles \<Rightarrow> bool" where
  "ctx_within c d \<longleftrightarrow> platform c = platform d \<and> (case roles d of
       All \<Rightarrow> True
     | Only n \<Rightarrow> (case roles c of All \<Rightarrow> False
         | Only m \<Rightarrow> (\<forall>i r. map_of m i = Some r \<longrightarrow> map_of n i = Some r) \<and> fst ` set m \<subseteq> fst ` set n \<and>
             distinct (map fst m) \<and> distinct (map fst n)))"

definition values_role :: "set_role \<Rightarrow> nat" where
  "values_role r = (case r of Platform \<Rightarrow> 4 | ProjectRole p \<Rightarrow> RANK p)"

lemma values_role_simps:
  "values_role r = 4 \<longleftrightarrow> r = Platform" "values_role r \<le> 4" "values_role r = 1 \<longleftrightarrow> r = ProjectRole Viewer" "1 \<le> values_role r"
  by (cases r; auto simp: values_role_def split: set_role.splits; (rename_tac p, case_tac p; simp))+

lemma setRoleFor_mono:
  assumes "ctx_within c d" and "setRoleFor c st pids = Some r"
  shows "\<exists>r'. setRoleFor d st pids = Some r' \<and> values_role r \<le> values_role r'"
proof (cases "roles d")
  case All
  then have "setRoleFor d st pids = Some Platform" by (simp add: setRoleFor_def)
  then show ?thesis using values_role_simps(1,2) by metis
next
  case (Only n)
  then obtain m where m: "roles c = Only m" and sub: "\<And>i r. map_of m i = Some r \<Longrightarrow> map_of n i = Some r"
    and keys: "fst ` set m \<subseteq> fst ` set n" and pl: "platform c = platform d"
    using assms(1) by (auto simp: ctx_within_def split: some_or_all.splits)
  define cm where "cm = (if sharedWithAll st then map fst m else filter (\<lambda>i. has_key m i) pids)"
  define cn where "cn = (if sharedWithAll st then map fst n else filter (\<lambda>i. has_key n i) pids)"
  have hk: "has_key m i \<Longrightarrow> has_key n i" for i using sub by (auto simp: has_key_def)
  have cand: "set cm \<subseteq> set cn" using keys hk by (auto simp: cm_def cn_def)
  have ne: "cm \<noteq> []" using assms(2) m by (auto simp: setRoleFor_def Let_def cm_def split: if_splits)
  then have ne': "cn \<noteq> []" using cand by auto
  have val: "the (map_of m i) = the (map_of n i)" if "i \<in> set cm" for i
  proof -
    have "map_of m i \<noteq> None" using that by (auto simp: cm_def has_key_def map_of_eq_None_iff split: if_splits)
    then show ?thesis using sub by auto
  qed
  have c: "setRoleFor c st pids = (if platform c then Some Platform
      else map_option ProjectRole (best_role None (map (\<lambda>i. the (map_of m i)) cm)))"
    using m ne by (simp add: setRoleFor_def Let_def cm_def)
  have d: "setRoleFor d st pids = (if platform c then Some Platform
      else map_option ProjectRole (best_role None (map (\<lambda>i. the (map_of n i)) cn)))"
    using Only ne' pl by (simp add: setRoleFor_def Let_def cn_def)
  show ?thesis
  proof (cases "platform c")
    case True
    then show ?thesis using c d assms(2) by simp
  next
    case False
    then obtain b where b: "best_role None (map (\<lambda>i. the (map_of m i)) cm) = Some b" "r = ProjectRole b"
      using assms(2) c by auto
    obtain b' where b': "best_role None (map (\<lambda>i. the (map_of n i)) cn) = Some b'"
      using best_role_None [of None "map (\<lambda>i. the (map_of n i)) cn"] ne' by auto
    have "(\<lambda>i. the (map_of m i)) ` set cm \<subseteq> (\<lambda>i. the (map_of n i)) ` set cn"
      using cand val by auto
    then have "RANK b \<le> RANK b'" using best_role_mono [OF _ b(1) b'] by simp
    then show ?thesis using False b(2) b' d by (simp add: values_role_def)
  qed
qed

lemma projectRoles_within:
  assumes "scope_within a b" and "dir_ok d"
  shows "ctx_within (projectRoles (with_scope c a) d uid) (projectRoles (with_scope c b) d uid)"
proof (cases "is_platform (platformRole d uid)")
  case True
  have m: "map_of (map_of_entries (map (\<lambda>i. (i, PAdmin)) ids)) i = (if i \<in> set ids then Some PAdmin else None)"
    for ids :: "string list" and i by (simp add: map_of_map_of_entries rev_map map_of_const)
  then show ?thesis using True assms(1)
    by (auto simp: ctx_within_def projectRoles_def Let_def scope_within_def opt_within_def keys_map_of_entries
        image_image split: option.splits)
next
  case False
  define m where "m = fold (\<lambda>p acc. AList.update (project_id p) PAdmin acc) (filter (\<lambda>p. ownerId p = uid) (projects d))
     (fold (\<lambda>m acc. AList.update (pm_projectId m) (pm_role m) acc) (filter (\<lambda>m. pm_userId m = uid) (members d)) [])"
  have dm: "distinct (map fst m)"
    unfolding m_def by (simp add: fold_update_entries [where f = project_id] fold_update_entries [where f = pm_projectId] distinct_fold_update)
  have "distinct (map fst (filter (\<lambda>(i, r). i \<in> S) m))" for S by (rule distinct_map_filter) (rule dm)
  moreover have "projectRoles (with_scope c x) d uid = \<lparr>platform = False,
      roles = Only (case projectIds x of None \<Rightarrow> m | Some ids \<Rightarrow> filter (\<lambda>(i, r). i \<in> set ids) m)\<rparr>" for x
    unfolding m_def using False by (simp add: projectRoles_def Let_def)
  ultimately show ?thesis using assms(1) dm
    by (auto simp: ctx_within_def scope_within_def opt_within_def map_of_filter_fst split: option.splits)
qed

lemma load_set_mono:
  assumes "scope_within a b" and "dir_ok (people s)" and "load_set (with_scope c a) s uid sid = Inr acc"
  shows "\<exists>acc'. load_set (with_scope c b) s uid sid = Inr acc' \<and> acc_set acc' = acc_set acc \<and>
     values_role (acc_role acc) \<le> values_role (acc_role acc')"
proof -
  note l = load_set_InrD [OF assms(3)]
  obtain st where st: "find (\<lambda>x. vs_id x = sid) (sets s) = Some st" "acc_set acc = st"
    using assms(3) by (auto simp: load_set_def Let_def split: option.splits)
  obtain r' where "setRoleFor (projectRoles (with_scope c b) (people s) uid) st (sharedProjectIds s sid) = Some r'"
    "values_role (acc_role acc) \<le> values_role r'"
    using setRoleFor_mono [OF projectRoles_within [OF assms(1,2)], of c uid st] l(4) st(2) by blast
  then show ?thesis using st find_SomeD [OF st(1)] by (simp add: load_set_def Let_def)
qed

lemma mayUseValues_mono:
  assumes "scope_within a b" and "acc_set acc' = acc_set acc" and "values_role (acc_role acc) \<le> values_role (acc_role acc')"
    and "mayUseValues (with_scope c a) acc e"
  shows "mayUseValues (with_scope c b) acc' e"
proof -
  have scopes: "token_scopes (with_scope c x) = variableScopes x" for x
    by (simp add: token_scopes_def currentTokenScope_def with_scope_def setTokenScope_def)
  have "acc_role acc \<noteq> ProjectRole Viewer" "protected e \<longrightarrow> acc_role acc = Platform"
    and t: "variableScopeAllows (variableScopes a) (vs_slug (acc_set acc)) (env_name e)"
    using assms(4) by (auto simp: mayUseValues_def tokenMayUse_def scopes split: if_splits)
  then have "2 \<le> values_role (acc_role acc)" "protected e \<longrightarrow> values_role (acc_role acc) = 4"
    using values_role_simps(3,4) [of "acc_role acc"] values_role_simps(1) by fastforce+
  then have "acc_role acc' \<noteq> ProjectRole Viewer" "protected e \<longrightarrow> acc_role acc' = Platform"
    using assms(3) values_role_simps(2) [of "acc_role acc'"] values_role_simps(1,3) [of "acc_role acc'"] by auto
  moreover have "variableScopeAllows (variableScopes b) (vs_slug (acc_set acc)) (env_name e)"
    using variable_scope.narrows [OF assms(1), of "(vs_slug (acc_set acc), env_name e)"] t by simp
  ultimately show ?thesis by (simp add: mayUseValues_def tokenMayUse_def scopes assms(2))
qed

text \<open>
  The third decision that looks at the token: \<open>grants\<close> holds when the caller passes the value guard on
  tables with unique rows.
\<close>

definition may_read_values :: "token_scope \<Rightarrow> request_context \<times> vs_state \<times> string \<times> string \<times> string \<Rightarrow> bool" where
  "may_read_values sc q = (case q of (c, s, uid, sid, eid) \<Rightarrow>
     dir_ok (people s) \<and> (\<exists>x. guardValues (with_scope c sc) s uid sid eid = Inr x))"

lemma may_read_values_mono: "scope_within a b \<Longrightarrow> may_read_values a q \<Longrightarrow> may_read_values b q"
proof -
  assume ab: "scope_within a b" and g: "may_read_values a q"
  obtain c s uid sid eid where q: "q = (c, s, uid, sid, eid)" by (metis prod_cases5)
  then obtain e acc where ok: "dir_ok (people s)" and gv: "guardValues (with_scope c a) s uid sid eid = Inr (e, acc)"
    using g by (auto simp: may_read_values_def)
  note d = guardValues_InrD [OF gv]
  obtain acc' where "load_set (with_scope c b) s uid sid = Inr acc'" "acc_set acc' = acc_set acc"
    "values_role (acc_role acc) \<le> values_role (acc_role acc')" using load_set_mono [OF ab ok d(1)] by blast
  then have "guardValues (with_scope c b) s uid sid eid = Inr (e, acc')"
    using guardValues_InrI [OF _ d(2)] mayUseValues_mono [OF ab _ _ d(3)] by blast
  then show ?thesis using ok q by (auto simp: may_read_values_def)
qed

interpretation value_scope: scoped_decision may_read_values
  by unfold_locales (rule may_read_values_mono)

text \<open>
  A token never reveals what its user could not reveal in a session.  If a request with any token
  scope reads an environment's values, the same user reads the same values without the token, with any
  project limit and any variable scope removed.
\<close>

theorem token_reveal_within_session:
  assumes "dir_ok (people s)" and "reveal dc (with_scope c sc) s a sid eid = Inr v"
  shows "reveal dc (with_scope c FULL_SCOPE) s a sid eid = Inr v"
proof -
  obtain e acc where g: "guardValues (with_scope c sc) s (act_user a) sid eid = Inr (e, acc)"
    using assms(2) by (auto simp: reveal_def)
  then have "may_read_values sc (c, s, act_user a, sid, eid)" using assms(1) by (auto simp: may_read_values_def)
  then obtain e' acc' where g': "guardValues (with_scope c FULL_SCOPE) s (act_user a) sid eid = Inr (e', acc')"
    using value_scope.session_grants by (fastforce simp: may_read_values_def)
  have "e' = e" using guardValues_InrD(2) [OF g] guardValues_InrD(2) [OF g'] by simp
  then show ?thesis using assms(2) g g' by (simp add: reveal_def)
qed


text \<open>A set shared with the demonstration project, with one protected environment.\<close>

definition demo_env :: "string \<Rightarrow> string \<Rightarrow> bool \<Rightarrow> string \<Rightarrow> set_environment" where
  "demo_env i n p t = \<lparr>env_id = i, variableSetId = ''s'', env_name = n, protected = p, variablesEncrypted = Some t,
     keys = keysOf t, secretFlags = [], env_notes = extractNotes t, updatedAt = 10\<rparr>"

definition demo_vs :: vs_state where
  "demo_vs = \<lparr>people = demo_dir,
     sets = [\<lparr>vs_id = ''s'', vs_name = ''Shop'', vs_slug = ''shop'', description = None, sharedWithAll = False\<rparr>],
     shares = [(''s'', ''p'')],
     envs = [demo_env ''d'' ''development'' False ''A=1'', demo_env ''e'' ''production'' True ''A=2''],
     versions = [], links = [], owners = []\<rparr>"

definition demo_actor :: env_actor where
  "demo_actor = \<lparr>act_user = ''m'', act_email = None, act_via = ViaToken\<rparr>"

theorem token_reveal_within_session_witness:
  "\<exists>v. reveal (\<lambda>x. x) (with_scope demo_get FULL_SCOPE) demo_vs demo_actor ''s'' ''d'' = Inr v \<and> rv_variables v = ''A=1''"
proof -
  let ?sc = "\<lparr>readOnly = True, projectIds = Some [''p''], variableScopes = Some [''shop/development'']\<rparr>"
  let ?v = "\<lparr>rv_variables = ''A=1'', rv_keys = [''A''], rv_flags = ([], []), rv_notes = [], rv_updatedAt = 10\<rparr>"
  have "dir_ok (people demo_vs)" by code_simp
  moreover have "reveal (\<lambda>x. x) (with_scope demo_get ?sc) demo_vs demo_actor ''s'' ''d'' = Inr ?v" by code_simp
  ultimately show ?thesis
    using token_reveal_within_session [of demo_vs "\<lambda>x. x" demo_get ?sc demo_actor "''s''" "''d''" ?v] by simp
qed

section \<open>What a caller without the right learns\<close>

text \<open>Two states that differ at most in the sealed texts of one environment and of its versions.\<close>

definition blank_env :: "string \<Rightarrow> set_environment \<Rightarrow> set_environment" where
  "blank_env k e = (if env_id e = k then e\<lparr>variablesEncrypted := None\<rparr> else e)"

definition blank_version :: "string \<Rightarrow> env_version \<Rightarrow> env_version" where
  "blank_version k v = (if environmentId v = k then v\<lparr>ver_text := None\<rparr> else v)"

definition same_public :: "string \<Rightarrow> vs_state \<Rightarrow> vs_state \<Rightarrow> bool" where
  "same_public k s s' \<longleftrightarrow> people s' = people s \<and> sets s' = sets s \<and> shares s' = shares s \<and>
     map (blank_env k) (envs s') = map (blank_env k) (envs s) \<and>
     map (blank_version k) (versions s') = map (blank_version k) (versions s)"

lemma find_blank:
  assumes "map f xs = map f ys" and "\<And>x. P (f x) = P x"
  shows "map_option f (find P xs) = map_option f (find P ys)"
  using assms(1)
proof (induction xs arbitrary: ys)
  case (Cons x xs)
  then obtain y ys' where ys: "ys = y # ys'" "f x = f y" "map f xs = map f ys'" by (cases ys) auto
  then have "P x = P y" using assms(2) by metis
  then show ?case using Cons.IH [OF ys(3)] ys by simp
qed simp

lemma blank_env_simps [simp]:
  "env_id (blank_env k e) = env_id e" "variableSetId (blank_env k e) = variableSetId e"
  "env_name (blank_env k e) = env_name e" "protected (blank_env k e) = protected e" "keys (blank_env k e) = keys e"
  by (simp_all add: blank_env_def)

lemma blank_env_eqD:
  assumes "blank_env k e = blank_env k e'"
  shows "env_id e = env_id e'" "env_name e = env_name e'" "protected e = protected e'" "keys e = keys e'"
    "env_id e \<noteq> k \<Longrightarrow> e = e'"
proof -
  show id: "env_id e = env_id e'" using arg_cong [OF assms, of env_id] by simp
  show "env_name e = env_name e'" using arg_cong [OF assms, of env_name] by simp
  show "protected e = protected e'" using arg_cong [OF assms, of protected] by simp
  show "keys e = keys e'" using arg_cong [OF assms, of keys] by simp
  show "env_id e \<noteq> k \<Longrightarrow> e = e'" using assms id by (simp add: blank_env_def)
qed

lemma same_public_load: "same_public k s s' \<Longrightarrow> load_set req s' uid sid = load_set req s uid sid"
  by (simp add: same_public_def load_set_def sharedProjectIds_def Let_def cong: option.case_cong)

lemma same_public_findInSet:
  assumes "same_public k s s'"
  shows "(case findInSet s eid sid of Inl x \<Rightarrow> findInSet s' eid sid = Inl x
     | Inr e \<Rightarrow> \<exists>e'. findInSet s' eid sid = Inr e' \<and> blank_env k e = blank_env k e')"
proof -
  have "map_option (blank_env k) (find (\<lambda>e. env_id e = eid \<and> variableSetId e = sid) (envs s'))
      = map_option (blank_env k) (find (\<lambda>e. env_id e = eid \<and> variableSetId e = sid) (envs s))"
    by (rule find_blank) (use assms in \<open>simp_all add: same_public_def\<close>)
  then show ?thesis
    by (cases "find (\<lambda>e. env_id e = eid \<and> variableSetId e = sid) (envs s)";
        cases "find (\<lambda>e. env_id e = eid \<and> variableSetId e = sid) (envs s')") (auto simp: findInSet_def)
qed

lemma same_public_findByName:
  assumes "same_public k s s'"
  shows "(case findByName s sid n of Inl x \<Rightarrow> findByName s' sid n = Inl x
     | Inr e \<Rightarrow> \<exists>e'. findByName s' sid n = Inr e' \<and> blank_env k e = blank_env k e')"
proof -
  have "map_option (blank_env k) (find (\<lambda>e. variableSetId e = sid \<and> env_name e = n) (envs s'))
      = map_option (blank_env k) (find (\<lambda>e. variableSetId e = sid \<and> env_name e = n) (envs s))"
    by (rule find_blank) (use assms in \<open>simp_all add: same_public_def\<close>)
  then show ?thesis
    by (cases "find (\<lambda>e. variableSetId e = sid \<and> env_name e = n) (envs s)";
        cases "find (\<lambda>e. variableSetId e = sid \<and> env_name e = n) (envs s')") (auto simp: findByName_def)
qed

lemma same_public_textOf:
  assumes "same_public k s s'" and "eid \<noteq> k"
  shows "textOf dc s' eid = textOf dc s eid"
proof -
  have "map_option (blank_env k) (find (\<lambda>e. env_id e = eid) (envs s')) = map_option (blank_env k) (find (\<lambda>e. env_id e = eid) (envs s))"
    by (rule find_blank) (use assms(1) in \<open>simp_all add: same_public_def\<close>)
  then show ?thesis using assms(2)
    by (cases "find (\<lambda>e. env_id e = eid) (envs s')"; cases "find (\<lambda>e. env_id e = eid) (envs s)")
      (auto simp: textOf_def blank_env_def dest!: find_SomeD split: if_splits)
qed

lemma mayUseValues_blank:
  assumes "blank_env k e = blank_env k e'"
  shows "mayUseValues req a e = mayUseValues req a e'"
  unfolding mayUseValues_def blank_env_eqD(2) [OF assms] blank_env_eqD(3) [OF assms] ..

lemma env_diff_of_blank:
  assumes "same_public k s s'" and f: "blank_env k f = blank_env k f'" and t: "blank_env k t = blank_env k t'"
    and no: "\<And>x. env_id x = k \<Longrightarrow> x \<in> {f, t} \<Longrightarrow> \<not> mayUseValues req a x"
  shows "env_diff_of dc req s' a f' t' = env_diff_of dc req s a f t"
proof (cases "mayUseValues req a f \<and> mayUseValues req a t")
  case True
  then have "env_id f \<noteq> k" "env_id t \<noteq> k" using no by blast+
  then have "f' = f" "t' = t" using blank_env_eqD(5) [OF f] blank_env_eqD(5) [OF t] by auto
  then show ?thesis using same_public_textOf [OF assms(1)] \<open>env_id f \<noteq> k\<close> \<open>env_id t \<noteq> k\<close> by (simp add: env_diff_of_def)
next
  case False
  then show ?thesis
    unfolding env_diff_of_def mayUseValues_blank [OF f, of req a] mayUseValues_blank [OF t, of req a]
      blank_env_eqD(1,2,4) [OF f] blank_env_eqD(1,2,4) [OF t] by (simp only: if_False)
qed

lemma findByName_InrD:
  assumes "findByName s sid n = Inr e"
  shows "e \<in> set (envs s)" "variableSetId e = sid"
  using assms by (auto simp: findByName_def dest!: find_SomeD split: option.splits)

lemma diff_blank:
  assumes pub: "same_public eid s s'" and load: "load_set req s uid sid = Inr a" and env: "findInSet s eid sid = Inr e"
    and no: "\<not> mayUseValues req a e" and ids: "distinct (map env_id (envs s))"
  shows "diff dc req s' uid sid n1 n2 = diff dc req s uid sid n1 n2"
proof (cases "findByName s sid n1")
  case (Inl x)
  then show ?thesis using same_public_findByName [OF pub, of sid n1] load
    by (simp add: diff_def same_public_load [OF pub])
next
  case f: (Inr f)
  obtain f' where f': "findByName s' sid n1 = Inr f'" "blank_env eid f = blank_env eid f'"
    using same_public_findByName [OF pub, of sid n1] f by auto
  show ?thesis
  proof (cases "findByName s sid n2")
    case (Inl x)
    then show ?thesis using same_public_findByName [OF pub, of sid n2] load f f'
      by (simp add: diff_def same_public_load [OF pub])
  next
    case t: (Inr t)
    obtain t' where t': "findByName s' sid n2 = Inr t'" "blank_env eid t = blank_env eid t'"
      using same_public_findByName [OF pub, of sid n2] t by auto
    have "\<not> mayUseValues req a x" if "env_id x = eid" "x \<in> {f, t}" for x
    proof -
      have "x \<in> set (envs s)" using that findByName_InrD(1) [OF f] findByName_InrD(1) [OF t] by auto
      then have "x = e" using ids that(1) findInSet_InrD [OF env] by (auto simp: distinct_map dest: inj_onD)
      then show ?thesis using no by simp
    qed
    then show ?thesis using env_diff_of_blank [OF pub f'(2) t'(2)] load f f' t t'
      by (simp add: diff_def same_public_load [OF pub])
  qed
qed

text \<open>
  C13: a caller who may not use an environment's values learns nothing about them.  In two states that
  differ only in the sealed texts of that environment and of its versions, revealing it, revealing any of
  its versions and comparing any two environments of the set give the same answers.
\<close>

theorem no_value_leak:
  assumes pub: "same_public eid s s'" and load: "load_set req s (act_user u) sid = Inr a"
    and env: "findInSet s eid sid = Inr e" and no: "\<not> mayUseValues req a e" and ids: "distinct (map env_id (envs s))"
  shows "reveal dc req s' u sid eid = reveal dc req s u sid eid \<and>
     revealVersion dc req s' u sid eid vid = revealVersion dc req s u sid eid vid \<and>
     diff dc req s' (act_user u) sid n1 n2 = diff dc req s (act_user u) sid n1 n2"
proof -
  obtain e' where e': "findInSet s' eid sid = Inr e'" "blank_env eid e = blank_env eid e'"
    using same_public_findInSet [OF pub, of eid sid] env by auto
  have "assertValues req a e' = assertValues req a e"
    using blank_env_eqD(2,3) [OF e'(2)] by (simp add: assertValues_def)
  moreover have "assertValues req a e \<noteq> Inr ()" using no by (simp add: assertValues_iff)
  then obtain x where "assertValues req a e = Inl x" by (cases "assertValues req a e") auto
  ultimately have "guardValues req s' (act_user u) sid eid = Inl x" "guardValues req s (act_user u) sid eid = Inl x"
    using load env e'(1) by (simp_all add: guardValues_def same_public_load [OF pub])
  then show ?thesis using diff_blank [OF pub load env no ids] by (simp add: reveal_def revealVersion_def)
qed

theorem no_value_leak_witness:
  "\<forall>n1 n2. diff (\<lambda>x. x) None (demo_vs\<lparr>envs := [demo_env ''d'' ''development'' False ''A=1'',
       (demo_env ''e'' ''production'' True ''A=2'')\<lparr>variablesEncrypted := Some ''A=1''\<rparr>]\<rparr>) ''m'' ''s'' n1 n2
     = diff (\<lambda>x. x) None demo_vs ''m'' ''s'' n1 n2"
proof -
  let ?s' = "demo_vs\<lparr>envs := [demo_env ''d'' ''development'' False ''A=1'',
       (demo_env ''e'' ''production'' True ''A=2'')\<lparr>variablesEncrypted := Some ''A=1''\<rparr>]\<rparr>"
  let ?e = "demo_env ''e'' ''production'' True ''A=2''"
  let ?a = "case load_set None demo_vs ''m'' ''s'' of Inr a \<Rightarrow> a"
  have "same_public ''e'' demo_vs ?s'" by code_simp
  moreover have "load_set None demo_vs (act_user demo_actor) ''s'' = Inr ?a" by code_simp
  moreover have "findInSet demo_vs ''e'' ''s'' = Inr ?e" by code_simp
  moreover have "\<not> mayUseValues None ?a ?e" by code_simp
  moreover have "distinct (map env_id (envs demo_vs))" by code_simp
  ultimately have "diff (\<lambda>x. x) None ?s' (act_user demo_actor) ''s'' n1 n2 = diff (\<lambda>x. x) None demo_vs (act_user demo_actor) ''s'' n1 n2"
    for n1 n2 using no_value_leak by blast
  then show ?thesis by (simp add: demo_actor_def)
qed

end
