(* ===== verification/Retention.thy ===== *)
theory Retention
  imports Prelude
begin

text \<open>
  Retention: every history of the program keeps its newest rows and drops the rest.  The locale states
  what such a clean-up promises and proves what its callers rely on; it is interpreted on the clean-ups of
  job runs (\<open>job-runner.service.ts\<close>), database, volume and instance backups
  (\<open>database-backup.service.ts\<close>, \<open>volume-backup.service.ts\<close>, \<open>instance-backup.service.ts\<close>) here, and
  on the version history of variable sets in its own theory.
\<close>

section \<open>The contract\<close>

locale retention =
  fixes wf :: "'r list \<Rightarrow> bool" and candidate :: "'r \<Rightarrow> bool" and stamp :: "'r \<Rightarrow> 'k :: linorder" and limit :: nat
    and prune :: "'r list \<Rightarrow> 'r list"
  assumes wf_distinct: "wf rows \<Longrightarrow> distinct rows"
    and wf_prune: "wf rows \<Longrightarrow> wf (prune rows)"
    and subset: "set (prune rows) \<subseteq> set rows"
    and others: "r \<in> set rows \<Longrightarrow> \<not> candidate r \<Longrightarrow> r \<in> set (prune rows)"
    and count: "wf rows \<Longrightarrow>
      length (filter candidate (prune rows)) = min limit (length (filter candidate rows))"
    and newest: "wf rows \<Longrightarrow> x \<in> set (prune rows) \<Longrightarrow> candidate x \<Longrightarrow>
      y \<in> set rows \<Longrightarrow> y \<notin> set (prune rows) \<Longrightarrow> stamp y \<le> stamp x"
begin

lemma bounded: "wf rows \<Longrightarrow> length (filter candidate (prune rows)) \<le> limit"
  by (simp add: count)

text \<open>The newest row survives any limit of at least one.\<close>

lemma newest_kept:
  assumes "wf rows" and "0 < limit" and "x \<in> set rows" and "candidate x"
    and "\<forall>y \<in> set rows. candidate y \<longrightarrow> y \<noteq> x \<longrightarrow> stamp y < stamp x"
  shows "x \<in> set (prune rows)"
proof (rule ccontr)
  assume no: "x \<notin> set (prune rows)"
  have "0 < length (filter candidate rows)" using assms(3,4) by (simp add: filter_empty_conv) blast
  then have "filter candidate (prune rows) \<noteq> []" using count [OF assms(1)] assms(2) by (metis length_greater_0_conv min_less_iff_conj)
  then obtain z where z: "z \<in> set (prune rows)" "candidate z" by (auto simp: filter_empty_conv)
  then have "stamp x \<le> stamp z" using newest [OF assms(1) z assms(3) no] by simp
  moreover have "z \<in> set rows" "z \<noteq> x" using z subset no by blast+
  ultimately show False using assms(5) z(2) by fastforce
qed

text \<open>Nothing is dropped while there are few rows, and a second run drops nothing.\<close>

lemma few_kept:
  assumes "wf rows" and "length (filter candidate rows) \<le> limit"
  shows "set (prune rows) = set rows"
proof -
  let ?a = "filter candidate (prune rows)" and ?b = "filter candidate rows"
  have "length ?a = length ?b" using count [OF assms(1)] assms(2) by simp
  moreover have "set ?a \<subseteq> set ?b" using subset by auto
  moreover have "distinct ?a" "distinct ?b" using assms(1) wf_distinct wf_prune by auto
  ultimately have "set ?a = set ?b" by (metis List.finite_set card_subset_eq distinct_card)
  then have "x \<in> set (prune rows)" if "x \<in> set rows" for x using that others [of x rows] by (cases "candidate x") auto
  then show ?thesis using subset [of rows] by blast
qed

lemma idempotent: "wf rows \<Longrightarrow> set (prune (prune rows)) = set (prune rows)"
  using few_kept [OF wf_prune, of rows] bounded by blast

end

section \<open>\<open>order DESC, skip n\<close>, then remove\<close>

definition newest_by :: "('r \<Rightarrow> 'k :: linorder) \<Rightarrow> 'r list \<Rightarrow> 'r list" where
  "newest_by key rows = rev (sort_key key rows)"

definition remove_beyond :: "('r \<Rightarrow> bool) \<Rightarrow> ('r \<Rightarrow> 'k :: linorder) \<Rightarrow> nat \<Rightarrow> 'r list \<Rightarrow> 'r list" where
  "remove_beyond P key n rows = (let old = drop n (newest_by key (filter P rows))
     in filter (\<lambda>r. r \<notin> set old) rows)"

lemma newest_by_simps [simp]:
  "set (newest_by key rows) = set rows" "length (newest_by key rows) = length rows"
  "distinct (newest_by key rows) = distinct rows"
  by (simp_all add: newest_by_def)

lemma newest_by_order:
  assumes "i < j" and "j < length rows"
  shows "key (newest_by key rows ! j) \<le> key (newest_by key rows ! i)"
proof -
  let ?s = "sort_key key rows"
  have "sorted (map key ?s)" by simp
  moreover have "length ?s - Suc j \<le> length ?s - Suc i" "length ?s - Suc i < length ?s" using assms by auto
  ultimately have "key (?s ! (length ?s - Suc j)) \<le> key (?s ! (length ?s - Suc i))"
    using sorted_nth_mono [of "map key ?s" "length ?s - Suc j" "length ?s - Suc i"] by simp
  then show ?thesis using assms by (simp add: newest_by_def rev_nth)
qed

lemma newest_by_take_drop:
  assumes "x \<in> set (take n (newest_by key rows))" and "y \<in> set (drop n (newest_by key rows))"
  shows "key y \<le> key x"
proof -
  obtain i where i: "i < n" "i < length rows" "newest_by key rows ! i = x" using assms(1) by (auto simp: in_set_conv_nth)
  obtain j where j: "n + j < length rows" "newest_by key rows ! (n + j) = y"
    using assms(2) by (fastforce simp: in_set_conv_nth less_diff_conv add.commute)
  show ?thesis using newest_by_order [of i "n + j" rows key] i j by auto
qed

lemma take_iff_not_drop: "distinct xs \<Longrightarrow> x \<in> set xs \<Longrightarrow> x \<in> set (take n xs) \<longleftrightarrow> x \<notin> set (drop n xs)"
  by (metis Un_iff append_take_drop_id disjoint_iff distinct_append set_append)

lemma remove_beyond_candidates:
  assumes "distinct rows"
  shows "set (filter P (remove_beyond P key n rows)) = set (take n (newest_by key (filter P rows)))"
proof -
  let ?c = "newest_by key (filter P rows)"
  have d: "distinct ?c" using assms by simp
  have "x \<in> set (take n ?c) \<longleftrightarrow> x \<in> set ?c \<and> x \<notin> set (drop n ?c)" for x
    using take_iff_not_drop [OF d, of x n] set_take_subset [of n ?c] by blast
  then show ?thesis by (auto simp: remove_beyond_def Let_def)
qed

lemma remove_beyond_retention: "retention distinct P key n (remove_beyond P key n)"
proof
  fix rows :: "'a list"
  show "set (remove_beyond P key n rows) \<subseteq> set rows" by (auto simp: remove_beyond_def Let_def)
  show "distinct rows \<Longrightarrow> distinct rows" .
  show "distinct rows \<Longrightarrow> distinct (remove_beyond P key n rows)" by (simp add: remove_beyond_def Let_def)
  show "r \<in> set rows \<Longrightarrow> \<not> P r \<Longrightarrow> r \<in> set (remove_beyond P key n rows)" for r
    using set_drop_subset [of n "newest_by key (filter P rows)"] by (auto simp: remove_beyond_def Let_def)
  show "length (filter P (remove_beyond P key n rows)) = min n (length (filter P rows))" if "distinct rows"
  proof -
    have "distinct (filter P (remove_beyond P key n rows))" using that by (simp add: remove_beyond_def Let_def)
    then have "length (filter P (remove_beyond P key n rows)) = card (set (take n (newest_by key (filter P rows))))"
      using remove_beyond_candidates [OF that, of P key n] distinct_card by metis
    also have "\<dots> = length (take n (newest_by key (filter P rows)))" using that by (intro distinct_card) simp
    finally show ?thesis by (simp add: min.commute)
  qed
  show "key y \<le> key x" if d: "distinct rows" and x: "x \<in> set (remove_beyond P key n rows)" "P x"
    and y: "y \<in> set rows" "y \<notin> set (remove_beyond P key n rows)" for x y
  proof -
    have "x \<in> set (take n (newest_by key (filter P rows)))" using remove_beyond_candidates [OF d, of P key n] x by auto
    moreover have "y \<in> set (drop n (newest_by key (filter P rows)))" using y by (auto simp: remove_beyond_def Let_def)
    ultimately show ?thesis by (rule newest_by_take_drop)
  qed
qed

lemmas beyond_laws =
  retention.count [OF remove_beyond_retention] retention.newest [OF remove_beyond_retention]

section \<open>Job runs\<close>

definition JOB_RUN_KEEP :: nat where "JOB_RUN_KEEP = 50"

datatype run_trigger = Manual | Scheduled

datatype job_run_status = JRunning | JSuccess | JFailed | JTimeout

record job_run =
  run_id :: string
  jobId :: string
  run_status :: job_run_status
  run_trigger :: run_trigger
  exitCode :: "int option"
  run_output :: string
  startedAt :: int
  run_finishedAt :: "int option"

definition prune_job_runs :: "string \<Rightarrow> job_run list \<Rightarrow> job_run list" where
  "prune_job_runs jid rows = remove_beyond (\<lambda>r. jobId r = jid) startedAt JOB_RUN_KEEP rows"

interpretation job_runs: retention distinct "\<lambda>r. jobId r = jid" startedAt JOB_RUN_KEEP "prune_job_runs jid" for jid
  using remove_beyond_retention [of "\<lambda>r. jobId r = jid" startedAt JOB_RUN_KEEP]
  by (simp add: prune_job_runs_def [abs_def])

section \<open>Backups\<close>

datatype backup_status = BRunning | BSuccess | BFailed

datatype backup_scope = PrimaryDatabase | AllDatabases

record backup_row =
  backup_id :: string
  backup_of :: string
  filename :: string
  backup_status :: backup_status
  trigger :: run_trigger
  backup_scope :: backup_scope
  sizeBytes :: "nat option"
  destinationId :: "string option"
  remoteKey :: "string option"
  backup_error :: "string option"
  backup_createdAt :: int
  backup_finishedAt :: "int option"

definition prunable :: "string \<Rightarrow> backup_row \<Rightarrow> bool" where
  "prunable owner b \<longleftrightarrow> backup_of b = owner \<and> trigger b = Scheduled \<and> backup_status b = BSuccess"

text \<open>Backups of a database or of a mount; the file may stay behind, the row goes.\<close>

definition prune_backups :: "string \<Rightarrow> nat \<Rightarrow> backup_row list \<Rightarrow> backup_row list" where
  "prune_backups owner keep rows = remove_beyond (prunable owner) backup_createdAt (max keep 1) rows"

interpretation backups: retention distinct "prunable owner" backup_createdAt "max keep 1" "prune_backups owner keep" for owner keep
  using remove_beyond_retention [of "prunable owner" backup_createdAt "max keep 1"]
  by (simp add: prune_backups_def [abs_def])

text \<open>Snapshots of the instance: when deleting one throws, its row stays.\<close>

definition prune_instance :: "(backup_row \<Rightarrow> bool) \<Rightarrow> nat \<Rightarrow> backup_row list \<Rightarrow> backup_row list" where
  "prune_instance fails keep rows =
     (let old = drop (max keep 1) (newest_by backup_createdAt
            (filter (\<lambda>b. trigger b = Scheduled \<and> backup_status b = BSuccess) rows))
      in filter (\<lambda>r. \<not> (r \<in> set old \<and> \<not> fails r)) rows)"

interpretation snapshots: retention distinct "\<lambda>b. trigger b = Scheduled \<and> backup_status b = BSuccess" backup_createdAt
    "max keep 1" "prune_instance (\<lambda>_. False) keep" for keep
proof -
  have "prune_instance (\<lambda>_. False) keep = remove_beyond (\<lambda>b. trigger b = Scheduled \<and> backup_status b = BSuccess)
      backup_createdAt (max keep 1)" for keep
    by (simp add: prune_instance_def remove_beyond_def fun_eq_iff)
  then show "retention distinct (\<lambda>b. trigger b = Scheduled \<and> backup_status b = BSuccess) backup_createdAt (max keep 1)
      (prune_instance (\<lambda>_. False) keep)" using remove_beyond_retention by metis
qed


definition demo_backup :: "string \<Rightarrow> int \<Rightarrow> backup_row" where
  "demo_backup i t = \<lparr>backup_id = i, backup_of = ''db'', filename = i, backup_status = BSuccess, trigger = Scheduled,
     backup_scope = PrimaryDatabase, sizeBytes = None, destinationId = None, remoteKey = None, backup_error = None,
     backup_createdAt = t, backup_finishedAt = None\<rparr>"


end
