(* ===== verification/Variable_History.thy ===== *)
theory Variable_History
  imports Variable_Set_Laws Retention
begin

text \<open>
  The version history of an environment: bounded, newest entry equal to the current content, and able to
  undo the first recorded change.
\<close>

section \<open>Pruning by id\<close>

abbreviation version_key :: "env_version \<Rightarrow> int \<times> string" where
  "version_key v \<equiv> (createdAt v, ver_id v)"

abbreviation versions_wf :: "env_version list \<Rightarrow> bool" where
  "versions_wf vs \<equiv> distinct (map ver_id vs)"

lemma prune_versions_remove_beyond:
  assumes "versions_wf vs"
  shows "prune_versions eid vs = remove_beyond (\<lambda>v. environmentId v = eid) version_key ENV_VERSION_KEEP vs"
proof -
  let ?c = "newest_by version_key (filter (\<lambda>v. environmentId v = eid) vs)"
  have d: "distinct ?c" using assms by (auto simp: distinct_map intro: distinct_filter)
  have inj: "inj_on ver_id (set vs)" using assms by (simp add: distinct_map)
  have "(environmentId v \<noteq> eid \<or> ver_id v \<in> set (map ver_id (take ENV_VERSION_KEEP ?c))) \<longleftrightarrow> v \<notin> set (drop ENV_VERSION_KEEP ?c)"
    if v: "v \<in> set vs" for v
  proof (cases "environmentId v = eid")
    case True
    then have vc: "v \<in> set ?c" using v by simp
    have "ver_id v \<in> ver_id ` set (take ENV_VERSION_KEEP ?c) \<longleftrightarrow> v \<in> set (take ENV_VERSION_KEEP ?c)"
    proof -
      have "set (take ENV_VERSION_KEEP ?c) \<subseteq> set vs" using set_take_subset [of ENV_VERSION_KEEP ?c] by auto
      then show ?thesis using inj_on_image_mem_iff [OF inj v] by simp
    qed
    then show ?thesis using take_iff_not_drop [OF d vc] True by simp
  next
    case False
    then have "v \<notin> set (drop ENV_VERSION_KEEP ?c)" using set_drop_subset [of ENV_VERSION_KEEP ?c] by auto
    then show ?thesis using False by simp
  qed
  then show ?thesis
    unfolding prune_versions_def remove_beyond_def Let_def newest_first_def newest_by_def [symmetric]
    by (intro filter_cong) auto
qed

lemma versions_distinct: "versions_wf vs \<Longrightarrow> distinct vs"
  by (simp add: distinct_map)

interpretation version_history: retention versions_wf "\<lambda>v. environmentId v = eid" version_key ENV_VERSION_KEEP "prune_versions eid" for eid
proof
  fix rows :: "env_version list"
  show "versions_wf rows \<Longrightarrow> distinct rows" by (rule versions_distinct)
  show "versions_wf rows \<Longrightarrow> versions_wf (prune_versions eid rows)"
    by (simp add: prune_versions_def Let_def distinct_map_filter)
  show "set (prune_versions eid rows) \<subseteq> set rows" by (auto simp: prune_versions_def Let_def)
  show "r \<in> set rows \<Longrightarrow> environmentId r \<noteq> eid \<Longrightarrow> r \<in> set (prune_versions eid rows)" for r
    by (simp add: prune_versions_def Let_def)
  show "versions_wf rows \<Longrightarrow> length (filter (\<lambda>v. environmentId v = eid) (prune_versions eid rows))
      = min ENV_VERSION_KEEP (length (filter (\<lambda>v. environmentId v = eid) rows))"
    using beyond_laws(1) [OF versions_distinct] prune_versions_remove_beyond by metis
  show "versions_wf rows \<Longrightarrow> x \<in> set (prune_versions eid rows) \<Longrightarrow> environmentId x = eid \<Longrightarrow>
      y \<in> set rows \<Longrightarrow> y \<notin> set (prune_versions eid rows) \<Longrightarrow> version_key y \<le> version_key x" for x y
    using beyond_laws(2) [OF versions_distinct, of rows x "\<lambda>v. environmentId v = eid" version_key ENV_VERSION_KEEP y]
    by (simp add: prune_versions_remove_beyond)
qed

section \<open>The newest version\<close>

lemma hd_newest_first:
  assumes "v \<in> set vs" and "\<forall>x \<in> set vs. x \<noteq> v \<longrightarrow> version_key x < version_key v"
  shows "newest_first vs \<noteq> [] \<and> hd (newest_first vs) = v"
proof -
  let ?n = "newest_by version_key vs"
  have ne: "?n \<noteq> []" using assms(1) newest_by_simps(1) [of version_key vs] by (metis list.set(1) empty_iff)
  obtain j where j: "j < length vs" "?n ! j = v"
    using assms(1) newest_by_simps(1,2) [of version_key vs] by (metis in_set_conv_nth)
  have "?n ! 0 \<in> set vs" using assms(1) nth_mem [of 0 ?n] by (cases vs) auto
  have "?n ! 0 = v"
  proof (rule ccontr)
    assume "?n ! 0 \<noteq> v"
    then have "0 < j" using j by (metis neq0_conv)
    then have "version_key v \<le> version_key (?n ! 0)" using newest_by_order [of 0 j vs version_key] j by simp
    then show False using assms(2) \<open>?n ! 0 \<in> set vs\<close> \<open>?n ! 0 \<noteq> v\<close> by (meson leD)
  qed
  then show ?thesis using ne by (simp add: newest_first_def newest_by_def hd_conv_nth)
qed

text \<open>New ids are pairwise different and not in use.\<close>

definition ids_new :: "vs_env \<Rightarrow> vs_state \<Rightarrow> bool" where
  "ids_new w s \<longleftrightarrow> inj (new_ids w) \<and> (\<forall>i. new_ids w i \<notin> ver_id ` set (versions s) \<and>
     new_ids w i \<notin> env_id ` set (envs s) \<and> new_ids w i \<notin> vs_id ` set (sets s))"

lemma commit_versions:
  assumes "commit w e oldText text patch a act det s = (s', row, fl)" and "really_changed e oldText text patch"
  obtains v where "versions s' = prune_versions (env_id e) (versions s @
      (if versions_of s (env_id e) = [] \<and> trim oldText \<noteq> [] then [baseline_version w e oldText] else []) @ [v])"
    "ver_id v = new_ids w 1" "environmentId v = env_id e" "createdAt v = now w"
    "ver_text v = seal_text (enc w) (nonces w 1) text" "ver_flags v = secretFlags (commit_new w e text patch)"
  using assms by (auto elim!: commit_shape)

lemma added_wf:
  assumes "versions_wf (versions s)" and "ids_new w s" and "ver_id v = new_ids w 1"
  shows "versions_wf (versions s @ (if c then [baseline_version w e oldText] else []) @ [v])"
proof -
  have "new_ids w 0 \<noteq> new_ids w 1" using assms(2) by (auto simp: ids_new_def dest: injD)
  moreover have "new_ids w 0 \<notin> ver_id ` set (versions s)" "new_ids w 1 \<notin> ver_id ` set (versions s)"
    using assms(2) by (auto simp: ids_new_def)
  ultimately show ?thesis using assms(1,3) by (auto simp: baseline_version_def)
qed

text \<open>
  C17: after an edit that changes something, the history holds at most fifty versions of the environment,
  and its newest one, by time and id, is the content just written, text and flags alike, provided the
  clock has moved past the stored times.
\<close>

theorem newest_version_is_current:
  assumes w: "sealing_ok w" "ids_new w s" and ok: "distinct (map env_id (envs s))" "versions_wf (versions s)"
    and up: "update_environment w req a sid eid variables expected patch act s = Inr (s', row)"
    and changed: "normalizeText (textOf (dec w) s eid) \<noteq> normalizeText variables"
    and clock: "\<forall>e \<in> set (envs s). updatedAt e < now w" "\<forall>v \<in> set (versions s). createdAt v < now w"
  shows "length (versions_of s' eid) \<le> ENV_VERSION_KEEP \<and>
    open_text (dec w) (ver_text (hd (newest_first (versions_of s' eid)))) = stored_text variables \<and>
    ver_flags (hd (newest_first (versions_of s' eid))) = secretFlags row"
proof -
  obtain e acc fl act' where f: "findInSet s eid sid = Inr e"
    and c: "commit w e (textOf (dec w) s eid) variables patch a act' None s = (s', row, fl)"
    using update_InrD [OF up] by blast
  have id: "env_id e = eid" "e \<in> set (envs s)" using findInSet_InrD [OF f] by auto
  have "really_changed e (textOf (dec w) s eid) variables patch" using changed by (simp add: really_changed_def)
  then obtain v where vs: "versions s' = prune_versions eid (versions s @
      (if versions_of s eid = [] \<and> trim (textOf (dec w) s eid) \<noteq> [] then [baseline_version w e (textOf (dec w) s eid)] else []) @ [v])"
    and v: "ver_id v = new_ids w 1" "environmentId v = eid" "createdAt v = now w"
      "ver_text v = seal_text (enc w) (nonces w 1) variables" "ver_flags v = secretFlags (commit_new w e variables patch)"
    using commit_versions [OF c] id(1) by metis
  define all where "all = versions s @ (if versions_of s eid = [] \<and> trim (textOf (dec w) s eid) \<noteq> []
      then [baseline_version w e (textOf (dec w) s eid)] else []) @ [v]"
  have wf: "versions_wf all" unfolding all_def by (rule added_wf [OF ok(2) w(2) v(1)])
  have vsall: "versions s' = prune_versions eid all" unfolding all_def by (rule vs)
  have late: "version_key x < version_key v" if "x \<in> set all" "x \<noteq> v" for x
    using that clock id(2) v(3) by (auto simp: all_def baseline_version_def less_prod_def split: if_splits)
  have "v \<in> set (prune_versions eid all)"
    by (rule version_history.newest_kept [OF wf]) (use v(2) late in \<open>auto simp: all_def ENV_VERSION_KEEP_def\<close>)
  then have mem: "v \<in> set (versions_of s' eid)" using v(2) by (simp add: versions_of_def vsall)
  have "x \<in> set all" if "x \<in> set (versions_of s' eid)" for x
    using that version_history.subset [of eid all] by (auto simp: versions_of_def vsall)
  then have "hd (newest_first (versions_of s' eid)) = v" using hd_newest_first [OF mem] late by blast
  moreover have "length (versions_of s' eid) \<le> ENV_VERSION_KEEP"
    using version_history.bounded [OF wf, of eid] by (simp add: versions_of_def vsall)
  ultimately show ?thesis using open_seal [OF w(1)] v(4,5) commit_frame(7) [OF c] by (simp add: commit_row_fields)
qed


theorem newest_version_is_current_witness:
  "let s' = result_of (update_environment (demo_world 20) None demo_actor ''s'' ''d'' ''B=2'' None [] None demo_vs2) demo_vs2
   in open_text tl (ver_text (hd (newest_first (versions_of s' ''d'')))) = ''B=2''"
proof -
  let ?u = "update_environment (demo_world 20) None demo_actor ''s'' ''d'' ''B=2'' None [] None demo_vs2"
  let ?row = "case ?u of Inr (x, y) \<Rightarrow> y"
  have "ids_new (demo_world 20) demo_vs2"
  proof -
    have "inj (new_ids (demo_world 20))"
      by (rule injI) (simp add: demo_world_def, metis str_val_nat_str)
    moreover have "new_ids (demo_world 20) i \<noteq> x" if "x \<in> {''d'', ''e'', ''s''}" for i x
    proof -
      have "hd (new_ids (demo_world 20) i) = CHR ''2''"
        using nat_str.simps [of 20] nat_str.simps [of 2] by (simp add: demo_world_def) code_simp
      then show ?thesis using that by auto
    qed
    ultimately show ?thesis by (auto simp: ids_new_def demo_vs2_def demo_vs_def demo_env_def)
  qed
  moreover have "distinct (map env_id (envs demo_vs2))" by code_simp
  moreover have "versions_wf (versions demo_vs2)" by code_simp
  moreover have "?u = Inr (result_of ?u demo_vs2, ?row)" by code_simp
  moreover have "normalizeText (textOf (dec (demo_world 20)) demo_vs2 ''d'') \<noteq> normalizeText ''B=2''" by code_simp
  moreover have "\<forall>e \<in> set (envs demo_vs2). updatedAt e < now (demo_world 20)" by code_simp
  moreover have "\<forall>v \<in> set (versions demo_vs2). createdAt v < now (demo_world 20)" by code_simp
  moreover have "stored_text ''B=2'' = ''B=2''" by code_simp
  moreover have "dec (demo_world 20) = tl" by (simp add: demo_world_def)
  ultimately show ?thesis using newest_version_is_current [OF demo_world_ok] unfolding Let_def by metis
qed

end
