(* ===== verification/Log_Redaction.thy ===== *)
theory Log_Redaction
  imports Env_Text "HOL-Library.Sublist"
begin

text \<open>
  Masking of secrets in logs (\<open>application/log-redaction.ts\<close>): the redactor with its raw and URL-encoded
  forms, and the stream redactor that holds back the tail of a chunk which may still become a secret.
  The laws: masking leaves no registered secret behind, and masking a stream chunk by chunk gives the same
  text as masking it at once.
\<close>

section \<open>\<open>encodeURIComponent\<close>\<close>

text \<open>On code units up to U+00FF: UTF-8 bytes as percent escapes, except for the unreserved characters.\<close>

definition unreserved :: "char \<Rightarrow> bool" where
  "unreserved c \<longleftrightarrow> is_alpha c \<or> is_digit c \<or> c \<in> set ''-_.!~*()'' \<or> c = CHR 0x27"

definition hex_digit :: "nat \<Rightarrow> char" where
  "hex_digit n = ''0123456789ABCDEF'' ! n"

definition percent :: "nat \<Rightarrow> string" where
  "percent n = [CHR ''%'', hex_digit (n div 16), hex_digit (n mod 16)]"

definition encode_char :: "char \<Rightarrow> string" where
  "encode_char c = (let n = of_char c :: nat in
     if unreserved c then [c]
     else if n < 128 then percent n
     else percent (192 + n div 64) @ percent (128 + n mod 64))"

definition encodeURIComponent :: "string \<Rightarrow> string" where
  "encodeURIComponent s = concat (map encode_char s)"

section \<open>\<open>Redactor\<close>\<close>

record redactor =
  forms :: "string list"
  known :: "string list"

definition new_redactor :: redactor where
  "new_redactor = \<lparr>forms = [], known = []\<rparr>"

definition add_secret :: "string option \<Rightarrow> redactor \<Rightarrow> redactor" where
  "add_secret secret r = (case secret of
       None \<Rightarrow> r
     | Some s \<Rightarrow> if s = [] \<or> s \<in> set (known r) then r
         else \<lparr>forms = sort_key (\<lambda>f. - int (length f))
                  (filter (\<lambda>f. length f > 0) (nub (forms r @ [s, encodeURIComponent s]))),
               known = known r @ [s]\<rparr>)"

definition addAll :: "string list \<Rightarrow> redactor \<Rightarrow> redactor" where
  "addAll ss r = fold (\<lambda>s. add_secret (Some s)) ss r"

text \<open>\<open>text.indexOf(f, i)\<close>.\<close>

definition indexFrom :: "string \<Rightarrow> string \<Rightarrow> nat \<Rightarrow> nat option" where
  "indexFrom t f i = find (\<lambda>j. prefix f (drop j t)) [i..<Suc (length t)]"

text \<open>\<open>out.split(s)\<close> for a non-empty \<open>s\<close>, and \<open>join('***')\<close>.\<close>

function split_str :: "string \<Rightarrow> string \<Rightarrow> string list" where
  "split_str s t = (case indexFrom t s 0 of
       None \<Rightarrow> [t]
     | Some i \<Rightarrow> if s = [] then [t] else take i t # split_str s (drop (i + length s) t))"
  by auto
termination
proof (relation "measure (\<lambda>(s, t). length t)")
  fix s t i
  assume "indexFrom t s 0 = Some i" "s \<noteq> []"
  then have "prefix s (drop i t)" by (auto simp: indexFrom_def dest: find_SomeD)
  then have "length s \<le> length t - i" "s \<noteq> []" using \<open>s \<noteq> []\<close> by (auto dest: prefix_length_le)
  then show "((s, drop (i + length s) t), s, t) \<in> measure (\<lambda>(s, t). length t)" by (cases s) auto
qed simp

declare split_str.simps [simp del]

fun join_stars :: "string list \<Rightarrow> string" where
  "join_stars [] = []"
| "join_stars [p] = p"
| "join_stars (p # ps) = p @ ''***'' @ join_stars ps"

definition apply_forms :: "string list \<Rightarrow> string \<Rightarrow> string" where
  "apply_forms fs t = foldl (\<lambda>out s. if sublist s out then join_stars (split_str s out) else out) t fs"

definition apply_redactor :: "redactor \<Rightarrow> string \<Rightarrow> string" where
  "apply_redactor r t = apply_forms (forms r) t"

section \<open>\<open>StreamRedactor\<close>\<close>

text \<open>First loop of \<open>safeLength\<close>: the first suffix of the text that is a proper prefix of the form.\<close>

definition tail_start :: "string \<Rightarrow> string \<Rightarrow> nat option" where
  "tail_start t f = find (\<lambda>i. t ! i = hd f \<and> prefix (drop i t) f \<and> length t - i < length f)
     [Suc (length t) - length f..<length t]"

definition hold_back :: "string list \<Rightarrow> string \<Rightarrow> nat" where
  "hold_back fs t = foldl (\<lambda>cp f. case tail_start t f of None \<Rightarrow> cp | Some i \<Rightarrow> min cp i) (length t) fs"

text \<open>Second loop: a complete form across the cut moves the cut to its start, until none is left.\<close>

definition crossing :: "string \<Rightarrow> nat \<Rightarrow> string \<Rightarrow> nat option" where
  "crossing t cp f = find (\<lambda>s. prefix f (drop s t) \<and> cp < s + length f) [cp - length f..<cp]"

definition settle_pass :: "string \<Rightarrow> string list \<Rightarrow> nat \<Rightarrow> nat \<times> bool" where
  "settle_pass t fs cp = foldl (\<lambda>(c, moved) f. case crossing t c f of None \<Rightarrow> (c, moved) | Some s \<Rightarrow> (s, True))
     (cp, False) fs"

lemma crossing_SomeD: "crossing t cp f = Some s \<Longrightarrow> s < cp \<and> prefix f (drop s t) \<and> cp < s + length f"
  by (auto simp: crossing_def dest: find_SomeD)

lemma settle_fold_le:
  "foldl (\<lambda>(c, moved) f. case crossing t c f of None \<Rightarrow> (c, moved) | Some s \<Rightarrow> (s, True)) (cp, m) fs = (c', m') \<Longrightarrow>
   c' \<le> cp \<and> (m' \<longrightarrow> m \<or> c' < cp) \<and> (\<not> m' \<longrightarrow> \<not> m \<and> c' = cp \<and> (\<forall>f \<in> set fs. crossing t cp f = None))"
proof (induction fs arbitrary: cp m)
  case (Cons f fs)
  show ?case
  proof (cases "crossing t cp f")
    case None
    then show ?thesis using Cons.IH [of cp m] Cons.prems by simp
  next
    case (Some s)
    then have "s < cp" using crossing_SomeD by blast
    then show ?thesis using Cons.IH [of s True] Cons.prems Some by auto
  qed
qed auto

lemma settle_pass_less: "settle_pass t fs cp = (c', True) \<Longrightarrow> c' < cp"
  using settle_fold_le [of t cp False fs c' True] by (simp add: settle_pass_def)

lemma settle_pass_done:
  "settle_pass t fs cp = (c', False) \<Longrightarrow> c' = cp \<and> (\<forall>f \<in> set fs. crossing t cp f = None)"
  using settle_fold_le [of t cp False fs c' False] by (simp add: settle_pass_def)

function settle :: "string \<Rightarrow> string list \<Rightarrow> nat \<Rightarrow> nat" where
  "settle t fs cp = (case settle_pass t fs cp of (c, moved) \<Rightarrow> if moved then settle t fs c else c)"
  by auto
termination
  by (relation "measure (\<lambda>(t, fs, cp). cp)") (auto dest: settle_pass_less [OF sym])

declare settle.simps [simp del]

definition safeLength :: "redactor \<Rightarrow> string \<Rightarrow> nat" where
  "safeLength r t = settle t (forms r) (hold_back (forms r) t)"

text \<open>\<open>push\<close> and \<open>flush\<close>: the new pending text and what is emitted.\<close>

definition push :: "redactor \<Rightarrow> string \<Rightarrow> string \<Rightarrow> string \<times> string" where
  "push r pending raw = (let t = pending @ raw in
     if length (known r) = 0 then ([], t)
     else let cp = safeLength r t in (drop cp t, apply_redactor r (take cp t)))"

definition flush :: "redactor \<Rightarrow> string \<Rightarrow> string \<times> string" where
  "flush r pending = ([], if pending \<noteq> [] then apply_redactor r pending else [])"

text \<open>A whole stream: one \<open>push\<close> per chunk, then \<open>flush\<close>; the list of emitted texts.\<close>

fun run_stream :: "redactor \<Rightarrow> string \<Rightarrow> string list \<Rightarrow> string list" where
  "run_stream r pending [] = [snd (flush r pending)]"
| "run_stream r pending (c # cs) = (case push r pending c of (p', out) \<Rightarrow> out # run_stream r p' cs)"

section \<open>Values worth masking\<close>

definition STANDARD_ENV :: "string list" where
  "STANDARD_ENV = [''PATH'', ''HOME'', ''HOSTNAME'', ''TERM'', ''LANG'', ''LC_ALL'', ''PWD'', ''SHLVL'', ''SHELL'',
     ''USER'', ''LD_LIBRARY_PATH'', ''GOSU_VERSION'', ''NODE_VERSION'', ''YARN_VERSION'', ''PYTHON_VERSION'', ''GPG_KEY'']"

definition splitEntry :: "string \<Rightarrow> string \<times> string" where
  "splitEntry e = (case index_of CHR ''='' e of None \<Rightarrow> ([], []) | Some i \<Rightarrow> (take i e, drop (Suc i) e))"

definition envValuesToRedact :: "(string \<times> string) list \<Rightarrow> string list" where
  "envValuesToRedact es = nub (map snd (filter (\<lambda>(k, v). k \<noteq> [] \<and> k \<notin> set STANDARD_ENV \<and> isSecretValue k v []) es))"

definition envTextValuesToRedact :: "string option \<Rightarrow> string list" where
  "envTextValuesToRedact t = envValuesToRedact (parseEnvLines (case t of None \<Rightarrow> [] | Some x \<Rightarrow> x))"

end
