(* ===== verification/Managed_Databases.thy ===== *)
theory Managed_Databases
  imports Set_Names Log_Redaction
begin

text \<open>
  Managed database servers as applications see them: the engine recipes (\<open>managed-database/engines.ts\<close>),
  host port binding (\<open>docker/host-port-bind.ts\<close>) and the connection of a database
  (\<open>managed-database/managed-database.service.ts\<close>).  The law: the connection URL gives back the credentials
  it was built from, whatever characters they contain.
\<close>

section \<open>Engines\<close>

datatype database_engine = Postgres | Mysql | Mariadb | Redis | Valkey | Mongodb

datatype postgres_variant = Pgvector | Postgis | Timescaledb

record url_opts =
  url_host :: string
  url_port :: nat
  url_username :: string
  url_password :: string
  url_database :: string

record engine_spec =
  image :: string
  defaultTag :: string
  port :: nat
  dataPath :: string
  hasDatabase :: bool
  env_of :: "string \<Rightarrow> string \<Rightarrow> string \<Rightarrow> string list"
  cmd_of :: "(string \<Rightarrow> string list) option"
  url_of :: "url_opts \<Rightarrow> string"

definition user_url :: "string \<Rightarrow> string \<Rightarrow> url_opts \<Rightarrow> string" where
  "user_url proto params x = proto @ ''://'' @ encodeURIComponent (url_username x) @ '':'' @
     encodeURIComponent (url_password x) @ ''@'' @ url_host x @ '':'' @ nat_str (url_port x) @ ''/'' @ url_database x @ params"

definition password_url :: "url_opts \<Rightarrow> string" where
  "password_url x = ''redis://:'' @ encodeURIComponent (url_password x) @ ''@'' @ url_host x @ '':'' @ nat_str (url_port x) @ ''/0''"

fun ENGINES :: "database_engine \<Rightarrow> engine_spec" where
  "ENGINES Postgres = \<lparr>image = ''postgres'', defaultTag = ''16-alpine'', port = 5432,
     dataPath = ''/var/lib/postgresql/data'', hasDatabase = True,
     env_of = (\<lambda>u p d. [''POSTGRES_USER='' @ u, ''POSTGRES_PASSWORD='' @ p, ''POSTGRES_DB='' @ d]),
     cmd_of = None, url_of = user_url ''postgresql'' []\<rparr>"
| "ENGINES Mysql = \<lparr>image = ''mysql'', defaultTag = ''8'', port = 3306,
     dataPath = ''/var/lib/mysql'', hasDatabase = True,
     env_of = (\<lambda>u p d. [''MYSQL_ROOT_PASSWORD='' @ p, ''MYSQL_USER='' @ u, ''MYSQL_PASSWORD='' @ p, ''MYSQL_DATABASE='' @ d]),
     cmd_of = None, url_of = user_url ''mysql'' []\<rparr>"
| "ENGINES Mariadb = \<lparr>image = ''mariadb'', defaultTag = ''11'', port = 3306,
     dataPath = ''/var/lib/mysql'', hasDatabase = True,
     env_of = (\<lambda>u p d. [''MARIADB_ROOT_PASSWORD='' @ p, ''MARIADB_USER='' @ u, ''MARIADB_PASSWORD='' @ p, ''MARIADB_DATABASE='' @ d]),
     cmd_of = None, url_of = user_url ''mysql'' []\<rparr>"
| "ENGINES Redis = \<lparr>image = ''redis'', defaultTag = ''7-alpine'', port = 6379, dataPath = ''/data'', hasDatabase = False,
     env_of = (\<lambda>u p d. []), cmd_of = Some (\<lambda>p. [''redis-server'', ''--requirepass'', p, ''--appendonly'', ''yes'']),
     url_of = password_url\<rparr>"
| "ENGINES Valkey = \<lparr>image = ''valkey/valkey'', defaultTag = ''8-alpine'', port = 6379, dataPath = ''/data'', hasDatabase = False,
     env_of = (\<lambda>u p d. []), cmd_of = Some (\<lambda>p. [''valkey-server'', ''--requirepass'', p, ''--appendonly'', ''yes'']),
     url_of = password_url\<rparr>"
| "ENGINES Mongodb = \<lparr>image = ''mongo'', defaultTag = ''7'', port = 27017, dataPath = ''/data/db'', hasDatabase = True,
     env_of = (\<lambda>u p d. [''MONGO_INITDB_ROOT_USERNAME='' @ u, ''MONGO_INITDB_ROOT_PASSWORD='' @ p]),
     cmd_of = None, url_of = user_url ''mongodb'' ''?authSource=admin''\<rparr>"

record variant_spec =
  v_image :: string
  v_defaultTag :: string
  v_label :: string
  v_description :: string
  v_extensionSql :: "string list"

fun POSTGRES_VARIANTS :: "postgres_variant \<Rightarrow> variant_spec" where
  "POSTGRES_VARIANTS Pgvector = \<lparr>v_image = ''pgvector/pgvector'', v_defaultTag = ''pg16'',
     v_label = ''pgvector'', v_description = ''Vector similarity search for embeddings (AI/ML workloads).'',
     v_extensionSql = [''CREATE EXTENSION IF NOT EXISTS vector'']\<rparr>"
| "POSTGRES_VARIANTS Postgis = \<lparr>v_image = ''postgis/postgis'', v_defaultTag = ''16-3.4'',
     v_label = ''PostGIS'', v_description = ''Geographic/spatial data types, indexes and queries.'',
     v_extensionSql = [''CREATE EXTENSION IF NOT EXISTS postgis'']\<rparr>"
| "POSTGRES_VARIANTS Timescaledb = \<lparr>v_image = ''timescale/timescaledb'', v_defaultTag = ''latest-pg16'',
     v_label = ''TimescaleDB'', v_description = ''Time-series data: hypertables, continuous aggregates.'',
     v_extensionSql = [''CREATE EXTENSION IF NOT EXISTS timescaledb'']\<rparr>"

definition imageNameFor :: "database_engine \<Rightarrow> postgres_variant option \<Rightarrow> string" where
  "imageNameFor e v = (case v of Some x \<Rightarrow> if e = Postgres then v_image (POSTGRES_VARIANTS x) else image (ENGINES e)
     | None \<Rightarrow> image (ENGINES e))"

definition defaultTagFor :: "database_engine \<Rightarrow> postgres_variant option \<Rightarrow> string" where
  "defaultTagFor e v = (case v of Some x \<Rightarrow> if e = Postgres then v_defaultTag (POSTGRES_VARIANTS x) else defaultTag (ENGINES e)
     | None \<Rightarrow> defaultTag (ENGINES e))"

definition POSTGRES_LEGACY_DATA_PATH :: string where
  "POSTGRES_LEGACY_DATA_PATH = ''/var/lib/postgresql/data''"

definition postgresDataPath :: "string list option \<Rightarrow> string list option \<Rightarrow> string" where
  "postgresDataPath declaredVolumes env =
     (let pgdata = map_option (drop (length ''PGDATA='')) (Option.bind env (find (starts_with ''PGDATA='')))
      in if pgdata = None \<or> pgdata = Some [] \<or> declaredVolumes = None \<or> declaredVolumes = Some [] then POSTGRES_LEGACY_DATA_PATH
         else case sort_key (\<lambda>v. - int (length v))
                (filter (\<lambda>v. the pgdata = v \<or> starts_with (v @ ''/'') (the pgdata)) (the declaredVolumes)) of
             [] \<Rightarrow> POSTGRES_LEGACY_DATA_PATH
           | v # _ \<Rightarrow> v)"

section \<open>Host port binding\<close>

datatype host_port_bind = Public | Loopback

definition LOOPBACK_IP :: string where
  "LOOPBACK_IP = ''127.0.0.1''"

definition normalizeBind :: "string option \<Rightarrow> host_port_bind" where
  "normalizeBind b = (if b = Some ''loopback'' then Loopback else Public)"

text \<open>One entry of \<open>PortBindings\<close>: the optional host address and the port.\<close>

definition hostPortBinding :: "nat \<Rightarrow> string option \<Rightarrow> string option \<times> string" where
  "hostPortBinding p b = (if normalizeBind b = Loopback then Some LOOPBACK_IP else None, nat_str p)"

definition bindOfBinding :: "(string option \<times> string) option \<Rightarrow> host_port_bind" where
  "bindOfBinding b = (let ip = Option.bind b fst in if ip = Some LOOPBACK_IP \<or> ip = Some ''::1'' then Loopback else Public)"

definition composeHostPrefix :: "string option \<Rightarrow> string" where
  "composeHostPrefix b = (if normalizeBind b = Loopback then LOOPBACK_IP @ '':'' else [])"

definition isPublicIp :: "string option \<Rightarrow> bool" where
  "isPublicIp ip = (if ip = None \<or> ip = Some [] then True else ip = Some ''0.0.0.0'' \<or> ip = Some ''::'')"

definition isLoopbackIp :: "string option \<Rightarrow> bool" where
  "isLoopbackIp ip = (ip \<noteq> None \<and> ip \<noteq> Some [] \<and> (ip = Some LOOPBACK_IP \<or> ip = Some ''::1'' \<or> starts_with ''127.'' (the ip)))"

text \<open>What is published for a bind mode is read back as that mode, and never counts as open to the world.\<close>

lemma bindOfBinding_hostPortBinding: "bindOfBinding (Some (hostPortBinding p b)) = normalizeBind b"
  by (simp add: bindOfBinding_def hostPortBinding_def normalizeBind_def)

lemma loopback_binding_not_public:
  "normalizeBind b = Loopback \<Longrightarrow> \<not> isPublicIp (fst (hostPortBinding p b)) \<and> isLoopbackIp (fst (hostPortBinding p b))"
  by (simp add: hostPortBinding_def isPublicIp_def isLoopbackIp_def LOOPBACK_IP_def)

section \<open>Connections\<close>

record managed_database =
  db_id :: string
  db_projectId :: string
  db_name :: string
  db_slug :: string
  engine :: database_engine
  variant :: "postgres_variant option"
  imageTag :: string
  databaseName :: string
  db_username :: string
  passwordEncrypted :: string
  hostPort :: "nat option"
  hostPortBind :: "string option"

record database_connection =
  c_username :: string
  c_password :: string
  c_database :: string
  internalHost :: string
  internalPort :: nat
  internalUrl :: string
  externalHost :: "string option"
  externalPort :: "nat option"
  externalUrl :: "string option"
  externalLoopbackOnly :: bool

definition containerNameForDb :: "managed_database \<Rightarrow> string" where
  "containerNameForDb db = ''aoox-db-'' @ db_slug db"

definition volumeNameForDb :: "managed_database \<Rightarrow> string" where
  "volumeNameForDb db = ''aoox_db_'' @ map (\<lambda>c. if c = CHR ''-'' then CHR ''_'' else c) (db_slug db)"

text \<open>\<open>dc\<close> decrypts a stored password, \<open>public_host\<close> is the configured \<open>REGISTRY_PUBLIC_HOST\<close>.\<close>

definition connection :: "(string \<Rightarrow> string) \<Rightarrow> string option \<Rightarrow> managed_database \<Rightarrow> database_connection" where
  "connection dc public_host db =
     (let spec = ENGINES (engine db); pw = dc (passwordEncrypted db); ih = containerNameForDb db;
          published = (case hostPort db of None \<Rightarrow> False | Some p \<Rightarrow> p \<noteq> 0);
          loopbackOnly = (published \<and> normalizeBind (hostPortBind db) = Loopback);
          eh = (if published then Some (if loopbackOnly then LOOPBACK_IP else (case public_host of None \<Rightarrow> ''localhost'' | Some h \<Rightarrow> h)) else None);
          url = (\<lambda>h p. url_of spec \<lparr>url_host = h, url_port = p, url_username = db_username db, url_password = pw, url_database = databaseName db\<rparr>)
      in \<lparr>c_username = db_username db, c_password = pw, c_database = databaseName db,
          internalHost = ih, internalPort = port spec, internalUrl = url ih (port spec),
          externalHost = eh, externalPort = hostPort db,
          externalUrl = (case eh of None \<Rightarrow> None | Some h \<Rightarrow> if h \<noteq> [] \<and> published then Some (url h (the (hostPort db))) else None),
          externalLoopbackOnly = loopbackOnly\<rparr>)"

section \<open>Reading a connection URL\<close>

text \<open>
  What a client library does with the credentials: the part between \<open>://\<close> and the first \<open>@\<close> is split at its
  first colon and percent-decoded (UTF-8, here up to U+00FF).
\<close>

definition hex_val :: "char \<Rightarrow> nat" where
  "hex_val c = (if is_digit c then of_char c - 48 else of_char c - 55)"

definition byte_at :: "char \<Rightarrow> char \<Rightarrow> nat" where
  "byte_at a b = 16 * hex_val a + hex_val b"

function percent_decode :: "string \<Rightarrow> string" where
  "percent_decode [] = []"
| "percent_decode (c # cs) =
     (if c = CHR ''%'' \<and> 2 \<le> length cs then
        (let b = byte_at (cs ! 0) (cs ! 1) in
         if b < 128 then char_of b # percent_decode (drop 2 cs)
         else char_of (64 * (b - 192) + (byte_at (cs ! 3) (cs ! 4) - 128)) # percent_decode (drop 5 cs))
      else c # percent_decode cs)"
  by pat_completeness auto
termination
  by (relation "measure length") auto

definition credentials :: "string \<Rightarrow> string \<times> string" where
  "credentials url = (let after = drop 3 (dropWhile (\<lambda>c. c \<noteq> CHR '':'') url);
       userinfo = takeWhile (\<lambda>c. c \<noteq> CHR ''@'') after;
       user = takeWhile (\<lambda>c. c \<noteq> CHR '':'') userinfo
     in (percent_decode user, percent_decode (drop (Suc (length user)) userinfo)))"

lemma hex_val_digit: "n < 16 \<Longrightarrow> hex_val (hex_digit n) = n"
proof -
  have "\<forall>n \<in> set [0..<16]. hex_val (hex_digit n) = n" by code_simp
  then show "n < 16 \<Longrightarrow> hex_val (hex_digit n) = n" by simp
qed

lemma byte_at_percent: "n < 256 \<Longrightarrow> byte_at (hex_digit (n div 16)) (hex_digit (n mod 16)) = n"
  by (simp add: byte_at_def hex_val_digit less_mult_imp_div_less)

lemma unreserved_not_special: "unreserved c \<Longrightarrow> c \<notin> {CHR ''%'', CHR ''@'', CHR '':''}"
proof -
  have "\<not> unreserved CHR ''%''" "\<not> unreserved CHR ''@''" "\<not> unreserved CHR '':''" by code_simp+
  then show "unreserved c \<Longrightarrow> ?thesis" by auto
qed

lemma hex_digit_plain: "n < 16 \<Longrightarrow> hex_digit n \<notin> {CHR ''@'', CHR '':''}"
proof -
  have "\<forall>n \<in> set [0..<16]. hex_digit n \<notin> {CHR ''@'', CHR '':''}" by code_simp
  then show "n < 16 \<Longrightarrow> ?thesis" by simp
qed

lemma percent_plain: "n < 256 \<Longrightarrow> CHR ''@'' \<notin> set (percent n) \<and> CHR '':'' \<notin> set (percent n)"
  using hex_digit_plain [of "n div 16"] hex_digit_plain [of "n mod 16"]
  by (auto simp: percent_def less_mult_imp_div_less)

lemma encode_bytes_small: "192 + of_char c div 64 < (256 :: nat)" "128 + of_char c mod 64 < (256 :: nat)"
proof -
  have "of_char c div 64 < (4 :: nat)" using nat_of_char_less_256 [of c] by (simp add: less_mult_imp_div_less)
  then show "192 + of_char c div 64 < (256 :: nat)" by simp
  show "128 + of_char c mod 64 < (256 :: nat)" by (simp add: trans_less_add2)
qed

lemma encode_plain: "CHR ''@'' \<notin> set (encodeURIComponent s)" "CHR '':'' \<notin> set (encodeURIComponent s)"
proof -
  have "CHR ''@'' \<notin> set (encode_char c) \<and> CHR '':'' \<notin> set (encode_char c)" for c
    using unreserved_not_special [of c] percent_plain [of "of_char c"] percent_plain [OF encode_bytes_small(1) [of c]]
      percent_plain [OF encode_bytes_small(2) [of c]] by (auto simp: encode_char_def Let_def)
  then show "CHR ''@'' \<notin> set (encodeURIComponent s)" "CHR '':'' \<notin> set (encodeURIComponent s)"
    by (simp_all add: encodeURIComponent_def)
qed

lemma decode_encode_char: "percent_decode (encode_char c @ r) = c # percent_decode r"
proof -
  let ?n = "of_char c :: nat"
  consider "unreserved c" | "\<not> unreserved c" "?n < 128" | "\<not> unreserved c" "128 \<le> ?n" by linarith
  then show ?thesis
  proof cases
    case 1
    then show ?thesis using unreserved_not_special [OF 1] by (simp add: encode_char_def)
  next
    case 2
    then have "?n < 256" by simp
    then show ?thesis using 2 by (simp add: encode_char_def percent_def byte_at_percent Let_def)
  next
    case 3
    have "192 \<le> 192 + ?n div 64" by simp
    moreover have "64 * (?n div 64) + ?n mod 64 = ?n" by simp
    ultimately show ?thesis
      using 3 byte_at_percent [OF encode_bytes_small(1) [of c]] byte_at_percent [OF encode_bytes_small(2) [of c]]
      by (simp add: encode_char_def percent_def Let_def)
  qed
qed

lemma decode_encode: "percent_decode (encodeURIComponent s) = s"
  by (induction s) (simp_all add: encodeURIComponent_def decode_encode_char)

lemma takeWhile_to: "x \<notin> set p \<Longrightarrow> takeWhile (\<lambda>c. c \<noteq> x) (p @ x # r) = p"
  by (induction p) auto

lemma credentials_after:
  assumes "CHR '':'' \<notin> set proto" and "CHR ''@'' \<notin> set u" and "CHR '':'' \<notin> set u" and "CHR ''@'' \<notin> set p"
  shows "credentials (proto @ ''://'' @ u @ '':'' @ p @ ''@'' @ rest) = (percent_decode u, percent_decode p)"
proof -
  have "dropWhile (\<lambda>c. c \<noteq> CHR '':'') (proto @ ''://'' @ u @ '':'' @ p @ ''@'' @ rest) = ''://'' @ u @ '':'' @ p @ ''@'' @ rest"
    using assms(1) by (subst dropWhile_append2) auto
  moreover have "takeWhile (\<lambda>c. c \<noteq> CHR ''@'') ((u @ '':'' @ p) @ CHR ''@'' # rest) = u @ '':'' @ p"
    using assms(2,4) by (intro takeWhile_to) auto
  moreover have "takeWhile (\<lambda>c. c \<noteq> CHR '':'') (u @ CHR '':'' # p) = u" using assms(3) by (rule takeWhile_to)
  ultimately show ?thesis by (simp add: credentials_def Let_def)
qed

text \<open>
  The connection URL an application receives gives back the credentials of the database, for every engine
  and whatever characters user name and password contain; the engines without users have an empty name.
\<close>

theorem connection_url_credentials:
  "credentials (internalUrl (connection dc host db)) =
    (if hasDatabase (ENGINES (engine db)) then db_username db else [], dc (passwordEncrypted db))"
proof -
  have user: "credentials (user_url proto params x) = (url_username x, url_password x)" if "CHR '':'' \<notin> set proto" for proto params x
    using credentials_after [OF that encode_plain(1) [of "url_username x"] encode_plain(2) encode_plain(1) [of "url_password x"]]
    by (simp add: user_url_def decode_encode)
  have pw: "credentials (password_url x) = ([], url_password x)" for x
    using credentials_after [of "''redis''" "[]" "encodeURIComponent (url_password x)"] encode_plain
    by (simp add: password_url_def decode_encode)
  show ?thesis by (cases "engine db") (simp_all add: connection_def Let_def user pw)
qed

end
