(* ===== verification/Env_Resolver.thy ===== *)
theory Env_Resolver
  imports Variable_Sets Managed_Databases
begin

text \<open>
  From linked variable sets to the environment of a container (\<open>application/env-resolver.service.ts\<close>):
  layers merged in link order, secrets of an external source, the application's own variables, the
  expansion of references, and the values that logs have to mask.  What the external secret source answers
  is a parameter.
\<close>

section \<open>Inputs\<close>

text \<open>The columns of an application (or a stack in its shape) the resolver reads.\<close>

record res_app =
  app_id :: "string option"
  app_projectId :: string
  app_env :: string
  secretConnectionId :: "string option"
  secretProjectId :: "string option"
  secretEnvironment :: "string option"
  secretPath :: string
  secretSync :: bool

record resolve_options =
  opt_secretSource :: bool
  lenient :: bool
  opt_owner :: owner_kind
  opt_environmentIds :: "string list option"

text \<open>Answer of the secret source: the secrets of the folder, a \<open>SecretSourceError\<close>, or another error.\<close>

datatype source_answer = Fetched "(string, string) jsmap" | SourceError | OtherError

record resolve_world =
  w_decrypt :: "string \<Rightarrow> string"
  w_state :: vs_state
  w_databases :: "managed_database list"
  w_publicHost :: "string option"
  w_fetch :: "string \<Rightarrow> string \<times> string \<times> string \<Rightarrow> source_answer"

datatype resolve_error =
    NoVariable string string string
  | NoSourceHere string string bool
  | NoSecret string string string
  | NoDatabase string string string
  | BadReference string string
  | SourceFailed
  | SourceBroken

definition truthy :: "string option \<Rightarrow> bool" where
  "truthy x \<longleftrightarrow> x \<noteq> None \<and> x \<noteq> Some []"

definition set_add :: "'a \<Rightarrow> 'a list \<Rightarrow> 'a list" where
  "set_add x xs = (if x \<in> set xs then xs else xs @ [x])"

section \<open>Layers\<close>

text \<open>One entry of one layer: value, flag and redaction candidate.\<close>

record layered =
  l_vars :: "(string, string) jsmap"
  l_flags :: flags
  l_secrets :: "string list"

definition add_entry :: "bool obj \<Rightarrow> string \<times> string \<Rightarrow> layered \<Rightarrow> layered" where
  "add_entry fl kv l = (case kv of (k, v) \<Rightarrow>
     \<lparr>l_vars = AList.update k v (l_vars l),
      l_flags = (case flag_at (loaded_flags fl) k of None \<Rightarrow> obj_delete k (l_flags l) | Some f \<Rightarrow> obj_set k f (l_flags l)),
      l_secrets = (if isSecretValue k v (loaded_flags fl) then set_add v (l_secrets l) else l_secrets l)\<rparr>)"

definition add_layer :: "variable_layer \<Rightarrow> layered \<Rightarrow> layered" where
  "add_layer ly l = fold (add_entry (layer_flags ly)) (parseEnvLines (layer_text ly)) l"

definition merge_layers :: "variable_layer list \<Rightarrow> layered" where
  "merge_layers lys = fold add_layer lys \<lparr>l_vars = [], l_flags = [], l_secrets = []\<rparr>"

section \<open>The secret source\<close>

definition sourceActive :: "res_app \<Rightarrow> resolve_options \<Rightarrow> bool" where
  "sourceActive app opts \<longleftrightarrow> opt_secretSource opts \<and> truthy (secretConnectionId app) \<and>
     truthy (secretProjectId app) \<and> truthy (secretEnvironment app)"

text \<open>\<open>/\$\{\{\s*secret\./.test(v)\<close>.\<close>

definition mentions_secret :: "string \<Rightarrow> bool" where
  "mentions_secret v = list_ex (\<lambda>i. starts_with ''${{'' (drop i v) \<and>
     starts_with ''secret.'' (dropWhile js_ws (drop (i + 3) v))) [0..<length v]"

definition source_path :: "res_app \<Rightarrow> string" where
  "source_path app = (if secretPath app = [] then ''/'' else secretPath app)"

definition ask_source :: "resolve_world \<Rightarrow> res_app \<Rightarrow> source_answer" where
  "ask_source w app = w_fetch w (the (secretConnectionId app))
     (the (secretProjectId app), the (secretEnvironment app), source_path app)"

text \<open>The fetched secrets, \<open>None\<close> when the source was not asked or (leniently) did not answer.\<close>

definition fetch_secrets ::
    "resolve_world \<Rightarrow> res_app \<Rightarrow> resolve_options \<Rightarrow> string list \<Rightarrow> resolve_error + (string, string) jsmap option" where
  "fetch_secrets w app opts vals =
     (if sourceActive app opts \<and> (secretSync app \<or> list_ex mentions_secret vals) then
        (case ask_source w app of
           Fetched m \<Rightarrow> Inr (Some m)
         | SourceError \<Rightarrow> if lenient opts then Inr None else Inl SourceFailed
         | OtherError \<Rightarrow> Inl SourceBroken)
      else Inr None)"

section \<open>Databases\<close>

definition databaseFields ::
    "resolve_world \<Rightarrow> string \<Rightarrow> string \<Rightarrow> string \<Rightarrow> string \<Rightarrow> string option \<Rightarrow> resolve_error + (string \<times> string) list" where
  "databaseFields w pid slug key wh dbName =
     (case find (\<lambda>d. db_projectId d = pid \<and> db_slug d = slug) (w_databases w) of
        None \<Rightarrow> Inl (NoDatabase key wh slug)
      | Some db \<Rightarrow>
          let c = connection (w_decrypt w) (w_publicHost w) db;
              d = (case dbName of Some n \<Rightarrow> n | None \<Rightarrow> c_database c)
          in Inr [(''url'', if truthy dbName then url_of (ENGINES (engine db))
                       \<lparr>url_host = internalHost c, url_port = internalPort c, url_username = c_username c,
                        url_password = c_password c, url_database = d\<rparr> else internalUrl c),
                  (''host'', internalHost c), (''port'', nat_str (internalPort c)), (''username'', c_username c),
                  (''password'', c_password c), (''database'', d)])"

definition isDatabaseField :: "string option \<Rightarrow> bool" where
  "isDatabaseField f \<longleftrightarrow> (case f of None \<Rightarrow> '''' | Some x \<Rightarrow> x) \<in> set DATABASE_FIELDS"

definition cache_key :: "refm \<Rightarrow> string" where
  "cache_key m = (if truthy (dbname m) then refname m @ '':'' @ the (dbname m) else refname m)"

section \<open>Expansion\<close>

type_synonym db_cache = "(string, (string \<times> string) list) jsmap"

definition field_of :: "(string \<times> string) list \<Rightarrow> string option \<Rightarrow> string" where
  "field_of fs f = (case map_of fs (case f of None \<Rightarrow> '''' | Some x \<Rightarrow> x) of Some v \<Rightarrow> v | None \<Rightarrow> ''undefined'')"

definition expand_ref ::
    "resolve_world \<Rightarrow> res_app \<Rightarrow> resolve_options \<Rightarrow> (string, string) jsmap \<Rightarrow> (string, string) jsmap option
     \<Rightarrow> string \<Rightarrow> refm \<Rightarrow> db_cache \<times> string list \<Rightarrow> resolve_error + string \<times> db_cache \<times> string list" where
  "expand_ref w app opts vars fetched key m st = (case st of (cache, secrets) \<Rightarrow>
     if scope m = ''vars'' \<and> field m = None then
       (case map_of vars (refname m) of None \<Rightarrow> Inl (NoVariable key (whole m) (refname m)) | Some v \<Rightarrow> Inr (v, cache, secrets))
     else if scope m = ''secret'' \<and> field m = None then
       (if \<not> sourceActive app opts then Inl (NoSourceHere key (whole m) (truthy (secretConnectionId app)))
        else case fetched of
            None \<Rightarrow> Inr ([], cache, secrets)
          | Some f \<Rightarrow> (case map_of f (refname m) of
                None \<Rightarrow> Inl (NoSecret key (whole m) (refname m)) | Some v \<Rightarrow> Inr (v, cache, secrets)))
     else if scope m = ''database'' \<and> isDatabaseField (field m) then
       (case map_of cache (cache_key m) of
          Some fs \<Rightarrow> Inr (field_of fs (field m), cache, secrets)
        | None \<Rightarrow> rbind (databaseFields w (app_projectId app) (refname m) key (whole m) (dbname m)) (\<lambda>fs.
            Inr (field_of fs (field m), AList.update (cache_key m) fs cache, set_add (field_of fs (Some ''password'')) secrets)))
     else Inl (BadReference key (whole m)))"

fun expand_segments ::
    "resolve_world \<Rightarrow> res_app \<Rightarrow> resolve_options \<Rightarrow> (string, string) jsmap \<Rightarrow> (string, string) jsmap option
     \<Rightarrow> string \<Rightarrow> (string \<times> refm) list \<Rightarrow> string \<Rightarrow> db_cache \<times> string list \<Rightarrow> resolve_error + string \<times> db_cache \<times> string list" where
  "expand_segments w app opts vars fetched key [] resolved (cache, secrets) = Inr (resolved, cache, secrets)"
| "expand_segments w app opts vars fetched key ((lit, m) # ms) resolved st =
     rbind (expand_ref w app opts vars fetched key m st) (\<lambda>(v, st').
       expand_segments w app opts vars fetched key ms (resolved @ lit @ v) st')"

text \<open>One variable: a literal one is passed on, any other one is expanded and may become a masked value.\<close>

definition resolve_entry ::
    "resolve_world \<Rightarrow> res_app \<Rightarrow> resolve_options \<Rightarrow> layered \<Rightarrow> string list \<Rightarrow> string list \<Rightarrow> (string, string) jsmap option
     \<Rightarrow> string \<times> string \<Rightarrow> (string \<times> string) list \<times> db_cache \<times> string list
     \<Rightarrow> resolve_error + (string \<times> string) list \<times> db_cache \<times> string list" where
  "resolve_entry w app opts l own literal fetched kv st = (case (kv, st) of ((key, v), (out, cache, secrets)) \<Rightarrow>
     if key \<in> set literal then Inr (out @ [(key, v)], cache, secrets)
     else
       rbind (expand_segments w app opts (l_vars l) fetched key (fst (segments v)) [] (cache, secrets)) (\<lambda>(r, cache', secrets').
         let resolved = r @ snd (segments v);
             fromSet = (has_key (l_vars l) key \<and> key \<notin> set own \<and> key \<notin> set literal)
         in Inr (out @ [(key, resolved)], cache',
              if isSecretValue key resolved (if fromSet then l_flags l else []) then set_add resolved secrets' else secrets')))"

fun resolve_entries ::
    "resolve_world \<Rightarrow> res_app \<Rightarrow> resolve_options \<Rightarrow> layered \<Rightarrow> string list \<Rightarrow> string list \<Rightarrow> (string, string) jsmap option
     \<Rightarrow> (string \<times> string) list \<Rightarrow> (string \<times> string) list \<times> db_cache \<times> string list
     \<Rightarrow> resolve_error + (string \<times> string) list \<times> db_cache \<times> string list" where
  "resolve_entries w app opts l own literal fetched [] st = Inr st"
| "resolve_entries w app opts l own literal fetched (kv # kvs) st =
     rbind (resolve_entry w app opts l own literal fetched kv st) (\<lambda>st'.
       resolve_entries w app opts l own literal fetched kvs st')"

text \<open>Secrets of the source with valid names, when they are synced.\<close>

definition synced :: "res_app \<Rightarrow> (string, string) jsmap option \<Rightarrow> (string \<times> string) list" where
  "synced app fetched = (case fetched of None \<Rightarrow> []
     | Some f \<Rightarrow> if secretSync app then filter (\<lambda>(k, v). ENV_NAME k) f else [])"

record resolved_env =
  entries_of :: "(string \<times> string) list"
  secrets_of :: "string list"

definition resolve_env :: "resolve_world \<Rightarrow> res_app \<Rightarrow> resolve_options \<Rightarrow> resolve_error + resolved_env" where
  "resolve_env w app opts =
     (let ids = (case opt_environmentIds opts of Some i \<Rightarrow> i
                 | None \<Rightarrow> environmentIdsFor (w_state w) (opt_owner opts) (app_id app));
          l = merge_layers (layersFor (w_decrypt w) (w_state w) ids);
          appEnv = parseEnvLines (app_env app);
          own = map fst appEnv
      in rbind (fetch_secrets w app opts (map snd (l_vars l) @ map snd appEnv)) (\<lambda>fetched.
        let secrets0 = fold set_add (filter (\<lambda>v. MIN_REDACT_LENGTH \<le> length v)
                (case fetched of None \<Rightarrow> [] | Some f \<Rightarrow> map snd f)) (l_secrets l);
            src = synced app fetched;
            merged = fold (\<lambda>(k, v) m. AList.update k v m) (src @ appEnv) (l_vars l);
            literal = filter (\<lambda>k. k \<notin> set own) (nub (map fst src))
        in rbind (resolve_entries w app opts l own literal fetched merged ([], [], secrets0)) (\<lambda>(out, cache, secrets).
             Inr \<lparr>entries_of = out, secrets_of = secrets\<rparr>)))"

text \<open>The entries as the container gets them.\<close>

definition env_lines :: "resolved_env \<Rightarrow> string list" where
  "env_lines r = map (\<lambda>(k, v). k @ ''='' @ v) (entries_of r)"

end
