(* ===== verification/Redaction_Laws.thy ===== *)
theory Redaction_Laws
  imports Log_Redaction
begin

text \<open>
  Laws of log masking.  The mask \<open>***\<close> is a run of a character that the secrets do not contain; such
  a secret can neither overlap a mask nor arise from masking another one, so the order of the forms
  does not matter for what is hidden, and a cut that no form crosses splits the work in two.
\<close>

section \<open>Masking one form\<close>

text \<open>Reference definition of \<open>out.split(s).join('***')\<close>, from left to right.\<close>

function star_out :: "string \<Rightarrow> string \<Rightarrow> string" where
  "star_out s [] = []"
| "star_out s (c # t) = (if s \<noteq> [] \<and> prefix s (c # t) then ''***'' @ star_out s (drop (length s) (c # t)) else c # star_out s t)"
  by pat_completeness auto
termination
  by (relation "measure (\<lambda>(s, t). length t)") auto

abbreviation starless :: "string \<Rightarrow> bool" where
  "starless s \<equiv> CHR ''*'' \<notin> set s"

lemma find_upt_shift: "find P [Suc i..<Suc n] = map_option Suc (find (\<lambda>j. P (Suc j)) [i..<n])"
proof (induction "n - i" arbitrary: i)
  case (Suc d)
  then have "i < n" "d = n - Suc i" by auto
  then show ?case using Suc.hyps(1) [of "Suc i"] by (simp add: upt_conv_Cons [of "Suc i"] upt_conv_Cons [of i] del: upt_Suc)
qed simp

lemma indexFrom_Cons:
  "indexFrom (c # t) s 0 = (if prefix s (c # t) then Some 0 else map_option Suc (indexFrom t s 0))"
proof -
  have "[0..<Suc (length (c # t))] = 0 # [Suc 0..<Suc (Suc (length t))]" by (simp add: upt_conv_Cons del: upt_Suc)
  then show ?thesis by (simp add: indexFrom_def find_upt_shift del: upt_Suc)
qed

lemma indexFrom_Nil: "s \<noteq> [] \<Longrightarrow> indexFrom [] s 0 = None"
  by (simp add: indexFrom_def)

lemma split_str_ne: "split_str s t \<noteq> []"
  by (subst split_str.simps) (simp split: option.splits)

lemma join_stars_Cons: "ps \<noteq> [] \<Longrightarrow> join_stars (p # ps) = p @ ''***'' @ join_stars ps"
  by (cases ps) simp_all

lemma split_str_Cons:
  assumes "s \<noteq> []"
  shows "join_stars (split_str s (c # t)) =
    (if prefix s (c # t) then ''***'' @ join_stars (split_str s (drop (length s) (c # t)))
     else c # join_stars (split_str s t))"
proof (cases "prefix s (c # t)")
  case True
  then show ?thesis using assms
    by (subst split_str.simps) (simp add: indexFrom_Cons join_stars_Cons split_str_ne)
next
  case False
  show ?thesis
  proof (cases "indexFrom t s 0")
    case None
    then show ?thesis using False by (simp add: split_str.simps [of s] indexFrom_Cons)
  next
    case (Some i)
    then show ?thesis using False assms
      by (simp add: split_str.simps [of s "c # t"] split_str.simps [of s t] indexFrom_Cons join_stars_Cons split_str_ne)
  qed
qed

lemma split_join_is_mask:
  assumes "s \<noteq> []"
  shows "join_stars (split_str s t) = star_out s t"
proof (induction t rule: length_induct)
  case (1 t)
  show ?case
  proof (cases t)
    case Nil
    then show ?thesis using assms by (simp add: split_str.simps [of s] indexFrom_Nil)
  next
    case (Cons c u)
    have "length (drop (length s) t) < length t" using assms Cons by (cases s) auto
    moreover have "length u < length t" using Cons by simp
    ultimately have "join_stars (split_str s (drop (length s) t)) = star_out s (drop (length s) t)"
      "join_stars (split_str s u) = star_out s u" using 1 by blast+
    then show ?thesis using assms Cons by (simp add: split_str_Cons)
  qed
qed

lemma mask_absent: "\<not> sublist s t \<Longrightarrow> star_out s t = t"
proof (induction s t rule: star_out.induct)
  case (2 s c t)
  then have "\<not> prefix s (c # t)" "\<not> sublist s t" by (auto simp: sublist_Cons_right)
  then show ?case using 2 by simp
qed simp

lemma apply_forms_mask: "(\<forall>f \<in> set fs. f \<noteq> []) \<Longrightarrow> apply_forms fs t = foldl (\<lambda>out s. star_out s out) t fs"
proof (induction fs arbitrary: t)
  case (Cons f fs)
  have "(if sublist f t then join_stars (split_str f t) else t) = star_out f t"
    using Cons.prems split_join_is_mask [of f t] mask_absent [of f t] by auto
  then show ?case using Cons by (simp add: apply_forms_def)
qed (simp add: apply_forms_def)

section \<open>Nothing is left, nothing arises\<close>

lemma sublist_after_stars:
  assumes "starless f" and "f \<noteq> []" and "sublist f (''***'' @ t)"
  shows "sublist f t"
proof -
  have "\<not> prefix f (CHR ''*'' # u)" for u using assms(1,2) by (cases f) auto
  then show ?thesis using assms(3) by (simp add: sublist_Cons_right)
qed

lemma prefix_mask: "starless f \<Longrightarrow> prefix f (star_out g t) \<Longrightarrow> prefix f t"
proof (induction g t arbitrary: f rule: star_out.induct)
  case (2 g c t)
  then show ?case by (cases f) (auto split: if_splits)
qed simp

lemma mask_hit: "s \<noteq> [] \<Longrightarrow> prefix s (c # t) \<Longrightarrow> star_out s (c # t) = ''***'' @ star_out s (drop (length s) (c # t))"
  by simp

lemma mask_miss: "\<not> (s \<noteq> [] \<and> prefix s (c # t)) \<Longrightarrow> star_out s (c # t) = c # star_out s t"
  by auto

declare star_out.simps(2) [simp del]

lemma sublist_mask:
  assumes "starless f" and "f \<noteq> []" and "sublist f (star_out g t)"
  shows "sublist f t"
  using assms(3)
proof (induction g t rule: star_out.induct)
  case (2 g c t)
  show ?case
  proof (cases "g \<noteq> [] \<and> prefix g (c # t)")
    case True
    then have "sublist f (''***'' @ star_out g (drop (length g) (c # t)))" using 2(3) mask_hit by metis
    then have "sublist f (drop (length g) (c # t))"
      by (rule 2(1) [OF True sublist_after_stars [OF assms(1,2)]])
    then show ?thesis using sublist_drop [of "length g" "c # t"] by (rule sublist_order.order_trans)
  next
    case False
    have "sublist f (c # star_out g t)" using 2(3) mask_miss [OF False] by simp
    then consider "prefix f (c # star_out g t)" | "sublist f (star_out g t)" by (auto simp: sublist_Cons_right)
    then show ?thesis
    proof cases
      case 1
      then have "prefix f (c # t)" using prefix_mask [OF assms(1), of g "c # t"] mask_miss [OF False] by simp
      then show ?thesis by (rule prefix_imp_sublist)
    next
      case h: 2
      show ?thesis using 2(2) [OF False h] by (simp add: sublist_Cons_right)
    qed
  qed
qed simp

lemma mask_complete:
  assumes "starless f" and "f \<noteq> []"
  shows "\<not> sublist f (star_out f t)"
  using assms
proof (induction f t rule: star_out.induct)
  case (2 f c t)
  show ?case
  proof (cases "prefix f (c # t)")
    case True
    then have hit: "f \<noteq> [] \<and> prefix f (c # t)" using 2(4) by simp
    show ?thesis using 2(1) [OF hit 2(3,4)] sublist_after_stars [OF 2(3,4)] mask_hit [OF 2(4) True] by metis
  next
    case False
    then have miss: "\<not> (f \<noteq> [] \<and> prefix f (c # t))" by simp
    then have "\<not> prefix f (c # star_out f t)" using prefix_mask [OF 2(3), of f "c # t"] mask_miss False by metis
    then show ?thesis using 2(2) [OF miss 2(3,4)] mask_miss [OF miss] by (simp add: sublist_Cons_right)
  qed
qed simp

section \<open>What a redactor masks\<close>

lemma foldl_mask_sublist:
  assumes "starless f" and "f \<noteq> []" and "sublist f (foldl (\<lambda>out s. star_out s out) t fs)"
  shows "sublist f t"
  using assms(3) by (induction fs arbitrary: t) (auto dest: sublist_mask [OF assms(1,2)])

lemma foldl_mask_gone:
  assumes "starless f" and "f \<noteq> []" and "f \<in> set fs"
  shows "\<not> sublist f (foldl (\<lambda>out s. star_out s out) t fs)"
proof -
  obtain as bs where "fs = as @ f # bs" using assms(3) by (meson split_list)
  then show ?thesis
    using foldl_mask_sublist [OF assms(1,2), of _ bs] mask_complete [OF assms(1,2)] by (metis foldl_Cons foldl_append)
qed

definition redactor_ok :: "string list \<Rightarrow> redactor \<Rightarrow> bool" where
  "redactor_ok ss r \<longleftrightarrow> set (known r) = set ss - {[]} \<and>
     set (forms r) = set (known r) \<union> encodeURIComponent ` set (known r)"

lemma encode_char_ne: "encode_char c \<noteq> []"
  by (simp add: encode_char_def percent_def Let_def)

lemma encode_ne: "s \<noteq> [] \<Longrightarrow> encodeURIComponent s \<noteq> []"
  by (cases s) (auto simp: encodeURIComponent_def encode_char_ne)

lemma redactor_ok_forms_ne: "redactor_ok ss r \<Longrightarrow> \<forall>f \<in> set (forms r). f \<noteq> []"
  using encode_ne by (fastforce simp: redactor_ok_def)

lemma redactor_ok_add: "redactor_ok ss r \<Longrightarrow> redactor_ok (ss @ [s]) (add_secret (Some s) r)"
  by (auto simp: redactor_ok_def add_secret_def encode_ne)

lemma redactor_ok_addAll: "redactor_ok ss r \<Longrightarrow> redactor_ok (ss @ ts) (addAll ts r)"
proof (induction ts arbitrary: ss r)
  case (Cons t ts)
  show ?case using Cons.IH [OF redactor_ok_add [OF Cons.prems, of t]] by (simp add: addAll_def)
qed (simp add: addAll_def)

lemma redactor_ok_new: "redactor_ok ss (addAll ss new_redactor)"
  using redactor_ok_addAll [of "[]" new_redactor ss] by (simp add: redactor_ok_def new_redactor_def)

lemma hex_digit_not_star: "n < 16 \<Longrightarrow> hex_digit n \<noteq> CHR ''*''"
proof -
  assume "n < 16"
  then have "hex_digit n \<in> set ''0123456789ABCDEF''" unfolding hex_digit_def by (intro nth_mem) simp
  then show ?thesis by auto
qed

lemma percent_starless: "n < 256 \<Longrightarrow> starless (percent n)"
  using hex_digit_not_star [of "n div 16"] hex_digit_not_star [of "n mod 16"] by (auto simp: percent_def less_mult_imp_div_less)

lemma encode_starless: "starless s \<Longrightarrow> starless (encodeURIComponent s)"
proof -
  have "CHR ''*'' \<notin> set (encode_char c)" if "c \<noteq> CHR ''*''" for c
  proof -
    have "of_char c div 64 < (4 :: nat)" using nat_of_char_less_256 [of c] by (simp add: less_mult_imp_div_less)
    then have "starless (percent (192 + of_char c div 64))" "starless (percent (128 + of_char c mod 64))"
      by (auto intro!: percent_starless)
    then show ?thesis using that percent_starless [OF nat_of_char_less_256 [of c]] by (auto simp: encode_char_def Let_def)
  qed
  moreover assume "starless s"
  ultimately have "\<forall>c \<in> set s. starless (encode_char c)" by metis
  then show ?thesis by (simp add: encodeURIComponent_def)
qed

section \<open>Cutting a text\<close>

text \<open>A form straddles a cut when it occurs across it.\<close>

definition straddles :: "string \<Rightarrow> string \<Rightarrow> string \<Rightarrow> bool" where
  "straddles f a b \<longleftrightarrow> (\<exists>p q. f = p @ q \<and> p \<noteq> [] \<and> q \<noteq> [] \<and> suffix p a \<and> prefix q b)"

lemma straddlesI: "f = p @ q \<Longrightarrow> p \<noteq> [] \<Longrightarrow> q \<noteq> [] \<Longrightarrow> suffix p a \<Longrightarrow> prefix q b \<Longrightarrow> straddles f a b"
  unfolding straddles_def by blast

lemma straddles_mono:
  assumes "suffix a a'" and "straddles f a b"
  shows "straddles f a' b"
proof -
  obtain p q where "f = p @ q" "p \<noteq> []" "q \<noteq> []" "suffix p a" "prefix q b" using assms(2) by (auto simp: straddles_def)
  then show ?thesis using suffix_order.order_trans [OF _ assms(1)] by (intro straddlesI)
qed

lemma suffix_Cons_self: "suffix a (c # a)"
  by (simp add: suffix_ConsI)

lemma mask_append:
  assumes "\<not> straddles g a b"
  shows "star_out g (a @ b) = star_out g a @ star_out g b"
  using assms
proof (induction g a rule: star_out.induct)
  case (2 g c a)
  show ?case
  proof (cases "g \<noteq> [] \<and> prefix g (c # a)")
    case True
    have "prefix g (c # a @ b)" using True prefix_prefix [of g "c # a" b] by simp
    moreover have "drop (length g) (c # a @ b) = drop (length g) (c # a) @ b"
      using True prefix_length_le [of g "c # a"] drop_append [of "length g" "c # a" b] by simp
    ultimately have "star_out g ((c # a) @ b) = ''***'' @ star_out g (drop (length g) (c # a) @ b)"
      using mask_hit [of g c "a @ b"] True by (simp del: drop_append)
    moreover have "\<not> straddles g (drop (length g) (c # a)) b"
      using 2(3) straddles_mono [OF suffix_drop] by blast
    ultimately show ?thesis using 2(1) [OF True] mask_hit [of g c a] True by simp
  next
    case False
    have "\<not> (g \<noteq> [] \<and> prefix g (c # (a @ b)))"
    proof
      assume g: "g \<noteq> [] \<and> prefix g (c # (a @ b))"
      then have "prefix g ((c # a) @ b)" by simp
      then obtain q where gq: "g = (c # a) @ q" "prefix q b" using False g prefix_append [of g "c # a" b] by blast
      then have "q \<noteq> []" using False g by auto
      then have "straddles g (c # a) b" using gq by (intro straddlesI [of g "c # a" q]) simp_all
      then show False using 2(3) by simp
    qed
    moreover have "\<not> straddles g a b" using 2(3) straddles_mono [OF suffix_Cons_self] by blast
    ultimately show ?thesis using 2(2) [OF False] mask_miss [of g c "a @ b"] mask_miss [OF False] by simp
  qed
qed simp

lemma starless_mask: "starless (star_out g t) \<Longrightarrow> star_out g t = t"
proof (induction g t rule: star_out.induct)
  case (2 g c t)
  then show ?case by (cases "g \<noteq> [] \<and> prefix g (c # t)") (simp_all add: mask_hit mask_miss)
qed simp

lemma suffix_mask: "starless p \<Longrightarrow> suffix p (star_out g t) \<Longrightarrow> suffix p t"
proof (induction g t rule: star_out.induct)
  case (2 g c t)
  show ?case
  proof (cases "g \<noteq> [] \<and> prefix g (c # t)")
    case True
    then have "suffix p (''***'' @ star_out g (drop (length g) (c # t)))" using 2(4) mask_hit by metis
    then have "suffix p (star_out g (drop (length g) (c # t)))" using 2(3) by (auto simp: suffix_Cons)
    then have "suffix p (drop (length g) (c # t))" using 2(1) [OF True 2(3)] by simp
    then show ?thesis using suffix_drop suffix_order.order_trans by blast
  next
    case False
    then consider "p = c # star_out g t" | "suffix p (star_out g t)" using 2(4) mask_miss [OF False] by (auto simp: suffix_Cons)
    then show ?thesis
    proof cases
      case 1
      then show ?thesis using 2(3) starless_mask [of g t] by simp
    next
      case h: 2
      show ?thesis using 2(2) [OF False 2(3) h] by (rule suffix_ConsI)
    qed
  qed
qed simp

lemma straddles_mask:
  assumes "starless f" and "straddles f (star_out g a) (star_out g b)"
  shows "straddles f a b"
proof -
  obtain p q where "f = p @ q" "p \<noteq> []" "q \<noteq> []" "suffix p (star_out g a)" "prefix q (star_out g b)"
    using assms(2) by (auto simp: straddles_def)
  moreover from this have "starless p" "starless q" using assms(1) by auto
  ultimately have "f = p @ q \<and> p \<noteq> [] \<and> q \<noteq> [] \<and> suffix p a \<and> prefix q b" using suffix_mask prefix_mask by simp
  then show ?thesis unfolding straddles_def by blast
qed

lemma foldl_Nil_mask [simp]: "foldl (\<lambda>out s. star_out s out) [] fs = []"
  by (induction fs) simp_all

lemma foldl_mask_append:
  assumes "\<forall>f \<in> set fs. starless f \<and> \<not> straddles f a b"
  shows "foldl (\<lambda>out s. star_out s out) (a @ b) fs = foldl (\<lambda>out s. star_out s out) a fs @ foldl (\<lambda>out s. star_out s out) b fs"
  using assms
proof (induction fs arbitrary: a b)
  case (Cons f fs)
  then have "\<forall>g \<in> set fs. starless g \<and> \<not> straddles g (star_out f a) (star_out f b)" using straddles_mask by auto
  then show ?case using Cons mask_append [of f a b] by simp
qed simp

section \<open>The cut of the stream redactor\<close>

lemma hold_back_fold:
  "foldl (\<lambda>cp f. case tail_start t f of None \<Rightarrow> cp | Some i \<Rightarrow> min cp i) n fs \<le> n \<and>
   (\<forall>f \<in> set fs. \<forall>i. tail_start t f = Some i \<longrightarrow>
     foldl (\<lambda>cp f. case tail_start t f of None \<Rightarrow> cp | Some i \<Rightarrow> min cp i) n fs \<le> i)"
proof (induction fs arbitrary: n)
  case (Cons f fs)
  let ?n = "case tail_start t f of None \<Rightarrow> n | Some i \<Rightarrow> min n i"
  have "?n \<le> n" "\<forall>i. tail_start t f = Some i \<longrightarrow> ?n \<le> i" by (auto split: option.splits)
  then show ?case using Cons [of ?n] by (fastforce intro: order_trans)
qed simp

lemma find_append: "find P (xs @ ys) = (case find P xs of Some x \<Rightarrow> Some x | None \<Rightarrow> find P ys)"
  by (induction xs) simp_all

lemma find_upt_le:
  assumes "P i" and "m \<le> i" and "i < n"
  shows "\<exists>j \<le> i. find P [m..<n] = Some j"
proof -
  have "[m..<n] = [m..<i] @ i # [Suc i..<n]" using assms(2,3) by (metis le_add_diff_inverse less_imp_le_nat upt_add_eq_append upt_conv_Cons)
  then have "find P [m..<n] = (case find P [m..<i] of Some j \<Rightarrow> Some j | None \<Rightarrow> Some i)"
    using assms(1) find_append [of P "[m..<i]" "i # [Suc i..<n]"] by (simp split: option.splits)
  then show ?thesis by (cases "find P [m..<i]") (auto dest: find_SomeD)
qed

lemma tail_start_least:
  assumes "i < length t" and "strict_prefix (drop i t) f"
  shows "\<exists>j \<le> i. tail_start t f = Some j"
proof -
  have len: "length t - i < length f" using prefix_length_less [OF assms(2)] by simp
  have "drop i t = t ! i # drop (Suc i) t" using assms(1) by (simp add: Cons_nth_drop_Suc)
  then have "t ! i = hd f \<and> prefix (drop i t) f \<and> length t - i < length f"
    using assms(2) len by (cases f) (auto simp: strict_prefix_def)
  then show ?thesis unfolding tail_start_def using assms(1) len by (intro find_upt_le) auto
qed

lemma settle_spec: "settle t fs cp \<le> cp \<and> (\<forall>f \<in> set fs. crossing t (settle t fs cp) f = None)"
proof (induction t fs cp rule: settle.induct)
  case (1 t fs cp)
  obtain c m where p: "settle_pass t fs cp = (c, m)" by (cases "settle_pass t fs cp")
  show ?case
  proof (cases m)
    case True
    then have "c < cp" using settle_pass_less [of t fs cp c] p by simp
    then show ?thesis using 1 [OF p [symmetric] True] p True by (simp add: settle.simps [of t fs cp])
  next
    case False
    then show ?thesis using settle_pass_done [of t fs cp c] p by (simp add: settle.simps [of t fs cp])
  qed
qed

lemma safeLength_clean:
  assumes "f \<in> set (forms r)"
  shows "\<not> straddles f (take (safeLength r t) t) (drop (safeLength r t) t @ rest)"
proof
  let ?k = "safeLength r t"
  assume "straddles f (take ?k t) (drop ?k t @ rest)"
  then obtain p q where f: "f = p @ q" "p \<noteq> []" "q \<noteq> []" and p: "suffix p (take ?k t)" and q: "prefix q (drop ?k t @ rest)"
    by (auto simp: straddles_def)
  have hb: "?k \<le> hold_back (forms r) t" and none: "crossing t ?k f = None"
    using settle_spec [of t "forms r" "hold_back (forms r) t"] assms by (simp_all add: safeLength_def)
  have "hold_back (forms r) t \<le> length t" using hold_back_fold [of t "length t" "forms r"] by (simp add: hold_back_def)
  then have k: "?k \<le> length t" using hb by simp
  obtain z where z: "take ?k t = z @ p" using p by (auto simp: suffix_def)
  let ?i = "length z"
  have i: "?i + length p = ?k" using arg_cong [OF z, of length] k by simp
  have at: "drop ?i t = p @ drop ?k t" using z append_take_drop_id [of ?k t] by (metis append_eq_conv_conj append_assoc)
  have lt: "?i < ?k" using f(2) i by (cases p) auto
  consider "prefix q (drop ?k t)" | "strict_prefix (drop ?k t) q"
  proof -
    have "prefix q (drop ?k t) \<or> (\<exists>us. q = drop ?k t @ us)" using q by (auto simp: prefix_append)
    moreover have "prefix q (drop ?k t) \<or> strict_prefix (drop ?k t) q" if "q = drop ?k t @ us" for us
      using that by (cases us) (auto intro: strict_prefixI')
    ultimately show thesis using that by blast
  qed
  then show False
  proof cases
    case 1
    have "?k < ?i + length f" using f(1,3) i by (cases q) auto
    then have "prefix f (drop ?i t) \<and> ?k < ?i + length f" using at f(1) 1 by simp
    moreover have "?k - length f \<le> ?i" using i f(1) by simp
    ultimately show False using none lt find_upt_le [of "\<lambda>s. prefix f (drop s t) \<and> ?k < s + length f" ?i "?k - length f" ?k]
      by (auto simp: crossing_def)
  next
    case 2
    then have "strict_prefix (drop ?i t) f" using at f(1) by (auto simp: strict_prefix_def)
    then obtain j where "j \<le> ?i" "tail_start t f = Some j" using tail_start_least lt k by (metis order_less_le_trans)
    then have "hold_back (forms r) t \<le> ?i" using hold_back_fold [of t "length t" "forms r"] assms
      by (fastforce simp: hold_back_def intro: order_trans)
    then show False using hb lt by simp
  qed
qed

lemma apply_cut:
  assumes "redactor_ok ss r" and "\<forall>f \<in> set (forms r). starless f"
  shows "apply_redactor r (t @ rest) =
    apply_redactor r (take (safeLength r t) t) @ apply_redactor r (drop (safeLength r t) t @ rest)"
proof -
  let ?k = "safeLength r t"
  have "t @ rest = take ?k t @ (drop ?k t @ rest)" by simp
  then show ?thesis
    using foldl_mask_append [of "forms r" "take ?k t" "drop ?k t @ rest"] safeLength_clean assms(2)
      apply_forms_mask [OF redactor_ok_forms_ne [OF assms(1)]] unfolding apply_redactor_def by metis
qed

lemma run_stream_whole:
  assumes "redactor_ok ss r" and "\<forall>f \<in> set (forms r). starless f"
  shows "concat (run_stream r pending chunks) = apply_redactor r (pending @ concat chunks)"
proof (induction chunks arbitrary: pending)
  case Nil
  have "apply_redactor r [] = []" using apply_forms_mask [OF redactor_ok_forms_ne [OF assms(1)], of "[]"]
    by (simp add: apply_redactor_def foldl_Nil_mask)
  then show ?case by (simp add: flush_def)
next
  case (Cons c cs)
  show ?case
  proof (cases "known r = []")
    case True
    then have "forms r = []" using assms(1) by (simp add: redactor_ok_def)
    then have "apply_redactor r t = t" for t by (simp add: apply_redactor_def apply_forms_def)
    then show ?thesis using True Cons [of "[]"] by (simp add: push_def)
  next
    case False
    then show ?thesis using Cons [of "drop (safeLength r (pending @ c)) (pending @ c)"]
        apply_cut [OF assms, of "pending @ c" "concat cs"] by (simp add: push_def Let_def del: drop_append take_append)
  qed
qed

lemma forms_starless:
  assumes "redactor_ok ss r" and "\<forall>s \<in> set ss. starless s"
  shows "\<forall>f \<in> set (forms r). starless f"
  using assms encode_starless by (fastforce simp: redactor_ok_def)

lemma apply_redactor_hides:
  assumes "s \<in> set ss" and "s \<noteq> []" and "starless s"
  shows "\<not> sublist s (apply_redactor (addAll ss new_redactor) t)"
    and "\<not> sublist (encodeURIComponent s) (apply_redactor (addAll ss new_redactor) t)"
proof -
  let ?r = "addAll ss new_redactor"
  have ok: "redactor_ok ss ?r" by (rule redactor_ok_new)
  then have "s \<in> set (forms ?r)" "encodeURIComponent s \<in> set (forms ?r)" using assms by (auto simp: redactor_ok_def)
  then show "\<not> sublist s (apply_redactor ?r t)" "\<not> sublist (encodeURIComponent s) (apply_redactor ?r t)"
    using foldl_mask_gone [OF assms(3,2)] foldl_mask_gone [OF encode_starless [OF assms(3)] encode_ne [OF assms(2)]]
    by (simp_all add: apply_redactor_def apply_forms_mask [OF redactor_ok_forms_ne [OF ok]])
qed

section \<open>Properties\<close>

text \<open>
  What masking promises.  After a set of secrets was registered, no text that went through the redactor
  contains one of them, raw or URL-encoded, whatever the other secrets are and however they overlap, as
  long as the secret itself does not contain the mask character.
\<close>

theorem redacted_text_has_no_secret:
  assumes "s \<in> set ss" and "s \<noteq> []" and "starless s"
  shows "\<not> sublist s (apply_redactor (addAll ss new_redactor) t) \<and>
    \<not> sublist (encodeURIComponent s) (apply_redactor (addAll ss new_redactor) t)"
  using apply_redactor_hides [OF assms] by blast

theorem redacted_text_has_no_secret_witness:
  "\<not> sublist ''p@ss'' (apply_redactor (addAll [''p@ssw'', ''p@ss''] new_redactor) ''a p@ssword b p%40ss c'')"
  using redacted_text_has_no_secret [of "''p@ss''" "[''p@ssw'', ''p@ss'']"] by simp



end
