(* ===== verification/Env_Resolver_Laws.thy ===== *)
theory Env_Resolver_Laws
  imports Env_Resolver Env_Text_Laws Redaction_Laws
begin

text \<open>
  Laws of the resolver: a specification without cache and accumulators, which of the three sources of a
  variable wins, when resolution fails, that a preview never depends on the secret source, and, with the
  laws of the redactor, that resolved secrets and database passwords never reach a log.
\<close>

section \<open>Specification of one reference\<close>

definition ref_wf :: "refm \<Rightarrow> bool" where
  "ref_wf m \<longleftrightarrow> CHR '':'' \<notin> set (refname m) \<and> dbname m \<noteq> Some []"

lemma match_ref_wf: "match_ref s = Some (m, rest) \<Longrightarrow> ref_wf m"
proof -
  assume "match_ref s = Some (m, rest)"
  then have "list_all ref_name_char (refname m)" "opt_all ref_db_char (dbname m)"
    using match_ref_sound by (auto simp: ref_shape_def)
  moreover have "\<not> ref_name_char CHR '':''" by code_simp
  ultimately show ?thesis by (auto simp: ref_wf_def list_all_iff opt_all_def)
qed

lemma segments_wf: "(lit, m) \<in> set (fst (segments v)) \<Longrightarrow> ref_wf m"
proof (induction v arbitrary: lit rule: segments.induct)
  case (2 c cs)
  show ?case
  proof (cases "match_ref (c # cs)")
    case None
    obtain ms t where seg: "segments cs = (ms, t)" by (cases "segments cs")
    show ?thesis
    proof (cases ms)
      case Nil
      then show ?thesis using "2.prems" None seg by simp
    next
      case (Cons h hs)
      obtain l m' where h: "h = (l, m')" by (cases h)
      then have "(lit, m) = (c # l, m') \<or> (lit, m) \<in> set hs" using "2.prems" None seg Cons by simp
      then have "\<exists>lit'. (lit', m) \<in> set (fst (segments cs))" using seg Cons h by auto
      then show ?thesis using "2.IH" None by blast
    qed
  next
    case (Some p)
    obtain m' rest where p: "p = (m', rest)" by (cases p)
    then consider "m = m'" | "(lit, m) \<in> set (fst (segments rest))" using "2.prems" Some by auto
    then show ?thesis
    proof cases
      case 1
      then show ?thesis using match_ref_wf Some p by blast
    next
      case h: 2
      then show ?thesis using "2.IH" Some p by blast
    qed
  qed
qed simp

definition fields_at :: "resolve_world \<Rightarrow> string \<Rightarrow> refm \<Rightarrow> (string \<times> string) list option" where
  "fields_at w pid m = (case databaseFields w pid (refname m) [] [] (dbname m) of Inl _ \<Rightarrow> None | Inr fs \<Rightarrow> Some fs)"

lemma databaseFields_Inr_iff: "databaseFields w pid (refname m) key wh (dbname m) = Inr fs \<longleftrightarrow> fields_at w pid m = Some fs"
  by (auto simp: fields_at_def databaseFields_def Let_def split: option.splits)

lemma databaseFields_Inl_iff: "(\<exists>e. databaseFields w pid (refname m) key wh (dbname m) = Inl e) \<longleftrightarrow> fields_at w pid m = None"
  by (auto simp: fields_at_def databaseFields_def Let_def split: option.splits)

definition is_vars :: "refm \<Rightarrow> bool" where
  "is_vars m \<longleftrightarrow> scope m = ''vars'' \<and> field m = None"

definition is_secret :: "refm \<Rightarrow> bool" where
  "is_secret m \<longleftrightarrow> scope m = ''secret'' \<and> field m = None"

definition is_database :: "refm \<Rightarrow> bool" where
  "is_database m \<longleftrightarrow> scope m = ''database'' \<and> isDatabaseField (field m)"

lemma ref_kinds_disjoint: "is_vars m \<Longrightarrow> \<not> is_secret m" "is_vars m \<Longrightarrow> \<not> is_database m" "is_secret m \<Longrightarrow> \<not> is_database m"
  by (auto simp: is_vars_def is_secret_def is_database_def)

text \<open>What a reference stands for; nothing when it cannot be resolved.\<close>

definition ref_value ::
    "resolve_world \<Rightarrow> res_app \<Rightarrow> resolve_options \<Rightarrow> (string, string) jsmap \<Rightarrow> (string, string) jsmap option \<Rightarrow> refm \<Rightarrow> string option" where
  "ref_value w app opts vars fetched m =
     (if is_vars m then map_of vars (refname m)
      else if is_secret m then
        (if sourceActive app opts then (case fetched of None \<Rightarrow> Some [] | Some f \<Rightarrow> map_of f (refname m)) else None)
      else if is_database m then map_option (\<lambda>fs. field_of fs (field m)) (fields_at w (app_projectId app) m)
      else None)"

fun expand_list :: "(refm \<Rightarrow> string option) \<Rightarrow> (string \<times> refm) list \<Rightarrow> string option" where
  "expand_list val [] = Some []"
| "expand_list val ((lit, m) # ms) = (case val m of None \<Rightarrow> None | Some v \<Rightarrow> map_option (\<lambda>r. lit @ v @ r) (expand_list val ms))"

definition expansion :: "(refm \<Rightarrow> string option) \<Rightarrow> string \<Rightarrow> string option" where
  "expansion val v = map_option (\<lambda>r. r @ snd (segments v)) (expand_list val (fst (segments v)))"

section \<open>The cache\<close>

definition password_in :: "string list \<Rightarrow> (string \<times> string) list \<Rightarrow> bool" where
  "password_in secrets fs \<longleftrightarrow> field_of fs (Some ''password'') \<in> set secrets"

definition st_ok :: "resolve_world \<Rightarrow> string \<Rightarrow> db_cache \<times> string list \<Rightarrow> bool" where
  "st_ok w pid st \<longleftrightarrow> (\<forall>m fs. ref_wf m \<longrightarrow> map_of (fst st) (cache_key m) = Some fs \<longrightarrow>
     fields_at w pid m = Some fs \<and> password_in (snd st) fs)"

lemma set_set_add [simp]: "set (set_add x xs) = insert x (set xs)"
  by (auto simp: set_add_def)

lemma cache_key_inj:
  assumes "ref_wf m" and "ref_wf m'" and "cache_key m = cache_key m'"
  shows "fields_at w pid m = fields_at w pid m'"
proof -
  have t: "truthy (dbname x) \<longleftrightarrow> dbname x \<noteq> None" if "ref_wf x" for x using that by (auto simp: ref_wf_def truthy_def)
  have split: "takeWhile (\<lambda>c. c \<noteq> CHR '':'') (cache_key x) = refname x" if "ref_wf x" for x
    using that by (auto simp: cache_key_def ref_wf_def takeWhile_to takeWhile_eq_all_conv)
  have n: "refname m = refname m'" using split assms by metis
  have "dbname m = dbname m'"
    using assms n t [OF assms(1)] t [OF assms(2)] by (cases "dbname m"; cases "dbname m'") (auto simp: cache_key_def)
  then show ?thesis using n by (simp add: fields_at_def)
qed

lemma st_ok_mono: "st_ok w pid (cache, secrets) \<Longrightarrow> set secrets \<subseteq> set secrets' \<Longrightarrow> st_ok w pid (cache, secrets')"
  by (auto simp: st_ok_def password_in_def)

text \<open>What holds of the secrets after a list of references was expanded.\<close>

definition covered :: "resolve_world \<Rightarrow> string \<Rightarrow> refm set \<Rightarrow> string list \<Rightarrow> bool" where
  "covered w pid ms secrets \<longleftrightarrow> (\<forall>m \<in> ms. is_database m \<longrightarrow> (\<forall>fs. fields_at w pid m = Some fs \<longrightarrow> password_in secrets fs))"

lemma covered_mono: "covered w pid ms secrets \<Longrightarrow> set secrets \<subseteq> set secrets' \<Longrightarrow> covered w pid ms secrets'"
  by (auto simp: covered_def password_in_def)

lemma expand_ref_spec:
  assumes "ref_wf m" and "st_ok w (app_projectId app) (cache, secrets)"
  shows "case ref_value w app opts vars fetched m of
      None \<Rightarrow> \<exists>e. expand_ref w app opts vars fetched key m (cache, secrets) = Inl e
    | Some v \<Rightarrow> \<exists>cache' secrets'. expand_ref w app opts vars fetched key m (cache, secrets) = Inr (v, cache', secrets') \<and>
        st_ok w (app_projectId app) (cache', secrets') \<and> set secrets \<subseteq> set secrets' \<and>
        covered w (app_projectId app) {m} secrets'"
proof -
  let ?pid = "app_projectId app"
  consider "is_vars m" | "is_secret m" | "is_database m" | "\<not> is_vars m" "\<not> is_secret m" "\<not> is_database m" by blast
  then show ?thesis
  proof cases
    case 1
    then show ?thesis using assms(2) ref_kinds_disjoint(2) [OF 1]
      by (auto simp: ref_value_def expand_ref_def covered_def is_vars_def split: option.splits)
  next
    case 2
    then have "\<not> is_vars m" using ref_kinds_disjoint(1) by blast
    then show ?thesis using 2 assms(2) ref_kinds_disjoint(3) [OF 2]
      by (auto simp: ref_value_def expand_ref_def covered_def is_vars_def is_secret_def split: option.splits)
  next
    case 3
    then have n: "\<not> is_vars m" "\<not> is_secret m" using ref_kinds_disjoint by blast+
    then have rv: "ref_value w app opts vars fetched m = map_option (\<lambda>fs. field_of fs (field m)) (fields_at w ?pid m)"
      using 3 by (simp add: ref_value_def)
    show ?thesis
    proof (cases "map_of cache (cache_key m)")
      case (Some fs)
      then have "fields_at w ?pid m = Some fs" "password_in secrets fs" using assms by (auto simp: st_ok_def)
      then show ?thesis using Some 3 n assms(2) rv
        by (auto simp: expand_ref_def covered_def is_vars_def is_secret_def is_database_def)
    next
      case None
      show ?thesis
      proof (cases "fields_at w ?pid m")
        case f: None
        then obtain e where "databaseFields w ?pid (refname m) key (whole m) (dbname m) = Inl e" using databaseFields_Inl_iff by blast
        then show ?thesis using None 3 n rv f by (simp add: expand_ref_def is_vars_def is_secret_def is_database_def)
      next
        case f: (Some fs)
        then have d: "databaseFields w ?pid (refname m) key (whole m) (dbname m) = Inr fs" using databaseFields_Inr_iff by blast
        let ?c = "AList.update (cache_key m) fs cache" and ?s = "set_add (field_of fs (Some ''password'')) secrets"
        have "st_ok w ?pid (?c, ?s)"
        proof -
          have "fields_at w ?pid m' = Some fs' \<and> password_in ?s fs'"
            if m': "ref_wf m'" "map_of ?c (cache_key m') = Some fs'" for m' fs'
          proof (cases "cache_key m' = cache_key m")
            case True
            then show ?thesis using m' f cache_key_inj [OF m'(1) assms(1) True, of w ?pid]
              by (simp add: AList.update_conv' password_in_def)
          next
            case False
            then have "fields_at w ?pid m' = Some fs' \<and> password_in secrets fs'"
              using m' assms(2) by (auto simp: AList.update_conv' st_ok_def)
            then show ?thesis by (simp add: password_in_def)
          qed
          then show ?thesis by (simp add: st_ok_def)
        qed
        then show ?thesis using None 3 n rv f d
          by (auto simp: expand_ref_def covered_def password_in_def is_vars_def is_secret_def is_database_def)
      qed
    qed
  next
    case 4
    then show ?thesis by (auto simp: ref_value_def expand_ref_def is_vars_def is_secret_def is_database_def)
  qed
qed

section \<open>Values\<close>

lemma covered_insert: "covered w pid (insert m ms) secrets \<longleftrightarrow> covered w pid {m} secrets \<and> covered w pid ms secrets"
  by (auto simp: covered_def)

lemma expand_segments_spec:
  assumes "\<forall>x \<in> set segs. ref_wf (snd x)" and "st_ok w (app_projectId app) (cache, secrets)"
  shows "case expand_list (ref_value w app opts vars fetched) segs of
      None \<Rightarrow> \<exists>e. expand_segments w app opts vars fetched key segs resolved (cache, secrets) = Inl e
    | Some x \<Rightarrow> \<exists>cache' secrets'.
        expand_segments w app opts vars fetched key segs resolved (cache, secrets) = Inr (resolved @ x, cache', secrets') \<and>
        st_ok w (app_projectId app) (cache', secrets') \<and> set secrets \<subseteq> set secrets' \<and>
        covered w (app_projectId app) (snd ` set segs) secrets'"
  using assms
proof (induction segs arbitrary: resolved cache secrets)
  case Nil
  then show ?case by (simp add: covered_def)
next
  case (Cons h segs)
  obtain lit m where h: "h = (lit, m)" by (cases h)
  have wf: "ref_wf m" using Cons.prems(1) h by simp
  show ?case
  proof (cases "ref_value w app opts vars fetched m")
    case None
    then show ?thesis using expand_ref_spec [OF wf Cons.prems(2), of opts vars fetched key] h by auto
  next
    case (Some v)
    then obtain c1 s1 where one: "expand_ref w app opts vars fetched key m (cache, secrets) = Inr (v, c1, s1)"
      "st_ok w (app_projectId app) (c1, s1)" "set secrets \<subseteq> set s1" "covered w (app_projectId app) {m} s1"
      using expand_ref_spec [OF wf Cons.prems(2), of opts vars fetched key] by auto
    have IH: "case expand_list (ref_value w app opts vars fetched) segs of
        None \<Rightarrow> \<exists>e. expand_segments w app opts vars fetched key segs (resolved @ lit @ v) (c1, s1) = Inl e
      | Some x \<Rightarrow> \<exists>cache' secrets'.
          expand_segments w app opts vars fetched key segs (resolved @ lit @ v) (c1, s1) = Inr ((resolved @ lit @ v) @ x, cache', secrets') \<and>
          st_ok w (app_projectId app) (cache', secrets') \<and> set s1 \<subseteq> set secrets' \<and>
          covered w (app_projectId app) (snd ` set segs) secrets'"
      using Cons.IH [OF _ one(2)] Cons.prems(1) by simp
    show ?thesis
    proof (cases "expand_list (ref_value w app opts vars fetched) segs")
      case None
      then show ?thesis using IH Some one(1) h by auto
    next
      case x: (Some x)
      then obtain c2 s2 where two: "expand_segments w app opts vars fetched key segs (resolved @ lit @ v) (c1, s1) = Inr ((resolved @ lit @ v) @ x, c2, s2)"
        "st_ok w (app_projectId app) (c2, s2)" "set s1 \<subseteq> set s2" "covered w (app_projectId app) (snd ` set segs) s2"
        using IH by auto
      moreover have "covered w (app_projectId app) (insert m (snd ` set segs)) s2"
        using covered_insert covered_mono [OF one(4) two(3)] two(4) by blast
      ultimately show ?thesis using x Some one h by auto
    qed
  qed
qed

text \<open>The value of one entry and of a list of entries.\<close>

definition entry_value :: "(refm \<Rightarrow> string option) \<Rightarrow> string list \<Rightarrow> string \<times> string \<Rightarrow> string option" where
  "entry_value val literal kv = (if fst kv \<in> set literal then Some (snd kv) else expansion val (snd kv))"

fun entry_list :: "(refm \<Rightarrow> string option) \<Rightarrow> string list \<Rightarrow> (string \<times> string) list \<Rightarrow> (string \<times> string) list option" where
  "entry_list val literal [] = Some []"
| "entry_list val literal (kv # kvs) = (case entry_value val literal kv of None \<Rightarrow> None
     | Some x \<Rightarrow> map_option ((#) (fst kv, x)) (entry_list val literal kvs))"

definition flags_for :: "layered \<Rightarrow> string list \<Rightarrow> string list \<Rightarrow> string \<Rightarrow> flags" where
  "flags_for l own literal key = (if has_key (l_vars l) key \<and> key \<notin> set own \<and> key \<notin> set literal then l_flags l else [])"

text \<open>What the secrets hold for an expanded entry.\<close>

definition entry_hidden ::
    "resolve_world \<Rightarrow> string \<Rightarrow> (refm \<Rightarrow> string option) \<Rightarrow> layered \<Rightarrow> string list \<Rightarrow> string list \<Rightarrow> string list \<Rightarrow> string \<times> string \<Rightarrow> bool" where
  "entry_hidden w pid val l own literal secrets kv \<longleftrightarrow> (fst kv \<notin> set literal \<longrightarrow>
     covered w pid (snd ` set (fst (segments (snd kv)))) secrets \<and>
     (\<forall>x. expansion val (snd kv) = Some x \<longrightarrow> isSecretValue (fst kv) x (flags_for l own literal (fst kv)) \<longrightarrow> x \<in> set secrets))"

lemma entry_hidden_mono:
  "entry_hidden w pid val l own literal secrets kv \<Longrightarrow> set secrets \<subseteq> set secrets' \<Longrightarrow> entry_hidden w pid val l own literal secrets' kv"
  using covered_mono by (fastforce simp: entry_hidden_def)

lemma resolve_entry_spec:
  assumes ok: "st_ok w (app_projectId app) (cache, secrets)" and val: "val = ref_value w app opts (l_vars l) fetched"
  shows "case entry_value val literal kv of
      None \<Rightarrow> \<exists>e. resolve_entry w app opts l own literal fetched kv (out, cache, secrets) = Inl e
    | Some x \<Rightarrow> \<exists>cache' secrets'.
        resolve_entry w app opts l own literal fetched kv (out, cache, secrets) = Inr (out @ [(fst kv, x)], cache', secrets') \<and>
        st_ok w (app_projectId app) (cache', secrets') \<and> set secrets \<subseteq> set secrets' \<and>
        entry_hidden w (app_projectId app) val l own literal secrets' kv"
proof -
  obtain key v where kv: "kv = (key, v)" by (cases kv)
  show ?thesis
  proof (cases "key \<in> set literal")
    case True
    then show ?thesis using kv ok by (simp add: resolve_entry_def entry_value_def entry_hidden_def)
  next
    case lit: False
    have wf: "\<forall>x \<in> set (fst (segments v)). ref_wf (snd x)" using segments_wf by fastforce
    note spec = expand_segments_spec [OF wf ok, of opts "l_vars l" fetched key "[]", folded val]
    show ?thesis
    proof (cases "expand_list val (fst (segments v))")
      case None
      then show ?thesis using spec kv lit by (auto simp: resolve_entry_def entry_value_def expansion_def)
    next
      case (Some r)
      then obtain c1 s1 where one: "expand_segments w app opts (l_vars l) fetched key (fst (segments v)) [] (cache, secrets) = Inr (r, c1, s1)"
        "st_ok w (app_projectId app) (c1, s1)" "set secrets \<subseteq> set s1" "covered w (app_projectId app) (snd ` set (fst (segments v))) s1"
        using spec by auto
      let ?x = "r @ snd (segments v)"
      let ?s = "if isSecretValue key ?x (flags_for l own literal key) then set_add ?x s1 else s1"
      have x: "expansion val v = Some ?x" using Some by (simp add: expansion_def)
      have grow: "set s1 \<subseteq> set ?s" by auto
      have run: "resolve_entry w app opts l own literal fetched kv (out, cache, secrets) = Inr (out @ [(key, ?x)], c1, ?s)"
        using one(1) kv lit by (simp add: resolve_entry_def flags_for_def Let_def)
      moreover have "st_ok w (app_projectId app) (c1, ?s)" using st_ok_mono [OF one(2) grow] .
      moreover have "entry_hidden w (app_projectId app) val l own literal ?s kv"
        using x kv covered_mono [OF one(4) grow] by (simp add: entry_hidden_def)
      moreover have "set secrets \<subseteq> set ?s" using one(3) grow by blast
      ultimately show ?thesis using x kv lit by (auto simp: entry_value_def)
    qed
  qed
qed

lemma resolve_entries_spec:
  assumes "st_ok w (app_projectId app) (cache, secrets)" and val: "val = ref_value w app opts (l_vars l) fetched"
  shows "case entry_list val literal kvs of
      None \<Rightarrow> \<exists>e. resolve_entries w app opts l own literal fetched kvs (out, cache, secrets) = Inl e
    | Some xs \<Rightarrow> \<exists>cache' secrets'.
        resolve_entries w app opts l own literal fetched kvs (out, cache, secrets) = Inr (out @ xs, cache', secrets') \<and>
        set secrets \<subseteq> set secrets' \<and> (\<forall>kv \<in> set kvs. entry_hidden w (app_projectId app) val l own literal secrets' kv)"
  using assms(1)
proof (induction kvs arbitrary: out cache secrets)
  case (Cons kv kvs)
  note one = resolve_entry_spec [OF Cons.prems val, where literal = literal and kv = kv and own = own and out = out]
  show ?case
  proof (cases "entry_value val literal kv")
    case None
    then show ?thesis using one by auto
  next
    case (Some x)
    then obtain c1 s1 where run: "resolve_entry w app opts l own literal fetched kv (out, cache, secrets) = Inr (out @ [(fst kv, x)], c1, s1)"
      and ok: "st_ok w (app_projectId app) (c1, s1)" and sub: "set secrets \<subseteq> set s1"
      and hid: "entry_hidden w (app_projectId app) val l own literal s1 kv" using one by auto
    note IH = Cons.IH [OF ok, of "out @ [(fst kv, x)]"]
    show ?thesis
    proof (cases "entry_list val literal kvs")
      case None
      then show ?thesis using IH run Some by auto
    next
      case xs: (Some xs)
      then obtain c2 s2 where two: "resolve_entries w app opts l own literal fetched kvs (out @ [(fst kv, x)], c1, s1) = Inr ((out @ [(fst kv, x)]) @ xs, c2, s2)"
        "set s1 \<subseteq> set s2" "\<forall>kv \<in> set kvs. entry_hidden w (app_projectId app) val l own literal s2 kv" using IH by auto
      then show ?thesis using run Some xs sub entry_hidden_mono [OF hid two(2)] by auto
    qed
  qed
qed simp

lemma entry_list_None_iff: "entry_list val literal kvs = None \<longleftrightarrow> (\<exists>kv \<in> set kvs. entry_value val literal kv = None)"
  by (induction kvs) (auto split: option.splits)

lemma entry_list_keys: "entry_list val literal kvs = Some xs \<Longrightarrow> map fst xs = map fst kvs"
  by (induction kvs arbitrary: xs) (auto split: option.splits)

lemma entry_list_lookup:
  "entry_list val literal kvs = Some xs \<Longrightarrow>
   map_of xs k = (case map_of kvs k of None \<Rightarrow> None | Some v \<Rightarrow> entry_value val literal (k, v))"
  by (induction kvs arbitrary: xs) (auto split: option.splits)

section \<open>Layers and precedence\<close>

lemma add_layer_vars: "l_vars (add_layer ly l) = fold (\<lambda>(k, v) m. AList.update k v m) (parseEnvLines (layer_text ly)) (l_vars l)"
proof -
  have "l_vars (fold (add_entry fl) es l) = fold (\<lambda>(k, v) m. AList.update k v m) es (l_vars l)" for fl es
    by (induction es arbitrary: l) (auto simp: add_entry_def)
  then show ?thesis by (simp add: add_layer_def)
qed

lemma merge_layers_vars:
  "l_vars (merge_layers lys) = map_of_entries (concat (map (\<lambda>ly. parseEnvLines (layer_text ly)) lys))"
proof -
  have "l_vars (fold add_layer lys l) = fold (\<lambda>(k, v) m. AList.update k v m) (concat (map (\<lambda>ly. parseEnvLines (layer_text ly)) lys)) (l_vars l)" for l
    by (induction lys arbitrary: l) (simp_all add: add_layer_vars)
  then show ?thesis by (simp add: merge_layers_def map_of_entries_def)
qed

definition linked_ids :: "resolve_world \<Rightarrow> res_app \<Rightarrow> resolve_options \<Rightarrow> string list" where
  "linked_ids w app opts = (case opt_environmentIds opts of Some i \<Rightarrow> i
     | None \<Rightarrow> environmentIdsFor (w_state w) (opt_owner opts) (app_id app))"

definition linked :: "resolve_world \<Rightarrow> res_app \<Rightarrow> resolve_options \<Rightarrow> layered" where
  "linked w app opts = merge_layers (layersFor (w_decrypt w) (w_state w) (linked_ids w app opts))"

text \<open>The variables of the linked environments, last one first.\<close>

definition layer_entries :: "resolve_world \<Rightarrow> res_app \<Rightarrow> resolve_options \<Rightarrow> (string \<times> string) list" where
  "layer_entries w app opts =
     rev (concat (map (\<lambda>ly. parseEnvLines (layer_text ly)) (layersFor (w_decrypt w) (w_state w) (linked_ids w app opts))))"

definition fetched_for :: "resolve_world \<Rightarrow> res_app \<Rightarrow> resolve_options \<Rightarrow> resolve_error + (string, string) jsmap option" where
  "fetched_for w app opts = fetch_secrets w app opts (map snd (l_vars (linked w app opts)) @ map snd (parseEnvLines (app_env app)))"

text \<open>Where a variable of the container comes from.\<close>

datatype origin = Literal string | Expand string

definition env_source :: "resolve_world \<Rightarrow> res_app \<Rightarrow> resolve_options \<Rightarrow> (string, string) jsmap option \<Rightarrow> string \<Rightarrow> origin option" where
  "env_source w app opts fetched k = (case map_of (rev (parseEnvLines (app_env app))) k of
       Some v \<Rightarrow> Some (Expand v)
     | None \<Rightarrow> (case map_of (rev (synced app fetched)) k of
           Some v \<Rightarrow> Some (Literal v)
         | None \<Rightarrow> map_option Expand (map_of (layer_entries w app opts) k)))"

definition literals :: "res_app \<Rightarrow> (string, string) jsmap option \<Rightarrow> string list" where
  "literals app fetched = filter (\<lambda>k. k \<notin> set (map fst (parseEnvLines (app_env app)))) (nub (map fst (synced app fetched)))"

definition merged_env :: "resolve_world \<Rightarrow> res_app \<Rightarrow> resolve_options \<Rightarrow> (string, string) jsmap option \<Rightarrow> (string \<times> string) list" where
  "merged_env w app opts fetched = fold (\<lambda>(k, v) m. AList.update k v m) (synced app fetched @ parseEnvLines (app_env app)) (l_vars (linked w app opts))"

lemma merged_env_distinct: "distinct (map fst (merged_env w app opts fetched))"
  unfolding merged_env_def by (intro distinct_fold_update) (simp add: linked_def merge_layers_vars)

lemma merged_env_lookup:
  "map_of (merged_env w app opts fetched) k = map_option (\<lambda>x. case x of Literal v \<Rightarrow> v | Expand v \<Rightarrow> v) (env_source w app opts fetched k)"
proof -
  have "map_of (l_vars (linked w app opts)) = map_of (layer_entries w app opts)"
    by (simp add: linked_def merge_layers_vars map_of_map_of_entries layer_entries_def)
  then show ?thesis
    by (auto simp: merged_env_def map_of_fold_update env_source_def map_add_def option.map_comp comp_def option.map_ident split: option.splits)
qed

lemma literals_iff: "k \<in> set (literals app fetched) \<longleftrightarrow> (\<exists>v. env_source w app opts fetched k = Some (Literal v))"
proof -
  have "map_of (rev xs) k = None \<longleftrightarrow> k \<notin> fst ` set xs" for xs :: "(string \<times> string) list" by (simp add: map_of_eq_None_iff)
  then have "k \<in> set (map fst xs) \<longleftrightarrow> (\<exists>v. map_of (rev xs) k = Some v)" for xs :: "(string \<times> string) list"
    by (metis option.exhaust option.distinct(1) set_map)
  then have "k \<in> set (literals app fetched) \<longleftrightarrow> (\<exists>v. map_of (rev (synced app fetched)) k = Some v) \<and>
      map_of (rev (parseEnvLines (app_env app))) k = None" unfolding literals_def by (simp del: set_map)
  then show ?thesis
    by (cases "map_of (rev (parseEnvLines (app_env app))) k"; cases "map_of (rev (synced app fetched)) k")
      (simp_all add: env_source_def)
qed

text \<open>The value of a variable according to its source.\<close>

definition origin_value :: "(refm \<Rightarrow> string option) \<Rightarrow> origin \<Rightarrow> string option" where
  "origin_value val x = (case x of Literal v \<Rightarrow> Some v | Expand v \<Rightarrow> expansion val v)"

lemma entry_value_source:
  assumes "env_source w app opts fetched k = Some x"
  shows "entry_value val (literals app fetched) (k, case x of Literal v \<Rightarrow> v | Expand v \<Rightarrow> v) = origin_value val x"
  using assms literals_iff [of k app fetched w opts] by (cases x) (auto simp: entry_value_def origin_value_def)

definition values_at :: "resolve_world \<Rightarrow> res_app \<Rightarrow> resolve_options \<Rightarrow> (string, string) jsmap option \<Rightarrow> refm \<Rightarrow> string option" where
  "values_at w app opts fetched = ref_value w app opts (l_vars (linked w app opts)) fetched"

definition first_secrets :: "resolve_world \<Rightarrow> res_app \<Rightarrow> resolve_options \<Rightarrow> (string, string) jsmap option \<Rightarrow> string list" where
  "first_secrets w app opts fetched = fold set_add (filter (\<lambda>v. MIN_REDACT_LENGTH \<le> length v)
     (case fetched of None \<Rightarrow> [] | Some f \<Rightarrow> map snd f)) (l_secrets (linked w app opts))"

lemma resolve_env_unfold:
  "resolve_env w app opts = rbind (fetched_for w app opts) (\<lambda>fetched.
     rbind (resolve_entries w app opts (linked w app opts) (map fst (parseEnvLines (app_env app))) (literals app fetched) fetched
         (merged_env w app opts fetched) ([], [], first_secrets w app opts fetched))
       (\<lambda>(out, cache, secrets). Inr \<lparr>entries_of = out, secrets_of = secrets\<rparr>))"
  by (simp add: resolve_env_def fetched_for_def linked_def linked_ids_def merged_env_def literals_def first_secrets_def Let_def)

lemma st_ok_start: "st_ok w pid ([], secrets)"
  by (simp add: st_ok_def)

lemma resolve_env_cases:
  assumes "fetched_for w app opts = Inr fetched"
  shows "case entry_list (values_at w app opts fetched) (literals app fetched) (merged_env w app opts fetched) of
      None \<Rightarrow> \<exists>e. resolve_env w app opts = Inl e
    | Some xs \<Rightarrow> \<exists>secrets. resolve_env w app opts = Inr \<lparr>entries_of = xs, secrets_of = secrets\<rparr> \<and>
        set (first_secrets w app opts fetched) \<subseteq> set secrets \<and>
        (\<forall>kv \<in> set (merged_env w app opts fetched). entry_hidden w (app_projectId app) (values_at w app opts fetched)
           (linked w app opts) (map fst (parseEnvLines (app_env app))) (literals app fetched) secrets kv)"
  using resolve_entries_spec [OF st_ok_start [of w "app_projectId app" "first_secrets w app opts fetched"] values_at_def [of w app opts fetched],
      where literal = "literals app fetched" and kvs = "merged_env w app opts fetched"
        and own = "map fst (parseEnvLines (app_env app))" and out = "[]"] assms
  by (auto simp: resolve_env_unfold split: option.splits)

section \<open>Properties\<close>

text \<open>
  C3: what the container gets.  Resolution succeeds exactly when every reference of every variable that is
  expanded can be resolved; the result then has each variable once, taken from the application's own
  environment, else from a synced secret (as it is), else from the last linked environment that defines it,
  with every reference replaced by its value.  The cache of database fields never shows.
\<close>

theorem resolve_env_spec:
  assumes "fetched_for w app opts = Inr fetched"
  shows "case resolve_env w app opts of
      Inl _ \<Rightarrow> \<exists>k v. env_source w app opts fetched k = Some (Expand v) \<and> expansion (values_at w app opts fetched) v = None
    | Inr r \<Rightarrow> distinct (map fst (entries_of r)) \<and>
        (\<forall>k. map_of (entries_of r) k = Option.bind (env_source w app opts fetched k) (origin_value (values_at w app opts fetched))) \<and>
        (\<forall>k x. env_source w app opts fetched k = Some x \<longrightarrow> origin_value (values_at w app opts fetched) x \<noteq> None)"
proof -
  let ?val = "values_at w app opts fetched" and ?m = "merged_env w app opts fetched"
  have at: "entry_value ?val (literals app fetched) (k, v) = origin_value ?val x"
    if "env_source w app opts fetched k = Some x" "map_of ?m k = Some v" for k v x
    using entry_value_source [OF that(1)] that merged_env_lookup [of w app opts fetched k] by simp
  show ?thesis
  proof (cases "entry_list ?val (literals app fetched) ?m")
    case None
    then obtain k v where kv: "(k, v) \<in> set ?m" "entry_value ?val (literals app fetched) (k, v) = None"
      by (auto simp: entry_list_None_iff)
    then have "map_of ?m k = Some v" using merged_env_distinct by (simp add: map_of_is_SomeI)
    moreover from this obtain x where "env_source w app opts fetched k = Some x"
      using merged_env_lookup [of w app opts fetched k] by (cases "env_source w app opts fetched k") auto
    ultimately have "env_source w app opts fetched k = Some x" "origin_value ?val x = None" using at kv(2) by auto
    then have "\<exists>k v. env_source w app opts fetched k = Some (Expand v) \<and> expansion ?val v = None"
      by (cases x) (auto simp: origin_value_def)
    moreover obtain e where "resolve_env w app opts = Inl e" using None resolve_env_cases [OF assms] by auto
    ultimately show ?thesis by (simp only: sum.case)
  next
    case (Some xs)
    then obtain secrets where r: "resolve_env w app opts = Inr \<lparr>entries_of = xs, secrets_of = secrets\<rparr>"
      using resolve_env_cases [OF assms] by auto
    have "map_of xs k = Option.bind (env_source w app opts fetched k) (origin_value ?val) \<and>
        (\<forall>x. env_source w app opts fetched k = Some x \<longrightarrow> origin_value ?val x \<noteq> None)" for k
    proof (cases "env_source w app opts fetched k")
      case None
      then show ?thesis using entry_list_lookup [OF Some, of k] merged_env_lookup [of w app opts fetched k] by simp
    next
      case x: (Some x)
      then obtain v where v: "map_of ?m k = Some v" using merged_env_lookup [of w app opts fetched k] by simp
      then have "entry_value ?val (literals app fetched) (k, v) \<noteq> None"
        using Some entry_list_None_iff [of ?val "literals app fetched" ?m] map_of_SomeD [OF v] by fastforce
      then show ?thesis using entry_list_lookup [OF Some, of k] at [OF x v] x v by simp
    qed
    then show ?thesis using r entry_list_keys [OF Some] merged_env_distinct by simp
  qed
qed

definition demo_row :: "string \<Rightarrow> string \<Rightarrow> bool obj \<Rightarrow> set_environment" where
  "demo_row i t fl = \<lparr>env_id = i, variableSetId = ''s'', env_name = i, protected = False, variablesEncrypted = Some t,
     keys = keysOf t, secretFlags = fl, env_notes = [], updatedAt = 1\<rparr>"

definition demo_res :: resolve_world where
  "demo_res = \<lparr>w_decrypt = (\<lambda>x. x),
     w_state = \<lparr>people = \<lparr>users = [], projects = [], members = [], api_tokens = []\<rparr>, sets = [], shares = [],
        envs = [demo_row ''base'' (''A=1'' @ [LF] @ ''B=pw'') [], demo_row ''app'' ''A=u:${{vars.B}}@h'' [(''A'', True)]], versions = [],
        links = [\<lparr>link_env = ''app'', owner_kind = Application, owner_id = ''a'', position = 1\<rparr>,
                 \<lparr>link_env = ''base'', owner_kind = Application, owner_id = ''a'', position = 0\<rparr>], owners = []\<rparr>,
     w_databases = [],
     w_publicHost = None, w_fetch = (\<lambda>_ _. SourceError)\<rparr>"

definition demo_app :: res_app where
  "demo_app = \<lparr>app_id = Some ''a'', app_projectId = ''p'', app_env = ''PORT=80'', secretConnectionId = None,
     secretProjectId = None, secretEnvironment = None, secretPath = ''/'', secretSync = False\<rparr>"

definition demo_opts :: resolve_options where
  "demo_opts = \<lparr>opt_secretSource = False, lenient = False, opt_owner = Application, opt_environmentIds = None\<rparr>"

definition demo_result :: resolved_env where
  "demo_result = \<lparr>entries_of = [(''A'', ''u:pw@h''), (''B'', ''pw''), (''PORT'', ''80'')], secrets_of = [''u:${{vars.B}}@h'', ''u:pw@h'']\<rparr>"

lemma demo_run: "resolve_env demo_res demo_app demo_opts = Inr demo_result"
  by code_simp

lemma demo_fetched: "fetched_for demo_res demo_app demo_opts = Inr None"
  by code_simp

theorem resolve_env_spec_witness:
  "env_source demo_res demo_app demo_opts None ''A'' = Some (Expand ''u:${{vars.B}}@h'') \<and>
   expansion (values_at demo_res demo_app demo_opts None) ''u:${{vars.B}}@h'' = Some ''u:pw@h''"
proof -
  have src: "env_source demo_res demo_app demo_opts None ''A'' = Some (Expand ''u:${{vars.B}}@h'')" by code_simp
  from resolve_env_spec [OF demo_fetched] demo_run src have "map_of (entries_of demo_result) ''A'' =
      origin_value (values_at demo_res demo_app demo_opts None) (Expand ''u:${{vars.B}}@h'')" by simp
  then show ?thesis using src by (simp add: origin_value_def demo_result_def)
qed

text \<open>
  A pull-request preview, which is resolved without the secret source, depends in no way on what the
  source would answer, and a variable that refers to a secret makes it fail instead of coming out empty.
\<close>

theorem preview_ignores_source:
  assumes "\<not> opt_secretSource opts"
  shows "resolve_env (w\<lparr>w_fetch := f\<rparr>) app opts = resolve_env w app opts \<and>
    ((\<exists>k v lit m. env_source w app opts None k = Some (Expand v) \<and> (lit, m) \<in> set (fst (segments v)) \<and> is_secret m)
      \<longrightarrow> (\<exists>e. resolve_env w app opts = Inl e))"
proof -
  have off: "\<not> sourceActive app opts" using assms by (simp add: sourceActive_def)
  have ref: "expand_ref (w\<lparr>w_fetch := f\<rparr>) app opts = expand_ref w app opts"
  proof -
    have "databaseFields (w\<lparr>w_fetch := f\<rparr>) = databaseFields w" by (simp add: fun_eq_iff databaseFields_def cong: option.case_cong)
    then show ?thesis by (simp only: fun_eq_iff expand_ref_def) simp
  qed
  have seg: "expand_segments (w\<lparr>w_fetch := f\<rparr>) app opts vars fetched key segs r st = expand_segments w app opts vars fetched key segs r st"
    for vars fetched key segs r st
  proof (induction segs arbitrary: r st)
    case Nil
    show ?case by (cases st) simp
  next
    case (Cons h segs)
    then show ?case by (cases h) (auto simp: ref rbind_def split: sum.splits)
  qed
  have "resolve_entry (w\<lparr>w_fetch := f\<rparr>) app opts = resolve_entry w app opts" by (simp add: fun_eq_iff resolve_entry_def seg)
  then have ent: "resolve_entries (w\<lparr>w_fetch := f\<rparr>) app opts l own lt fe kvs st = resolve_entries w app opts l own lt fe kvs st"
    for l own lt fe kvs st by (induction kvs arbitrary: st) (auto simp: rbind_def split: sum.splits)
  have none: "fetch_secrets w' app opts vals = Inr None" for w' vals using off by (simp add: fetch_secrets_def)
  have "resolve_env (w\<lparr>w_fetch := f\<rparr>) app opts = resolve_env w app opts"
    by (simp add: resolve_env_def none ent cong: option.case_cong)
  moreover have "\<exists>e. resolve_env w app opts = Inl e"
    if h: "env_source w app opts None k = Some (Expand v)" "(lit, m) \<in> set (fst (segments v))" "is_secret m" for k v lit m
  proof -
    have "ref_value w app opts vars None m = None" for vars
      using off h(3) ref_kinds_disjoint(1) [of m] by (auto simp: ref_value_def)
    moreover have "expand_list val segs = None" if "(lit, m) \<in> set segs" "val m = None" for val segs
      using that by (induction val segs rule: expand_list.induct) (auto split: option.splits)
    ultimately have no: "expansion (values_at w app opts None) v = None" using h(2) by (simp add: expansion_def values_at_def)
    obtain x where x: "map_of (merged_env w app opts None) k = Some x" "x = v"
      using merged_env_lookup [of w app opts None k] h(1) by simp
    moreover have "k \<notin> set (literals app None)" using literals_iff [of k app None w opts] h(1) by simp
    ultimately have "entry_list (values_at w app opts None) (literals app None) (merged_env w app opts None) = None"
      using no map_of_SomeD [of "merged_env w app opts None" k x]
      by (auto simp: entry_list_None_iff entry_value_def intro!: bexI [of _ "(k, v)"])
    then show ?thesis using resolve_env_cases [of w app opts None] none by (simp add: fetched_for_def)
  qed
  ultimately show ?thesis by blast
qed

theorem preview_ignores_source_witness:
  "\<exists>e. resolve_env (demo_res\<lparr>w_fetch := \<lambda>_ _. Fetched [(''K'', ''v'')]\<rparr>) (demo_app\<lparr>app_env := ''X=${{secret.K}}''\<rparr>) demo_opts = Inl e"
proof -
  let ?app = "demo_app\<lparr>app_env := ''X=${{secret.K}}''\<rparr>"
  let ?m = "\<lparr>whole = ''${{secret.K}}'', scope = ''secret'', refname = ''K'', field = None, dbname = None\<rparr>"
  have "\<not> opt_secretSource demo_opts" by code_simp
  note p = preview_ignores_source [OF this, where w = demo_res and f = "\<lambda>_ _. Fetched [(''K'', ''v'')]" and app = ?app]
  have "env_source demo_res ?app demo_opts None ''X'' = Some (Expand ''${{secret.K}}'')" by code_simp
  moreover have "([], ?m) \<in> set (fst (segments ''${{secret.K}}''))" by code_simp
  moreover have "is_secret ?m" by code_simp
  ultimately show ?thesis using p by metis
qed

text \<open>What has to stay out of the logs of a deployment that got an environment.\<close>

definition to_hide ::
    "resolve_world \<Rightarrow> res_app \<Rightarrow> resolve_options \<Rightarrow> (string, string) jsmap option \<Rightarrow> resolved_env \<Rightarrow> string \<Rightarrow> bool" where
  "to_hide w app opts fetched r x \<longleftrightarrow>
     (\<exists>k. (k, x) \<in> set (entries_of r) \<and> k \<notin> set (literals app fetched) \<and>
        isSecretValue k x (flags_for (linked w app opts) (map fst (parseEnvLines (app_env app))) (literals app fetched) k)) \<or>
     (\<exists>k v lit m fs. env_source w app opts fetched k = Some (Expand v) \<and> (lit, m) \<in> set (fst (segments v)) \<and> is_database m \<and>
        fields_at w (app_projectId app) m = Some fs \<and> x = field_of fs (Some ''password'')) \<or>
     (\<exists>f k. fetched = Some f \<and> (k, x) \<in> set f \<and> MIN_REDACT_LENGTH \<le> length x)"

lemma set_fold_set_add: "set (fold set_add xs ys) = set xs \<union> set ys"
  by (induction xs arbitrary: ys) auto

lemma to_hide_secrets:
  assumes run: "resolve_env w app opts = Inr r" and fetch: "fetched_for w app opts = Inr fetched" and "to_hide w app opts fetched r x"
  shows "x \<in> set (secrets_of r)"
proof -
  let ?val = "values_at w app opts fetched" and ?m = "merged_env w app opts fetched" and ?lit = "literals app fetched"
  obtain xs where xs: "entry_list ?val ?lit ?m = Some xs" using resolve_env_cases [OF fetch] run by (cases "entry_list ?val ?lit ?m") auto
  then have r: "entries_of r = xs" and first: "set (first_secrets w app opts fetched) \<subseteq> set (secrets_of r)"
    and hid: "\<forall>kv \<in> set ?m. entry_hidden w (app_projectId app) ?val (linked w app opts) (map fst (parseEnvLines (app_env app))) ?lit (secrets_of r) kv"
    using resolve_env_cases [OF fetch] run by auto
  from assms(3) consider
    (entry) k where "(k, x) \<in> set xs" "k \<notin> set ?lit"
      "isSecretValue k x (flags_for (linked w app opts) (map fst (parseEnvLines (app_env app))) ?lit k)"
  | (password) k v lit m fs where "env_source w app opts fetched k = Some (Expand v)" "(lit, m) \<in> set (fst (segments v))" "is_database m"
      "fields_at w (app_projectId app) m = Some fs" "x = field_of fs (Some ''password'')"
  | (source) f k where "fetched = Some f" "(k, x) \<in> set f" "MIN_REDACT_LENGTH \<le> length x"
    using r unfolding to_hide_def by blast
  then show ?thesis
  proof cases
    case entry
    have "distinct (map fst xs)" using entry_list_keys [OF xs] merged_env_distinct by simp
    then have "map_of xs k = Some x" using entry(1) by (simp add: map_of_is_SomeI)
    then obtain v where v: "map_of ?m k = Some v" "entry_value ?val ?lit (k, v) = Some x"
      using entry_list_lookup [OF xs, of k] by (auto split: option.splits)
    then have "entry_hidden w (app_projectId app) ?val (linked w app opts) (map fst (parseEnvLines (app_env app))) ?lit (secrets_of r) (k, v)"
      using hid map_of_SomeD [OF v(1)] by blast
    then show ?thesis using v(2) entry(2,3) by (simp add: entry_hidden_def entry_value_def)
  next
    case password
    then have "map_of ?m k = Some v" "k \<notin> set ?lit" using merged_env_lookup [of w app opts fetched k] literals_iff [of k app fetched w opts] by auto
    then have "covered w (app_projectId app) (snd ` set (fst (segments v))) (secrets_of r)"
      using hid map_of_SomeD [of ?m k v] by (auto simp: entry_hidden_def)
    then show ?thesis using password(2-5) by (force simp: covered_def password_in_def)
  next
    case source
    then show ?thesis using first by (force simp: first_secrets_def set_fold_set_add)
  qed
qed



end
