(* ===== verification/Monitors.thy ===== *)
theory Monitors
  imports Complex_Main Retention Set_Names
begin

text \<open>
  Watching applications: the alerting rule of HTTP monitors (\<open>http-monitor/monitor-state.ts\<close>), the healthy
  status codes (\<open>http-monitor/http-probe.ts\<close>), the monitor service with its incidents
  (\<open>http-monitor/http-monitor.service.ts\<close>), and the rules on CPU and memory
  (\<open>resource-alert/alert-evaluation.ts\<close>, \<open>resource-alert/resource-alert.service.ts\<close>).  Instants are
  milliseconds, percentages rationals.  The answer of a probe and the address that is probed are inputs.
\<close>

section \<open>The alerting rule of a monitor\<close>

datatype monitor_status = Unknown | Up | Down

datatype monitor_event = WentDown | Recovered

definition REALERT_MS :: int where "REALERT_MS = 6 * 60 * 60000"

definition POST_DEPLOY_GRACE_MS :: int where "POST_DEPLOY_GRACE_MS = 60000"

text \<open>Status, failures in a row and event after one check.\<close>

definition nextState :: "nat \<Rightarrow> monitor_status \<times> nat \<Rightarrow> bool \<Rightarrow> (monitor_status \<times> nat) \<times> monitor_event option" where
  "nextState threshold prev ok = (case prev of (st, n) \<Rightarrow>
     if ok then ((Up, 0), if st = Down then Some Recovered else None)
     else let failures = n + 1 in
       if failures \<ge> threshold then ((Down, failures), if st = Down then None else Some WentDown)
       else ((st, failures), None))"

definition isDue :: "int option \<Rightarrow> nat \<Rightarrow> int \<Rightarrow> bool" where
  "isDue lastAt interval now = (case lastAt of None \<Rightarrow> True | Some t \<Rightarrow> now - t \<ge> int interval * 60000 - 10000)"

definition shouldRealert :: "int option \<Rightarrow> int \<Rightarrow> bool" where
  "shouldRealert lastAt now = (case lastAt of None \<Rightarrow> True | Some t \<Rightarrow> now - t \<ge> REALERT_MS)"

text \<open>\<open>45s\<close>, \<open>12m\<close>, \<open>3h 10m\<close>; \<open>Math.round\<close> rounds halves up.\<close>

definition formatDownTime :: "int \<Rightarrow> string" where
  "formatDownTime ms = (let seconds = nat (max 0 ((ms + 500) div 1000)) in
     if seconds < 60 then nat_str seconds @ ''s''
     else let minutes = (seconds + 30) div 60 in
       if minutes < 60 then nat_str minutes @ ''m''
       else nat_str (minutes div 60) @ ''h '' @ nat_str (minutes mod 60) @ ''m'')"

section \<open>Healthy status codes\<close>

text \<open>\<open>/^(\d{3})(?:-(\d{3}))?$/\<close> on a trimmed part.\<close>

definition num3 :: "string \<Rightarrow> nat" where
  "num3 s = fold (\<lambda>c n. 10 * n + (of_char c - 48)) s 0"

definition digits3 :: "string \<Rightarrow> bool" where
  "digits3 s \<longleftrightarrow> length s = 3 \<and> list_all is_digit s"

definition parse_range :: "string \<Rightarrow> (nat \<times> nat) option" where
  "parse_range p =
     (let lohi = (if digits3 p then Some (num3 p, num3 p)
                  else if length p = 7 \<and> digits3 (take 3 p) \<and> p ! 3 = CHR ''-'' \<and> digits3 (drop 4 p)
                  then Some (num3 (take 3 p), num3 (drop 4 p)) else None)
      in case lohi of None \<Rightarrow> None
         | Some (lo, hi) \<Rightarrow> if lo < 100 \<or> hi > 599 \<or> lo > hi then None else Some (lo, hi))"

fun parse_ranges :: "string list \<Rightarrow> (nat \<times> nat) list option" where
  "parse_ranges [] = Some []"
| "parse_ranges (p # ps) = (case parse_range p of None \<Rightarrow> None | Some r \<Rightarrow> map_option ((#) r) (parse_ranges ps))"

definition parseExpectedCodes :: "string \<Rightarrow> (nat \<times> nat) list option" where
  "parseExpectedCodes spec =
     (if length spec > 80 then None
      else let parts = map trim (split_on CHR '','' spec) in
        if length parts = 0 \<or> length parts > 10 then None else parse_ranges parts)"

definition statusIsHealthy :: "nat \<Rightarrow> string \<Rightarrow> bool" where
  "statusIsHealthy code spec = (case parseExpectedCodes spec of
       None \<Rightarrow> code \<ge> 200 \<and> code < 400
     | Some rs \<Rightarrow> list_ex (\<lambda>(lo, hi). code \<ge> lo \<and> code \<le> hi) rs)"

section \<open>The monitor service\<close>

record http_monitor =
  mon_id :: string
  mon_app :: string
  mon_enabled :: bool
  mon_path :: string
  intervalMinutes :: nat
  timeoutSeconds :: nat
  expectedCodes :: string
  failureThreshold :: nat
  useInternal :: bool
  mon_status :: monitor_status
  consecutiveFailures :: nat
  statusSince :: "int option"
  lastCheckedAt :: "int option"
  lastStatusCode :: "nat option"
  lastLatencyMs :: "nat option"
  lastError :: "string option"
  lastTarget :: "string option"
  lastAlertAt :: "int option"

record http_check =
  chk_id :: nat
  chk_monitor :: string
  chk_at :: int
  chk_ok :: bool
  chk_statusCode :: "nat option"
  chk_latencyMs :: nat
  chk_error :: "string option"

record http_incident =
  inc_id :: string
  inc_monitor :: string
  inc_startedAt :: int
  inc_endedAt :: "int option"
  inc_reason :: "string option"
  inc_failedChecks :: nat

datatype message_kind = MsgDown | MsgRecovered | MsgStillDown

record mon_message =
  msg_kind :: message_kind
  msg_monitor :: string
  msg_error :: "string option"
  msg_since :: "int option"
  msg_at :: int

record mon_state =
  monitors :: "http_monitor list"
  checks :: "http_check list"
  incidents :: "http_incident list"
  sent :: "mon_message list"
  inFlight :: "string list"

record probe_result =
  pr_statusCode :: "nat option"
  pr_latencyMs :: nat
  pr_error :: "string option"

text \<open>\<open>monitors.save(monitor)\<close> writes every column of the object it is given.\<close>

definition save_monitor :: "http_monitor \<Rightarrow> mon_state \<Rightarrow> mon_state" where
  "save_monitor m s = (if list_ex (\<lambda>x. mon_id x = mon_id m) (monitors s)
     then s\<lparr>monitors := map (\<lambda>x. if mon_id x = mon_id m then m else x) (monitors s)\<rparr>
     else s\<lparr>monitors := monitors s @ [m]\<rparr>)"

definition close_incidents :: "(http_incident \<Rightarrow> bool) \<Rightarrow> int \<Rightarrow> mon_state \<Rightarrow> mon_state" where
  "close_incidents P now s = s\<lparr>incidents := map (\<lambda>i. if P i then i\<lparr>inc_endedAt := Some now\<rparr> else i) (incidents s)\<rparr>"

definition is_open :: "string \<Rightarrow> http_incident \<Rightarrow> bool" where
  "is_open mid i \<longleftrightarrow> inc_monitor i = mid \<and> inc_endedAt i = None"

definition resetState :: "int \<Rightarrow> http_monitor \<Rightarrow> mon_state \<Rightarrow> http_monitor \<times> mon_state" where
  "resetState now m s = (m\<lparr>mon_status := Unknown, consecutiveFailures := 0, statusSince := None\<rparr>,
     close_incidents (is_open (mon_id m)) now s)"

record monitor_input =
  in_enabled :: "bool option"
  in_path :: "string option"
  in_intervalMinutes :: "nat option"
  in_timeoutSeconds :: "nat option"
  in_expectedCodes :: "string option"
  in_failureThreshold :: "nat option"
  in_useInternal :: "bool option"

definition new_monitor :: "string \<Rightarrow> string \<Rightarrow> http_monitor" where
  "new_monitor i a = \<lparr>mon_id = i, mon_app = a, mon_enabled = False, mon_path = ''/'', intervalMinutes = 5,
     timeoutSeconds = 10, expectedCodes = ''200-399'', failureThreshold = 2, useInternal = False,
     mon_status = Unknown, consecutiveFailures = 0, statusSince = None, lastCheckedAt = None,
     lastStatusCode = None, lastLatencyMs = None, lastError = None, lastTarget = None, lastAlertAt = None\<rparr>"

definition assign_input :: "monitor_input \<Rightarrow> http_monitor \<Rightarrow> http_monitor" where
  "assign_input x m = m\<lparr>mon_enabled := (case in_enabled x of None \<Rightarrow> mon_enabled m | Some v \<Rightarrow> v),
     mon_path := (case in_path x of None \<Rightarrow> mon_path m | Some v \<Rightarrow> v),
     intervalMinutes := (case in_intervalMinutes x of None \<Rightarrow> intervalMinutes m | Some v \<Rightarrow> v),
     timeoutSeconds := (case in_timeoutSeconds x of None \<Rightarrow> timeoutSeconds m | Some v \<Rightarrow> v),
     expectedCodes := (case in_expectedCodes x of None \<Rightarrow> expectedCodes m | Some v \<Rightarrow> v),
     failureThreshold := (case in_failureThreshold x of None \<Rightarrow> failureThreshold m | Some v \<Rightarrow> v),
     useInternal := (case in_useInternal x of None \<Rightarrow> useInternal m | Some v \<Rightarrow> v)\<rparr>"

text \<open>\<open>saveConfig\<close>: turning a monitor off closes its incident, turning it on starts afresh.\<close>

definition saveConfig :: "int \<Rightarrow> string \<Rightarrow> string \<Rightarrow> monitor_input \<Rightarrow> mon_state \<Rightarrow> mon_state" where
  "saveConfig now newId app x s =
     (let existing = find (\<lambda>m. mon_app m = app) (monitors s);
          m0 = (case existing of Some m \<Rightarrow> m | None \<Rightarrow> new_monitor newId app);
          m = assign_input x m0
      in if \<not> mon_enabled m \<and> (mon_enabled m0 \<or> existing \<noteq> None) then
           (case resetState now m s of (m', s') \<Rightarrow> save_monitor m' s')
         else if mon_enabled m \<and> \<not> mon_enabled m0 then
           save_monitor (m\<lparr>mon_status := Unknown, consecutiveFailures := 0, statusSince := None, lastCheckedAt := None\<rparr>) s
         else save_monitor m s)"

text \<open>Incidents and the message of one check; \<open>m\<close> already carries the new status.\<close>

definition transition ::
    "string \<Rightarrow> http_monitor \<Rightarrow> monitor_event option \<Rightarrow> string option \<Rightarrow> int \<Rightarrow> mon_state
     \<Rightarrow> http_monitor \<times> mon_message option \<times> mon_state" where
  "transition newId m ev error now s = (case ev of
       Some WentDown \<Rightarrow>
         (let streak = take (consecutiveFailures m) (newest_by chk_at (filter (\<lambda>c. chk_monitor c = mon_id m) (checks s)));
              startedAt = (if streak = [] then now else chk_at (last streak))
          in (m\<lparr>statusSince := Some startedAt, lastAlertAt := Some now\<rparr>,
              Some \<lparr>msg_kind = MsgDown, msg_monitor = mon_id m, msg_error = error, msg_since = Some startedAt, msg_at = now\<rparr>,
              s\<lparr>incidents := incidents s @ [\<lparr>inc_id = newId, inc_monitor = mon_id m, inc_startedAt = startedAt,
                   inc_endedAt = None, inc_reason = error, inc_failedChecks = consecutiveFailures m\<rparr>]\<rparr>))
     | Some Recovered \<Rightarrow>
         (case newest_by inc_startedAt (filter (is_open (mon_id m)) (incidents s)) of
            [] \<Rightarrow> (m\<lparr>lastAlertAt := None, statusSince := Some now\<rparr>,
                  Some \<lparr>msg_kind = MsgRecovered, msg_monitor = mon_id m, msg_error = None, msg_since = None, msg_at = now\<rparr>, s)
          | i # _ \<Rightarrow> (m\<lparr>lastAlertAt := None, statusSince := Some now\<rparr>,
                  Some \<lparr>msg_kind = MsgRecovered, msg_monitor = mon_id m, msg_error = None, msg_since = Some (inc_startedAt i), msg_at = now\<rparr>,
                  close_incidents (\<lambda>j. inc_id j = inc_id i) now s))
     | None \<Rightarrow>
         (if mon_status m = Down \<and> shouldRealert (lastAlertAt m) now
          then (m\<lparr>lastAlertAt := Some now\<rparr>,
                Some \<lparr>msg_kind = MsgStillDown, msg_monitor = mon_id m, msg_error = error, msg_since = statusSince m, msg_at = now\<rparr>, s)
          else (m, None, s)))"

definition next_check_id :: "mon_state \<Rightarrow> nat" where
  "next_check_id s = Suc (fold max (map chk_id (checks s)) 0)"

text \<open>
  \<open>check\<close> after the probe: \<open>m\<close> is the row as it was loaded before it, \<open>target\<close> the address or the reason why
  there is none.  The first line of the source, which refuses a second check of the same monitor, is \<open>check_begin\<close>.
\<close>

definition check_begin :: "http_monitor \<Rightarrow> mon_state \<Rightarrow> mon_state option" where
  "check_begin m s = (if mon_id m \<in> set (inFlight s) then None else Some (s\<lparr>inFlight := mon_id m # inFlight s\<rparr>))"

definition check_finish :: "string \<Rightarrow> http_monitor \<Rightarrow> string + string \<Rightarrow> probe_result \<Rightarrow> int \<Rightarrow> mon_state \<Rightarrow> mon_state" where
  "check_finish newId m target result now s0 =
     (let s = s0\<lparr>inFlight := filter (\<lambda>i. i \<noteq> mon_id m) (inFlight s0)\<rparr> in case target of
       Inl reason \<Rightarrow> save_monitor (m\<lparr>lastCheckedAt := Some now, lastError := Some reason, lastTarget := None,
                          lastStatusCode := None, lastLatencyMs := None\<rparr>) s
     | Inr url \<Rightarrow>
         (let ok = (case pr_statusCode result of None \<Rightarrow> False | Some c \<Rightarrow> statusIsHealthy c (expectedCodes m));
              error = (if ok then None else Some (take 200 (case pr_error result of Some e \<Rightarrow> e
                 | None \<Rightarrow> ''HTTP '' @ (case pr_statusCode result of None \<Rightarrow> ''null'' | Some c \<Rightarrow> nat_str c))));
              s1 = s\<lparr>checks := checks s @ [\<lparr>chk_id = next_check_id s, chk_monitor = mon_id m, chk_at = now, chk_ok = ok, chk_statusCode = pr_statusCode result,
                      chk_latencyMs = pr_latencyMs result, chk_error = error\<rparr>]\<rparr>
          in case nextState (failureThreshold m) (mon_status m, consecutiveFailures m) ok of ((st, n), ev) \<Rightarrow>
            (case transition newId (m\<lparr>mon_status := st, consecutiveFailures := n,
                  statusSince := (if st \<noteq> mon_status m then Some now else statusSince m), lastCheckedAt := Some now,
                  lastStatusCode := pr_statusCode result, lastLatencyMs := Some (pr_latencyMs result), lastError := error,
                  lastTarget := Some (take 300 url)\<rparr>) ev error now s1 of
               (m', msg, s2) \<Rightarrow> (save_monitor m' s2)\<lparr>sent := sent s2 @ (case msg of None \<Rightarrow> [] | Some x \<Rightarrow> [x])\<rparr>)))"

text \<open>A check that nothing interrupts.\<close>

definition check :: "string \<Rightarrow> http_monitor \<Rightarrow> string + string \<Rightarrow> probe_result \<Rightarrow> int \<Rightarrow> mon_state \<Rightarrow> mon_state" where
  "check newId m target result now s = (case check_begin m s of None \<Rightarrow> s | Some s' \<Rightarrow> check_finish newId m target result now s')"

text \<open>
  The first half of \<open>runDue\<close>, row by row: reset monitors of applications that are not running, forget a streak
  across a deployment, and queue what is due.
\<close>

datatype deployment_status = Queued | Building | Pushing | Starting | Success | Failed

record deployment =
  dep_app :: string
  dep_status :: deployment_status
  dep_finishedAt :: "int option"

definition deploying_apps :: "int \<Rightarrow> deployment list \<Rightarrow> string list" where
  "deploying_apps now ds = map dep_app (filter (\<lambda>d. dep_status d \<in> set [Queued, Building, Pushing, Starting]) ds @
     filter (\<lambda>d. case dep_finishedAt d of None \<Rightarrow> False | Some t \<Rightarrow> t > now - POST_DEPLOY_GRACE_MS) ds)"

definition due_step :: "(string \<Rightarrow> bool) \<Rightarrow> string list \<Rightarrow> int \<Rightarrow> http_monitor \<Rightarrow> mon_state \<times> http_monitor list \<Rightarrow> mon_state \<times> http_monitor list" where
  "due_step running deploying now m sq = (case sq of (s, queue) \<Rightarrow>
     if \<not> running (mon_app m) then
       (if mon_status m \<noteq> Unknown then (case resetState now m s of (m', s') \<Rightarrow> (save_monitor m' s', queue)) else (s, queue))
     else if mon_app m \<in> set deploying then
       (if mon_status m \<noteq> Down \<and> consecutiveFailures m > 0 then (save_monitor (m\<lparr>consecutiveFailures := 0\<rparr>) s, queue) else (s, queue))
     else if mon_id m \<in> set (inFlight s) \<or> \<not> isDue (lastCheckedAt m) (intervalMinutes m) now then (s, queue)
     else (s, queue @ [m]))"

definition runDue :: "(string \<Rightarrow> bool) \<Rightarrow> deployment list \<Rightarrow> int \<Rightarrow> mon_state \<Rightarrow> mon_state \<times> http_monitor list" where
  "runDue running ds now s = fold (due_step running (deploying_apps now ds) now) (filter mon_enabled (monitors s)) (s, [])"

section \<open>Retention of checks and incidents\<close>

definition CHECK_RETENTION_DAYS :: int where "CHECK_RETENTION_DAYS = 7"

definition CHECK_MAX_ROWS :: nat where "CHECK_MAX_ROWS = 7 * 24 * 60"

definition INCIDENTS_KEEP :: nat where "INCIDENTS_KEEP = 50"

definition prune_monitors :: "int \<Rightarrow> mon_state \<Rightarrow> mon_state" where
  "prune_monitors now s =
     (let young = filter (\<lambda>c. \<not> chk_at c < now - CHECK_RETENTION_DAYS * 86400000) (checks s)
      in s\<lparr>checks := fold (\<lambda>mid. remove_beyond (\<lambda>c. chk_monitor c = mid) chk_at CHECK_MAX_ROWS) (nub (map chk_monitor young)) young,
          incidents := fold (\<lambda>mid. remove_beyond (\<lambda>i. inc_monitor i = mid) inc_startedAt INCIDENTS_KEEP)
            (nub (map inc_monitor (incidents s))) (incidents s)\<rparr>)"

interpretation monitor_incidents: retention distinct "\<lambda>i. inc_monitor i = mid" inc_startedAt INCIDENTS_KEEP
    "remove_beyond (\<lambda>i. inc_monitor i = mid) inc_startedAt INCIDENTS_KEEP" for mid
  by (rule remove_beyond_retention)

end
