(* ===== verification/Alarms.thy ===== *)
theory Alarms
  imports Prelude
begin

text \<open>
  What the two watchers of the program (HTTP monitors and resource alerts) share: a state machine fed with
  readings that raises an alarm when it enters an alarmed state and clears it when it leaves that state.
  The locale proves once that alarms and all-clears are balanced and alternate, for any readings.
\<close>

fun run_steps :: "('s \<Rightarrow> 'i \<Rightarrow> 's \<times> 'e option) \<Rightarrow> 's \<Rightarrow> 'i list \<Rightarrow> 's \<times> 'e list" where
  "run_steps step s [] = (s, [])"
| "run_steps step s (i # is) = (case step s i of (s1, e) \<Rightarrow>
     case run_steps step s1 is of (s2, es) \<Rightarrow> (s2, (case e of None \<Rightarrow> es | Some x \<Rightarrow> x # es)))"

text \<open>A list of events in which raising and clearing take turns, beginning with a clearing one if \<open>b\<close>.\<close>

fun alternates :: "('e \<Rightarrow> bool) \<Rightarrow> ('e \<Rightarrow> bool) \<Rightarrow> bool \<Rightarrow> 'e list \<Rightarrow> bool" where
  "alternates raises clears b [] = True"
| "alternates raises clears b (e # es) \<longleftrightarrow> (if b then clears e else raises e) \<and> alternates raises clears (\<not> b) es"

lemma run_steps_append:
  "run_steps step s (is @ js) = (case run_steps step s is of (s1, es) \<Rightarrow>
     case run_steps step s1 js of (s2, fs) \<Rightarrow> (s2, es @ fs))"
  by (induction "is" arbitrary: s) (auto split: prod.splits option.splits)

locale alarm =
  fixes step :: "'s \<Rightarrow> 'i \<Rightarrow> 's \<times> 'e option" and alarmed :: "'s \<Rightarrow> bool" and raises clears :: "'e \<Rightarrow> bool"
  assumes raise_iff: "step s i = (s', e) \<Longrightarrow> (case e of None \<Rightarrow> False | Some x \<Rightarrow> raises x) \<longleftrightarrow> \<not> alarmed s \<and> alarmed s'"
    and clear_iff: "step s i = (s', e) \<Longrightarrow> (case e of None \<Rightarrow> False | Some x \<Rightarrow> clears x) \<longleftrightarrow> alarmed s \<and> \<not> alarmed s'"
begin

lemma alternate:
  "run_steps step s is = (s', es) \<Longrightarrow>
   alternates raises clears (alarmed s) (filter (\<lambda>e. raises e \<or> clears e) es) \<and>
   length (filter raises es) + of_bool (alarmed s) = length (filter clears es) + of_bool (alarmed s')"
proof (induction "is" arbitrary: s s' es)
  case (Cons i "is")
  obtain s1 e where st: "step s i = (s1, e)" by (cases "step s i")
  obtain s2 fs where rest: "run_steps step s1 is = (s2, fs)" by (cases "run_steps step s1 is")
  have es: "s' = s2" "es = (case e of None \<Rightarrow> fs | Some x \<Rightarrow> x # fs)" using Cons.prems st rest by auto
  have IH: "alternates raises clears (alarmed s1) (filter (\<lambda>e. raises e \<or> clears e) fs)"
    "length (filter raises fs) + of_bool (alarmed s1) = length (filter clears fs) + of_bool (alarmed s2)"
    using Cons.IH [OF rest] by auto
  then show ?case using es raise_iff [OF st] clear_iff [OF st]
    by (cases e; cases "alarmed s"; cases "alarmed s1") auto
qed simp

text \<open>A run that starts and ends quietly has as many all-clears as alarms.\<close>

lemma balanced:
  assumes "run_steps step s is = (s', es)" and "\<not> alarmed s" and "\<not> alarmed s'"
  shows "length (filter raises es) = length (filter clears es)"
  using alternate [OF assms(1)] assms(2,3) by simp

end

end
