(* ===== verification/Monitor_Laws.thy ===== *)
theory Monitor_Laws
  imports Monitors Alarms
begin

text \<open>
  Laws of the monitors: the counting rule refines a description by history, open incidents correspond to
  outages, and two behaviours the code does not intend.
\<close>

section \<open>The rule and the history\<close>

interpretation monitor_alarm: alarm "nextState th" "\<lambda>s. fst s = Down" "\<lambda>e. e = WentDown" "\<lambda>e. e = Recovered" for th
proof
  fix s i s' e
  assume "nextState th s i = (s', e)"
  then show "(case e of None \<Rightarrow> False | Some x \<Rightarrow> x = WentDown) \<longleftrightarrow> fst s \<noteq> Down \<and> fst s' = Down"
    and "(case e of None \<Rightarrow> False | Some x \<Rightarrow> x = Recovered) \<longleftrightarrow> fst s = Down \<and> \<not> fst s' = Down"
    by (cases s; auto simp: nextState_def Let_def split: if_splits)+
qed

text \<open>Failures at the end of a history, and the state that follows from it.\<close>

definition trailing :: "bool list \<Rightarrow> nat" where
  "trailing oks = length (takeWhile Not (rev oks))"

definition hist_state :: "nat \<Rightarrow> bool list \<Rightarrow> monitor_status \<times> nat" where
  "hist_state th oks = (if trailing oks \<ge> th then Down else if True \<in> set oks then Up else Unknown, trailing oks)"

definition hist_event :: "nat \<Rightarrow> bool list \<Rightarrow> bool \<Rightarrow> monitor_event option" where
  "hist_event th oks ok = (if ok \<and> trailing oks \<ge> th then Some Recovered
     else if \<not> ok \<and> Suc (trailing oks) = th then Some WentDown else None)"

lemma trailing_snoc: "trailing (oks @ [ok]) = (if ok then 0 else Suc (trailing oks))"
  by (simp add: trailing_def)

lemma nextState_hist:
  assumes "0 < th"
  shows "nextState th (hist_state th oks) ok = (hist_state th (oks @ [ok]), hist_event th oks ok)"
  using assms by (auto simp: nextState_def hist_state_def hist_event_def trailing_snoc Let_def)

text \<open>
  C7: the counting rule means what it says.  After any sequence of checks the stored status and counter are
  those that follow from the history: down exactly when the last \<open>threshold\<close> checks or more failed, and the
  next check announces an outage exactly when it completes that streak and a recovery exactly when it ends it;
  over the whole sequence the two announcements take turns.
\<close>

theorem monitor_refines_history:
  assumes "0 < th"
  shows "fst (run_steps (nextState th) (Unknown, 0) oks) = hist_state th oks \<and>
    nextState th (fst (run_steps (nextState th) (Unknown, 0) oks)) ok = (hist_state th (oks @ [ok]), hist_event th oks ok) \<and>
    alternates (\<lambda>e. e = WentDown) (\<lambda>e. e = Recovered) False (snd (run_steps (nextState th) (Unknown, 0) oks))"
proof -
  have run: "fst (run_steps (nextState th) (Unknown, 0) oks) = hist_state th oks"
  proof (induction oks rule: rev_induct)
    case Nil
    then show ?case using assms by (simp add: hist_state_def trailing_def)
  next
    case (snoc ok oks)
    then show ?case using nextState_hist [OF assms, of oks ok] by (auto simp: run_steps_append split: prod.splits)
  qed
  have "\<forall>e. e = WentDown \<or> e = Recovered" using monitor_event.exhaust by auto
  moreover obtain s' es where r: "run_steps (nextState th) (Unknown, 0) oks = (s', es)" by (cases "run_steps (nextState th) (Unknown, 0) oks")
  ultimately have "alternates (\<lambda>e. e = WentDown) (\<lambda>e. e = Recovered) False (snd (run_steps (nextState th) (Unknown, 0) oks))"
    using monitor_alarm.alternate [OF r] by simp
  then show ?thesis using run nextState_hist [OF assms] by simp
qed

theorem monitor_refines_history_witness:
  "fst (run_steps (nextState 2) (Unknown, 0) [True, False, False]) = (Down, 2)"
  using monitor_refines_history [of 2 "[True, False, False]"] by (simp add: hist_state_def trailing_def)

section \<open>Incidents\<close>

definition open_count :: "mon_state \<Rightarrow> string \<Rightarrow> nat" where
  "open_count s mid = length (filter (is_open mid) (incidents s))"

text \<open>One open incident per outage, none otherwise; a monitor that is off has no state.\<close>

definition mon_inv :: "mon_state \<Rightarrow> bool" where
  "mon_inv s \<longleftrightarrow> distinct (map mon_id (monitors s)) \<and> distinct (map inc_id (incidents s)) \<and>
     (\<forall>i \<in> set (incidents s). inc_monitor i \<in> mon_id ` set (monitors s)) \<and>
     (\<forall>m \<in> set (monitors s). open_count s (mon_id m) = of_bool (mon_status m = Down) \<and> (\<not> mon_enabled m \<longrightarrow> mon_status m = Unknown))"

definition fresh_mon :: "string \<Rightarrow> mon_state \<Rightarrow> bool" where
  "fresh_mon i s \<longleftrightarrow> i \<notin> mon_id ` set (monitors s) \<and> i \<notin> inc_id ` set (incidents s)"

text \<open>What the operations do to the rows.\<close>

inductive mon_reach :: "mon_state \<Rightarrow> bool" where
  start: "mon_reach \<lparr>monitors = [], checks = [], incidents = [], sent = [], inFlight = []\<rparr>"
| config: "mon_reach s \<Longrightarrow> fresh_mon newId s \<Longrightarrow> mon_reach (saveConfig now newId app x s)"
| checked: "mon_reach s \<Longrightarrow> fresh_mon newId s \<Longrightarrow> m \<in> set (monitors s) \<Longrightarrow> mon_enabled m \<Longrightarrow>
     mon_reach (check newId m target result now s)"
| ticked: "mon_reach s \<Longrightarrow> mon_reach (fst (runDue running ds now s))"

lemma is_open_simps [simp]:
  "is_open mid (i\<lparr>inc_endedAt := Some t\<rparr>) = False"
  by (simp add: is_open_def)

lemma open_count_simps [simp]:
  "open_count (s\<lparr>monitors := ms\<rparr>) mid = open_count s mid" "open_count (s\<lparr>sent := xs\<rparr>) mid = open_count s mid"
  "open_count (s\<lparr>checks := cs\<rparr>) mid = open_count s mid" "open_count (s\<lparr>inFlight := fl\<rparr>) mid = open_count s mid"
  by (simp_all add: open_count_def)

lemma save_monitor_incidents [simp]:
  "incidents (save_monitor m s) = incidents s" "open_count (save_monitor m s) mid = open_count s mid"
  by (simp_all add: save_monitor_def open_count_def)

text \<open>Saving a row that keeps the relation between its status and its incidents.\<close>

lemma mon_inv_save:
  assumes inv: "distinct (map mon_id (monitors s))" "distinct (map inc_id (incidents s))"
    and known: "\<forall>i \<in> set (incidents s). inc_monitor i \<in> insert (mon_id m) (mon_id ` set (monitors s))"
    and others: "\<forall>x \<in> set (monitors s). mon_id x \<noteq> mon_id m \<longrightarrow>
      open_count s (mon_id x) = of_bool (mon_status x = Down) \<and> (\<not> mon_enabled x \<longrightarrow> mon_status x = Unknown)"
    and own: "open_count s (mon_id m) = of_bool (mon_status m = Down)" "\<not> mon_enabled m \<longrightarrow> mon_status m = Unknown"
  shows "mon_inv (save_monitor m s)"
proof (cases "list_ex (\<lambda>x. mon_id x = mon_id m) (monitors s)")
  case True
  let ?ms = "map (\<lambda>x. if mon_id x = mon_id m then m else x) (monitors s)"
  obtain x where x: "x \<in> set (monitors s)" "mon_id x = mon_id m" using True by (auto simp: list_ex_iff)
  then have mem: "mon_id m \<in> mon_id ` set (monitors s)" by (intro image_eqI [of _ _ x]) simp_all
  have ids: "map mon_id ?ms = map mon_id (monitors s)" by simp
  then have "mon_id ` set ?ms = mon_id ` set (monitors s)" by (metis set_map)
  then have k: "\<forall>i \<in> set (incidents s). inc_monitor i \<in> mon_id ` set ?ms" using known mem by (simp add: insert_absorb)
  have d: "distinct (map mon_id ?ms)" unfolding ids by (rule inv(1))
  have "open_count s (mon_id y) = of_bool (mon_status y = Down) \<and> (\<not> mon_enabled y \<longrightarrow> mon_status y = Unknown)" if "y \<in> set ?ms" for y
  proof (cases "y = m")
    case False
    then have "y \<in> set (monitors s)" "mon_id y \<noteq> mon_id m" using that by (auto split: if_splits)
    then show ?thesis using others by blast
  qed (use own in simp)
  moreover have "save_monitor m s = s\<lparr>monitors := ?ms\<rparr>" using True by (simp add: save_monitor_def)
  ultimately show ?thesis using d k inv(2) by (simp only: mon_inv_def open_count_simps) simp
next
  case False
  then have new: "mon_id x \<noteq> mon_id m" if "x \<in> set (monitors s)" for x using that by (auto simp: list_ex_iff)
  then have "mon_id m \<notin> mon_id ` set (monitors s)" by (metis imageE)
  moreover have "\<forall>x \<in> set (monitors s). open_count s (mon_id x) = of_bool (mon_status x = Down) \<and> (\<not> mon_enabled x \<longrightarrow> mon_status x = Unknown)"
    using others new by blast
  moreover have "save_monitor m s = s\<lparr>monitors := monitors s @ [m]\<rparr>" using False by (simp add: save_monitor_def)
  ultimately show ?thesis using inv known own by (simp add: mon_inv_def)
qed

lemma mon_inv_save_same:
  assumes "mon_inv s" and "m \<in> set (monitors s)" and "mon_id m' = mon_id m" and "mon_status m' = Down \<longleftrightarrow> mon_status m = Down"
    and "\<not> mon_enabled m' \<longrightarrow> mon_status m' = Unknown"
  shows "mon_inv (save_monitor m' s)"
  by (rule mon_inv_save) (use assms in \<open>auto simp: mon_inv_def\<close>)

lemma close_open_count:
  "open_count (close_incidents P now s) mid = length (filter (\<lambda>i. is_open mid i \<and> \<not> P i) (incidents s))"
proof -
  have "length (filter (is_open mid) (map (\<lambda>i. if P i then i\<lparr>inc_endedAt := Some now\<rparr> else i) is)) =
      length (filter (\<lambda>i. is_open mid i \<and> \<not> P i) is)" for "is" :: "http_incident list"
    by (induction "is") (simp_all add: is_open_def)
  then show ?thesis by (simp add: open_count_def close_incidents_def)
qed

lemma close_keeps:
  "monitors (close_incidents P now s) = monitors s"
  "map inc_id (incidents (close_incidents P now s)) = map inc_id (incidents s)"
  "map inc_monitor (incidents (close_incidents P now s)) = map inc_monitor (incidents s)"
  by (auto simp: close_incidents_def)

lemma close_all_count:
  "open_count (close_incidents (is_open k) now s) mid = (if mid = k then 0 else open_count s mid)"
proof -
  have "filter (\<lambda>i. is_open mid i \<and> \<not> is_open k i) is = (if mid = k then [] else filter (is_open mid) is)" for "is"
    by (auto simp: filter_empty_conv is_open_def intro!: filter_cong)
  then show ?thesis unfolding close_open_count by (simp add: open_count_def)
qed

lemma close_monitors_iff:
  "(\<forall>i \<in> set (incidents (close_incidents P now s)). inc_monitor i \<in> A) \<longleftrightarrow> (\<forall>i \<in> set (incidents s). inc_monitor i \<in> A)"
proof -
  have "inc_monitor ` set (incidents (close_incidents P now s)) = inc_monitor ` set (incidents s)"
    using close_keeps(3) [of P now s] by (metis set_map)
  then show ?thesis by (simp add: image_subset_iff [symmetric])
qed

lemma reset_inv:
  assumes "mon_inv s" and "m \<in> set (monitors s)" and "mon_id m' = mon_id m"
  shows "mon_inv (case resetState now m' s of (a, b) \<Rightarrow> save_monitor a b)"
proof -
  let ?s = "close_incidents (is_open (mon_id m')) now s"
  let ?m = "m'\<lparr>mon_status := Unknown, consecutiveFailures := 0, statusSince := None\<rparr>"
  have "mon_inv (save_monitor ?m ?s)"
    by (rule mon_inv_save) (use assms in \<open>auto simp: mon_inv_def close_all_count close_keeps close_monitors_iff\<close>)
  then show ?thesis by (simp add: resetState_def)
qed

lemma saveConfig_inv:
  assumes "mon_inv s" and "fresh_mon newId s"
  shows "mon_inv (saveConfig now newId app x s)"
proof (cases "find (\<lambda>m. mon_app m = app) (monitors s)")
  case None
  let ?m = "assign_input x (new_monitor newId app)"
  have id: "mon_id ?m = newId" "mon_status ?m = Unknown" by (simp_all add: assign_input_def new_monitor_def)
  have no: "open_count s newId = 0" using assms by (force simp: mon_inv_def fresh_mon_def open_count_def is_open_def filter_empty_conv)
  have "mon_inv (save_monitor m' s)" if "mon_id m' = newId" "mon_status m' = Unknown" for m'
    by (rule mon_inv_save) (use assms no that in \<open>auto simp: mon_inv_def\<close>)
  then show ?thesis using None id by (auto simp: saveConfig_def Let_def new_monitor_def)
next
  case (Some m)
  let ?m = "assign_input x m"
  have m: "m \<in> set (monitors s)" using Some find_SomeD by metis
  have id: "mon_id ?m = mon_id m" "mon_status ?m = mon_status m" by (simp_all add: assign_input_def)
  show ?thesis
  proof (cases "mon_enabled ?m")
    case False
    then show ?thesis using Some reset_inv [OF assms(1) m id(1)] by (simp add: saveConfig_def Let_def)
  next
    case True
    have st: "\<not> mon_enabled m \<Longrightarrow> mon_status m = Unknown" using assms(1) m by (auto simp: mon_inv_def)
    show ?thesis
    proof (cases "mon_enabled m")
      case True
      then show ?thesis using Some \<open>mon_enabled ?m\<close> mon_inv_save_same [OF assms(1) m id(1)] id by (simp add: saveConfig_def Let_def)
    next
      case False
      then show ?thesis using Some \<open>mon_enabled ?m\<close> st id by (simp add: saveConfig_def Let_def mon_inv_save_same [OF assms(1) m])
    qed
  qed
qed

lemma due_step_inv:
  assumes "mon_inv (fst sq)" and "\<exists>m' \<in> set (monitors (fst sq)). mon_id m' = mon_id m \<and> mon_status m' = mon_status m \<and> mon_enabled m' = mon_enabled m"
  shows "mon_inv (fst (due_step running deploying now m sq))"
proof -
  obtain s q where sq: "sq = (s, q)" by (cases sq)
  obtain m' where m': "m' \<in> set (monitors s)" "mon_id m = mon_id m'" "mon_status m = mon_status m'" "mon_enabled m = mon_enabled m'"
    using assms(2) sq by auto
  have inv: "mon_inv s" using assms(1) sq by simp
  have "mon_inv (save_monitor (m\<lparr>consecutiveFailures := 0\<rparr>) s)"
    by (rule mon_inv_save_same [OF inv m'(1)]) (use m' inv in \<open>auto simp: mon_inv_def\<close>)
  then show ?thesis using sq inv reset_inv [OF inv m'(1,2), of now] by (auto simp: due_step_def split: prod.splits)
qed

lemma monitors_save:
  "set (monitors (save_monitor m s)) \<subseteq> insert m (set (monitors s))"
  "x \<in> set (monitors s) \<Longrightarrow> mon_id x \<noteq> mon_id m \<Longrightarrow> x \<in> set (monitors (save_monitor m s))"
  by (auto simp: save_monitor_def)

lemma due_step_others:
  assumes "x \<in> set (monitors (fst sq))" and "mon_id x \<noteq> mon_id m"
  shows "x \<in> set (monitors (fst (due_step running deploying now m sq)))"
  using assms by (cases sq) (auto simp: due_step_def resetState_def close_keeps monitors_save split: prod.splits)

lemma runDue_inv:
  assumes "mon_inv s"
  shows "mon_inv (fst (runDue running ds now s))"
proof -
  let ?deploying = "deploying_apps now ds"
  have "mon_inv (fst (fold (due_step running ?deploying now) ms sq))"
    if "mon_inv (fst sq)" "distinct (map mon_id ms)" "set ms \<subseteq> set (monitors (fst sq))" for ms sq
    using that
  proof (induction ms arbitrary: sq)
    case (Cons m ms)
    have "mon_inv (fst (due_step running ?deploying now m sq))" 
      by (intro due_step_inv [OF Cons.prems(1)] bexI [of _ m]) (use Cons.prems(3) in auto)
    moreover have "set ms \<subseteq> set (monitors (fst (due_step running ?deploying now m sq)))"
    proof
      fix x
      assume x: "x \<in> set ms"
      then have "mon_id x \<noteq> mon_id m" using Cons.prems(2) by (auto simp: image_iff)
      then show "x \<in> set (monitors (fst (due_step running ?deploying now m sq)))"
        using x Cons.prems(3) by (intro due_step_others) auto
    qed
    ultimately show ?case using Cons by simp
  qed simp
  moreover have "distinct (map mon_id (filter mon_enabled (monitors s)))" using assms by (auto simp: mon_inv_def distinct_map_filter)
  ultimately show ?thesis using assms by (simp add: runDue_def)
qed

section \<open>Checks\<close>

lemma hd_newest:
  assumes "newest_by key rows = i # is"
  shows "i \<in> set rows"
  using newest_by_simps(1) [of key rows] assms by (metis list.set_intros(1))

text \<open>Closing the only open incident of a monitor leaves those of the others alone.\<close>

lemma close_one_count:
  assumes "distinct (map inc_id (incidents s))" and "i \<in> set (incidents s)" and "is_open k i" and "open_count s k = 1"
  shows "open_count (close_incidents (\<lambda>j. inc_id j = inc_id i) now s) mid = (if mid = k then 0 else open_count s mid)"
proof -
  have same: "j = i" if "j \<in> set (incidents s)" "inc_id j = inc_id i" for j
    using assms(1,2) that by (auto simp: distinct_map dest: inj_onD)
  have one: "filter (is_open k) (incidents s) = [i]"
  proof -
    obtain x where "filter (is_open k) (incidents s) = [x]" using assms(4) by (auto simp: open_count_def length_Suc_conv)
    moreover have "i \<in> set (filter (is_open k) (incidents s))" using assms(2,3) by simp
    ultimately show ?thesis by simp
  qed
  show ?thesis
  proof (cases "mid = k")
    case True
    have "set (filter (is_open k) (incidents s)) = {i}" using one by simp
    then have "filter (\<lambda>j. is_open k j \<and> inc_id j \<noteq> inc_id i) (incidents s) = []" by (auto simp: filter_empty_conv)
    then show ?thesis using True by (simp add: close_open_count)
  next
    case False
    have "filter (\<lambda>j. is_open mid j \<and> inc_id j \<noteq> inc_id i) (incidents s) = filter (is_open mid) (incidents s)"
      using False assms(3) same by (intro filter_cong) (auto simp: is_open_def)
    then show ?thesis using False unfolding close_open_count by (simp add: open_count_def)
  qed
qed

lemma open_count_insert:
  "open_count (s\<lparr>incidents := incidents s @ [i]\<rparr>) mid = open_count s mid + of_bool (is_open mid i)"
  by (simp add: open_count_def)

lemma transition_inv:
  assumes inv: "mon_inv s" and fresh: "fresh_mon newId s" and m0: "m0 \<in> set (monitors s)"
    and m: "mon_id m = mon_id m0" "mon_enabled m"
    and step: "ev = Some WentDown \<longleftrightarrow> mon_status m0 \<noteq> Down \<and> mon_status m = Down"
      "ev = Some Recovered \<longleftrightarrow> mon_status m0 = Down \<and> mon_status m \<noteq> Down"
    and tr: "transition newId m ev error now s = (m', msg, s2)"
  shows "mon_inv (save_monitor m' s2)"
proof (cases ev)
  case None
  then have "mon_status m = Down \<longleftrightarrow> mon_status m0 = Down" using step by auto
  moreover have "s2 = s" "mon_id m' = mon_id m" "mon_status m' = mon_status m" "mon_enabled m' = mon_enabled m"
    using tr None by (auto simp: transition_def split: if_splits)
  ultimately show ?thesis using m by (simp add: mon_inv_save_same [OF inv m0])
next
  case (Some e)
  show ?thesis
  proof (cases e)
    case WentDown
    then have down: "mon_status m = Down" "mon_status m0 \<noteq> Down" using step Some by auto
    obtain i where i: "s2 = s\<lparr>incidents := incidents s @ [i]\<rparr>" "inc_id i = newId" "inc_monitor i = mon_id m0" "inc_endedAt i = None"
      and m': "mon_id m' = mon_id m0" "mon_status m' = Down" "mon_enabled m'"
      using tr Some WentDown down(1) m by (auto simp: transition_def Let_def)
    have "open_count s2 mid = open_count s mid + of_bool (mid = mon_id m0)" for mid
      using i open_count_insert [of s i mid] by (auto simp: is_open_def)
    then show ?thesis using i m' inv fresh m0 down by (intro mon_inv_save) (auto simp: mon_inv_def fresh_mon_def)
  next
    case Recovered
    then have up: "mon_status m \<noteq> Down" "mon_status m0 = Down" using step Some by auto
    then have one: "open_count s (mon_id m0) = 1" using inv m0 by (auto simp: mon_inv_def)
    then have "newest_by inc_startedAt (filter (is_open (mon_id m0)) (incidents s)) \<noteq> []"
      using newest_by_simps(2) [of inc_startedAt "filter (is_open (mon_id m0)) (incidents s)"] unfolding open_count_def
      by (metis list.size(3) zero_neq_one)
    then obtain i "is" where new: "newest_by inc_startedAt (filter (is_open (mon_id m0)) (incidents s)) = i # is"
      by (meson neq_Nil_conv)
    then have i: "i \<in> set (incidents s)" "is_open (mon_id m0) i" using hd_newest [OF new] by auto
    have s2: "s2 = close_incidents (\<lambda>j. inc_id j = inc_id i) now s" and m': "mon_id m' = mon_id m0" "mon_status m' = mon_status m" "mon_enabled m'"
      using tr Some Recovered new m by (auto simp: transition_def)
    have d: "distinct (map inc_id (incidents s))" using inv by (simp add: mon_inv_def)
    note c = close_one_count [OF d i one, of now]
    show ?thesis unfolding s2
      by (rule mon_inv_save) (use m' up inv m0 c in \<open>auto simp: mon_inv_def close_keeps close_monitors_iff\<close>)
  qed
qed

lemma check_finish_inv:
  assumes inv: "mon_inv s" and fresh: "fresh_mon newId s" and m: "m \<in> set (monitors s)" and on: "mon_enabled m"
  shows "mon_inv (check_finish newId m target result now s)"
proof (cases target)
  case (Inl reason)
  have "mon_inv (save_monitor (m\<lparr>lastCheckedAt := Some now, lastError := Some reason, lastTarget := None,
      lastStatusCode := None, lastLatencyMs := None\<rparr>) (s\<lparr>inFlight := filter (\<lambda>i. i \<noteq> mon_id m) (inFlight s)\<rparr>))"
    by (rule mon_inv_save) (use inv m on in \<open>auto simp: mon_inv_def\<close>)
  then show ?thesis using Inl by (simp add: check_finish_def Let_def)
next
  case (Inr url)
  define ok where "ok = (case pr_statusCode result of None \<Rightarrow> False | Some c \<Rightarrow> statusIsHealthy c (expectedCodes m))"
  define error where "error = (if ok then None else Some (take 200 (case pr_error result of Some e \<Rightarrow> e
     | None \<Rightarrow> ''HTTP '' @ (case pr_statusCode result of None \<Rightarrow> ''null'' | Some c \<Rightarrow> nat_str c))))"
  define s1 where "s1 = s\<lparr>inFlight := filter (\<lambda>i. i \<noteq> mon_id m) (inFlight s),
     checks := checks s @ [\<lparr>chk_id = next_check_id s, chk_monitor = mon_id m, chk_at = now, chk_ok = ok, chk_statusCode = pr_statusCode result,
        chk_latencyMs = pr_latencyMs result, chk_error = error\<rparr>]\<rparr>"
  obtain st n ev where t: "nextState (failureThreshold m) (mon_status m, consecutiveFailures m) ok = ((st, n), ev)"
    by (metis surj_pair)
  define m1 where "m1 = m\<lparr>mon_status := st, consecutiveFailures := n, statusSince := (if st \<noteq> mon_status m then Some now else statusSince m),
     lastCheckedAt := Some now, lastStatusCode := pr_statusCode result, lastLatencyMs := Some (pr_latencyMs result),
     lastError := error, lastTarget := Some (take 300 url)\<rparr>"
  obtain m' msg s2 where tr: "transition newId m1 ev error now s1 = (m', msg, s2)" by (metis prod_cases3)
  have "ev = Some WentDown \<longleftrightarrow> mon_status m \<noteq> Down \<and> mon_status m1 = Down"
    "ev = Some Recovered \<longleftrightarrow> mon_status m = Down \<and> mon_status m1 \<noteq> Down"
    using monitor_alarm.raise_iff [OF t] monitor_alarm.clear_iff [OF t] by (auto simp: m1_def split: option.splits)
  moreover have "mon_inv s1" "fresh_mon newId s1" "m \<in> set (monitors s1)" using inv fresh m by (simp_all add: s1_def mon_inv_def fresh_mon_def)
  moreover have "mon_id m1 = mon_id m" "mon_enabled m1" using on by (simp_all add: m1_def)
  ultimately have "mon_inv (save_monitor m' s2)" using tr transition_inv by blast
  then have "mon_inv ((save_monitor m' s2)\<lparr>sent := xs\<rparr>)" for xs by (simp add: mon_inv_def)
  moreover have "check_finish newId m target result now s = (save_monitor m' s2)\<lparr>sent := sent s2 @ (case msg of None \<Rightarrow> [] | Some x \<Rightarrow> [x])\<rparr>"
    using Inr t tr unfolding ok_def error_def s1_def m1_def by (simp add: check_finish_def next_check_id_def Let_def)
  ultimately show ?thesis by simp
qed


definition demo_input :: "bool \<Rightarrow> monitor_input" where
  "demo_input b = \<lparr>in_enabled = Some b, in_path = None, in_intervalMinutes = None, in_timeoutSeconds = None,
     in_expectedCodes = None, in_failureThreshold = Some 1, in_useInternal = None\<rparr>"

definition no_monitors :: mon_state where
  "no_monitors = \<lparr>monitors = [], checks = [], incidents = [], sent = [], inFlight = []\<rparr>"

definition refused :: probe_result where
  "refused = \<lparr>pr_statusCode = None, pr_latencyMs = 3, pr_error = Some ''ECONNREFUSED''\<rparr>"

definition demo_on :: mon_state where
  "demo_on = saveConfig 10 ''m'' ''a'' (demo_input True) no_monitors"

definition demo_down :: mon_state where
  "demo_down = check ''i'' (hd (monitors demo_on)) (Inr ''http://a/'') refused 20 demo_on"


section \<open>What the code does not intend\<close>

text \<open>
  An incident can stay open for ever.  A monitor that is switched off can still be checked by hand; when
  such a check takes it down and the monitor is then switched on, its status starts afresh but the
  incident stays open, and the next outage and recovery leave it open although the application is up.
\<close>

theorem enabling_leaves_incident_open:
  "let off = saveConfig 10 ''m'' ''a'' (demo_input False) no_monitors;
       down = check ''i'' (hd (monitors off)) (Inr ''http://a/'') refused 20 off;
       on = saveConfig 30 ''n'' ''a'' (demo_input True) down;
       down2 = check ''j'' (hd (monitors on)) (Inr ''http://a/'') refused 40 on;
       up = check ''k'' (hd (monitors down2)) (Inr ''http://a/'') \<lparr>pr_statusCode = Some 200, pr_latencyMs = 3, pr_error = None\<rparr> 50 down2
   in map mon_status (monitors up) = [Up] \<and> map inc_endedAt (incidents up) = [None, Some 50]"
  by code_simp

text \<open>
  C39: a check writes back the configuration it started with.  Any change of the settings saved while a probe
  is under way is undone when the check stores its result, including switching the monitor off: the row is
  enabled again afterwards, whatever the change was.
\<close>

theorem check_reverts_config:
  assumes "find (\<lambda>x. mon_app x = app) (monitors s) = Some m"
  shows "\<exists>m' \<in> set (monitors (check_finish newId m target result now2 (saveConfig now1 i app x s))).
    mon_id m' = mon_id m \<and> mon_enabled m' = mon_enabled m \<and> mon_path m' = mon_path m \<and>
    intervalMinutes m' = intervalMinutes m \<and> expectedCodes m' = expectedCodes m \<and> failureThreshold m' = failureThreshold m"
proof -
  have saved: "z \<in> set (monitors (save_monitor z s'))" for z s' by (auto simp: save_monitor_def list_ex_iff)
  have tr: "mon_id a = mon_id z \<and> mon_enabled a = mon_enabled z \<and> mon_path a = mon_path z \<and> intervalMinutes a = intervalMinutes z \<and>
      expectedCodes a = expectedCodes z \<and> failureThreshold a = failureThreshold z"
    if "transition newId z ev error now2 s' = (a, b, c)" for z ev error s' a b c
    using that by (auto simp: transition_def Let_def split: option.splits monitor_event.splits list.splits if_splits)
  show ?thesis
  proof (cases target)
    case (Inl r)
    then show ?thesis using saved by (fastforce simp: check_finish_def Let_def intro!: bexI [OF _ saved])
  next
    case (Inr url)
    then show ?thesis
      by (auto simp: check_finish_def Let_def split: prod.splits dest!: tr intro!: bexI [OF _ saved])
  qed
qed

theorem check_reverts_config_witness:
  "let m = hd (monitors demo_on)
   in \<exists>m' \<in> set (monitors (check_finish ''i'' m (Inr ''http://a/'') refused 40 (saveConfig 30 ''n'' ''a'' (demo_input False) demo_on))).
     mon_enabled m'"
proof -
  have "find (\<lambda>x. mon_app x = ''a'') (monitors demo_on) = Some (hd (monitors demo_on))"
    "mon_enabled (hd (monitors demo_on))" by code_simp+
  then show ?thesis using check_reverts_config [of "''a''" demo_on] unfolding Let_def by blast
qed

end
