(* ===== verification/Resource_Alerts.thy ===== *)
theory Resource_Alerts
  imports Complex_Main Alarms
begin

text \<open>
  Rules on CPU and memory (\<open>resource-alert/alert-evaluation.ts\<close>, \<open>resource-alert/resource-alert.service.ts\<close>):
  when a window of minute readings is a breach, the state machine of a rule, and the evaluation of all rules
  of a tick.  Percentages are rationals: the rounding of floating-point division is not modelled.
\<close>

section \<open>Breach of a window\<close>

datatype alert_metric = Cpu | Memory

record minute_reading =
  rd_at :: int
  cpuPercent :: "rat option"
  memoryBytes :: rat
  memoryLimitBytes :: rat

definition MAX_DURATION_MINUTES :: nat where "MAX_DURATION_MINUTES = 120"

definition REMINDER_MS :: int where "REMINDER_MS = 6 * 3600000"

definition MAX_STALENESS_MS :: int where "MAX_STALENESS_MS = 3 * 60000"

definition metricValue :: "alert_metric \<Rightarrow> minute_reading \<Rightarrow> rat option" where
  "metricValue metric r = (if metric = Cpu then cpuPercent r
     else if \<not> memoryLimitBytes r > 0 then None else Some (memoryBytes r / memoryLimitBytes r * 100))"

definition evaluateBreach ::
    "alert_metric \<Rightarrow> minute_reading list \<Rightarrow> rat \<Rightarrow> nat \<Rightarrow> int \<Rightarrow> int option \<Rightarrow> bool \<times> rat option" where
  "evaluateBreach metric rows threshold durationMinutes now notBefore =
     (let windowStart = now - int durationMinutes * 60000 - 15000;
          floor = max windowStart (case notBefore of None \<Rightarrow> 0 | Some t \<Rightarrow> t);
          inWindow = sort_key rd_at (filter (\<lambda>r. rd_at r > floor) rows);
          values = map (metricValue metric) inWindow;
          latestValue = (if values = [] then None else last values);
          required = (if durationMinutes \<ge> 3 then durationMinutes - 1 else durationMinutes)
      in if length inWindow < required then (False, latestValue)
         else if now - rd_at (last inWindow) > MAX_STALENESS_MS then (False, latestValue)
         else (list_all (\<lambda>v. case v of None \<Rightarrow> False | Some x \<Rightarrow> x > threshold) values, latestValue))"

section \<open>The state machine of a rule\<close>

datatype alert_status = AOk | Pending | Alerting

datatype alert_action = Alert | Reminder | BackToNormal

record alert_state =
  al_status :: alert_status
  al_since :: "int option"
  al_lastAlertAt :: "int option"

definition nextAlertState :: "int \<Rightarrow> alert_state \<Rightarrow> bool \<Rightarrow> int \<Rightarrow> alert_state \<times> alert_action option" where
  "nextAlertState reminderMs prev breaching now =
     (if \<not> breaching then
        (if al_status prev = Alerting then (\<lparr>al_status = AOk, al_since = Some now, al_lastAlertAt = None\<rparr>, Some BackToNormal)
         else if al_status prev = Pending then (\<lparr>al_status = AOk, al_since = Some now, al_lastAlertAt = None\<rparr>, None)
         else (prev, None))
      else if al_status prev = AOk then (\<lparr>al_status = Pending, al_since = Some now, al_lastAlertAt = None\<rparr>, None)
      else if al_status prev = Pending then
        (\<lparr>al_status = Alerting, al_since = Some (case al_since prev of None \<Rightarrow> now | Some t \<Rightarrow> t), al_lastAlertAt = Some now\<rparr>, Some Alert)
      else if now - (case al_lastAlertAt prev of None \<Rightarrow> 0 | Some t \<Rightarrow> t) \<ge> reminderMs
        then (prev\<lparr>al_lastAlertAt := Some now\<rparr>, Some Reminder)
      else (prev, None))"

section \<open>Rules\<close>

datatype alert_owner = ApplicationOwner string | DatabaseOwner string

record alert_rule =
  ar_id :: string
  ar_owner :: alert_owner
  metric :: alert_metric
  ar_enabled :: bool
  thresholdPercent :: int
  durationMinutes :: nat
  ar_state :: alert_state
  lastValue :: "rat option"
  lastEvaluatedAt :: "int option"

definition quiet :: alert_state where
  "quiet = \<lparr>al_status = AOk, al_since = None, al_lastAlertAt = None\<rparr>"

definition resetRule :: "alert_rule \<Rightarrow> alert_rule" where
  "resetRule r = r\<lparr>ar_state := quiet, lastValue := None, lastEvaluatedAt := None\<rparr>"

datatype alert_reason = MemoryAboveHundred

text \<open>\<open>saveRule\<close>: a change of the configuration resets the state.\<close>

definition saveRule ::
    "string \<Rightarrow> alert_owner \<Rightarrow> alert_metric \<Rightarrow> bool option \<Rightarrow> int option \<Rightarrow> nat option \<Rightarrow> alert_rule list
     \<Rightarrow> (alert_reason, alert_rule list) res" where
  "saveRule newId own mt en th du rules =
     (if mt = Memory \<and> (case th of None \<Rightarrow> 0 | Some t \<Rightarrow> t) > 100 then Inl (BadRequest MemoryAboveHundred)
      else case find (\<lambda>r. ar_owner r = own \<and> metric r = mt) rules of
          Some ex \<Rightarrow>
            (let next = ex\<lparr>ar_enabled := (case en of None \<Rightarrow> ar_enabled ex | Some v \<Rightarrow> v),
                   thresholdPercent := (case th of None \<Rightarrow> thresholdPercent ex | Some v \<Rightarrow> v),
                   durationMinutes := (case du of None \<Rightarrow> durationMinutes ex | Some v \<Rightarrow> v)\<rparr>;
                 changed = (ar_enabled ex \<noteq> ar_enabled next \<or> thresholdPercent ex \<noteq> thresholdPercent next \<or> durationMinutes ex \<noteq> durationMinutes next);
                 row = (if changed then resetRule next else next)
             in Inr (map (\<lambda>r. if ar_id r = ar_id ex then row else r) rules))
        | None \<Rightarrow> Inr (rules @ [\<lparr>ar_id = newId, ar_owner = own, metric = mt,
             ar_enabled = (case en of None \<Rightarrow> False | Some v \<Rightarrow> v),
             thresholdPercent = (case th of None \<Rightarrow> 90 | Some v \<Rightarrow> v),
             durationMinutes = (case du of None \<Rightarrow> 5 | Some v \<Rightarrow> v),
             ar_state = quiet, lastValue = None, lastEvaluatedAt = None\<rparr>]))"

text \<open>
  One rule of \<open>evaluateAll\<close>: the owner's status, whether it is being deployed, its readings and the end of its
  last deployment are read before; the result is the row and the message to send.
\<close>

record owner_view =
  ow_running :: bool
  ow_deploying :: bool
  ow_readings :: "minute_reading list"
  ow_lastFinished :: "int option"

definition is_application :: "alert_owner \<Rightarrow> bool" where
  "is_application ow = (case ow of ApplicationOwner _ \<Rightarrow> True | DatabaseOwner _ \<Rightarrow> False)"

definition evaluate_rule :: "(alert_owner \<Rightarrow> owner_view option) \<Rightarrow> int \<Rightarrow> alert_rule \<Rightarrow> alert_rule \<times> alert_action option" where
  "evaluate_rule view now r = (case view (ar_owner r) of
       None \<Rightarrow> (r, None)
     | Some ow \<Rightarrow>
         if \<not> ow_running ow then (if al_status (ar_state r) \<noteq> AOk then (resetRule r, None) else (r, None))
         else if is_application (ar_owner r) \<and> ow_deploying ow then
           (if al_status (ar_state r) = Pending then (r\<lparr>ar_state := (ar_state r)\<lparr>al_status := AOk, al_since := None\<rparr>\<rparr>, None) else (r, None))
         else (case evaluateBreach (metric r) (ow_readings ow) (of_int (thresholdPercent r)) (durationMinutes r) now
                     (if is_application (ar_owner r) then ow_lastFinished ow else None) of
             (breaching, latest) \<Rightarrow> (case nextAlertState REMINDER_MS (ar_state r) breaching now of
               (st, action) \<Rightarrow> (r\<lparr>ar_state := st, lastValue := latest, lastEvaluatedAt := Some now\<rparr>, action))))"

definition evaluateAll :: "(alert_owner \<Rightarrow> owner_view option) \<Rightarrow> int \<Rightarrow> alert_rule list \<Rightarrow> alert_rule list \<times> (string \<times> alert_action) list" where
  "evaluateAll view now rules =
     (map (\<lambda>r. if ar_enabled r then fst (evaluate_rule view now r) else r) rules,
      List.map_filter (\<lambda>r. map_option (Pair (ar_id r)) (snd (evaluate_rule view now r))) (filter ar_enabled rules))"

section \<open>Laws\<close>

interpretation rule_alarm: alarm "\<lambda>s (b, t). nextAlertState ms s b t" "\<lambda>s. al_status s = Alerting" "\<lambda>e. e = Alert" "\<lambda>e. e = BackToNormal" for ms
proof
  fix s i s' e
  assume h: "(case i of (b, t) \<Rightarrow> nextAlertState ms s b t) = (s', e)"
  obtain b t where "i = (b, t)" by (cases i)
  with h show "(case e of None \<Rightarrow> False | Some x \<Rightarrow> x = Alert) \<longleftrightarrow> al_status s \<noteq> Alerting \<and> al_status s' = Alerting"
    and "(case e of None \<Rightarrow> False | Some x \<Rightarrow> x = BackToNormal) \<longleftrightarrow> al_status s = Alerting \<and> \<not> al_status s' = Alerting"
    by (cases "al_status s"; auto simp: nextAlertState_def split: if_splits)+
qed

lemma evaluateBreach_sound:
  assumes "evaluateBreach mt rows th d now nb = (True, v)" and "0 < d"
  defines "win \<equiv> filter (\<lambda>r. rd_at r > max (now - int d * 60000 - 15000) (case nb of None \<Rightarrow> 0 | Some t \<Rightarrow> t)) rows"
  shows "(if d \<ge> 3 then d - 1 else d) \<le> length win \<and> (\<forall>r \<in> set win. \<exists>x. metricValue mt r = Some x \<and> x > th) \<and>
    (\<exists>r \<in> set win. now - rd_at r \<le> MAX_STALENESS_MS)"
proof -
  let ?s = "sort_key rd_at win"
  have h: "\<not> length ?s < (if d \<ge> 3 then d - 1 else d)" "\<not> now - rd_at (last ?s) > MAX_STALENESS_MS"
    "list_all (\<lambda>v. case v of None \<Rightarrow> False | Some x \<Rightarrow> x > th) (map (metricValue mt) ?s)"
    using assms(1) unfolding win_def by (simp_all add: evaluateBreach_def Let_def split: if_splits)
  have "0 < length ?s" using h(1) assms(2) by (auto split: if_splits)
  then have "?s \<noteq> []" by (metis length_greater_0_conv)
  then have "last ?s \<in> set win" using last_in_set [of ?s] by simp
  then have "\<exists>r \<in> set win. now - rd_at r \<le> MAX_STALENESS_MS" using h(2) by (intro bexI [of _ "last ?s"]) simp_all
  moreover have "\<exists>x. metricValue mt r = Some x \<and> x > th" if "r \<in> set win" for r
    using h(3) that by (cases "metricValue mt r") (auto simp: list_all_iff)
  moreover have "(if d \<ge> 3 then d - 1 else d) \<le> length win" using h(1) by (simp only: length_sort not_less)
  ultimately show ?thesis by blast
qed

text \<open>
  An alert is justified.  When the evaluation of a tick sends the alert of a rule, the rule was already
  pending from an earlier tick, its owner is running and not being deployed, and the readings show the metric
  above the threshold in every reading of the window, with at most one minute missing and a fresh newest one,
  all of them taken after the last deployment.
\<close>

theorem alert_is_justified:
  assumes "evaluate_rule view now r = (r', Some Alert)" and "0 < durationMinutes r"
  shows "al_status (ar_state r) = Pending \<and> al_status (ar_state r') = Alerting \<and>
    (\<exists>ow. view (ar_owner r) = Some ow \<and> ow_running ow \<and> \<not> (is_application (ar_owner r) \<and> ow_deploying ow) \<and>
      (let win = filter (\<lambda>x. rd_at x > max (now - int (durationMinutes r) * 60000 - 15000)
              (case (if is_application (ar_owner r) then ow_lastFinished ow else None) of None \<Rightarrow> 0 | Some t \<Rightarrow> t)) (ow_readings ow)
       in durationMinutes r \<le> Suc (length win) \<and>
          (\<forall>x \<in> set win. \<exists>p. metricValue (metric r) x = Some p \<and> p > of_int (thresholdPercent r)) \<and>
          (\<exists>x \<in> set win. now - rd_at x \<le> MAX_STALENESS_MS)))"
proof -
  obtain ow where ow: "view (ar_owner r) = Some ow" "ow_running ow" "\<not> (is_application (ar_owner r) \<and> ow_deploying ow)"
    using assms(1) by (auto simp: evaluate_rule_def split: option.splits if_splits)
  let ?nb = "if is_application (ar_owner r) then ow_lastFinished ow else None"
  obtain b v where b: "evaluateBreach (metric r) (ow_readings ow) (of_int (thresholdPercent r)) (durationMinutes r) now ?nb = (b, v)"
    by (cases "evaluateBreach (metric r) (ow_readings ow) (of_int (thresholdPercent r)) (durationMinutes r) now ?nb")
  obtain st where st: "nextAlertState REMINDER_MS (ar_state r) b now = (st, Some Alert)" "ar_state r' = st"
    using assms(1) ow b by (auto simp: evaluate_rule_def split: prod.splits)
  have "b" "al_status (ar_state r) = Pending" "al_status st = Alerting"
    using st(1) by (auto simp: nextAlertState_def split: if_splits)
  then show ?thesis using ow st(2) evaluateBreach_sound [OF _ assms(2), of "metric r" "ow_readings ow" _ now ?nb] b
    by (fastforce simp: Let_def split: if_splits)
qed

theorem alert_is_justified_witness:
  "let r = \<lparr>ar_id = ''r'', ar_owner = DatabaseOwner ''d'', metric = Cpu, ar_enabled = True, thresholdPercent = 90, durationMinutes = 1,
         ar_state = \<lparr>al_status = Pending, al_since = Some 0, al_lastAlertAt = None\<rparr>, lastValue = None, lastEvaluatedAt = None\<rparr>;
       ow = \<lparr>ow_running = True, ow_deploying = False, ow_readings = [\<lparr>rd_at = 100000, cpuPercent = Some 95, memoryBytes = 0, memoryLimitBytes = 0\<rparr>],
         ow_lastFinished = None\<rparr>
   in al_status (ar_state (fst (evaluate_rule (\<lambda>_. Some ow) 120000 r))) = Alerting"
proof -
  let ?r = "\<lparr>ar_id = ''r'', ar_owner = DatabaseOwner ''d'', metric = Cpu, ar_enabled = True, thresholdPercent = 90, durationMinutes = 1,
       ar_state = \<lparr>al_status = Pending, al_since = Some 0, al_lastAlertAt = None\<rparr>, lastValue = None, lastEvaluatedAt = None\<rparr>"
  let ?ow = "\<lparr>ow_running = True, ow_deploying = False, ow_readings = [\<lparr>rd_at = 100000, cpuPercent = Some 95, memoryBytes = 0, memoryLimitBytes = 0\<rparr>],
       ow_lastFinished = None\<rparr>"
  have "snd (evaluate_rule (\<lambda>_. Some ?ow) 120000 ?r) = Some Alert"
    by (simp add: evaluate_rule_def is_application_def evaluateBreach_def metricValue_def MAX_STALENESS_MS_def nextAlertState_def Let_def)
  then have run: "evaluate_rule (\<lambda>_. Some ?ow) 120000 ?r = (fst (evaluate_rule (\<lambda>_. Some ?ow) 120000 ?r), Some Alert)"
    by (metis prod.collapse)
  show ?thesis using alert_is_justified [OF run] by (simp add: Let_def)
qed

end
