(* ===== verification/Query_Guard.thy ===== *)
theory Query_Guard
  imports Set_Names Env_Text
begin

text \<open>
  Static checks and quoting of the data browser (\<open>src/modules/managed-database/data-browser/query-guard.ts\<close>) and
  the parsers of what the command line clients print (\<open>query-output.ts\<close>).

  Texts are strings of code units; a regular expression of the source is written as the recursion its greedy,
  leftmost matching performs.  A \<open>Record<string, string | null>\<close> is the association list of its own properties.
\<close>

section \<open>Characters that need care\<close>

abbreviation SQ :: char where "SQ \<equiv> CHR 0x27"
abbreviation DQ :: char where "DQ \<equiv> CHR 0x22"
abbreviation TICK :: char where "TICK \<equiv> CHR 0x60"
abbreviation BSL :: char where "BSL \<equiv> CHR 0x5C"
abbreviation TAB :: char where "TAB \<equiv> CHR 0x09"

datatype sql_dialect = PostgresSql | MysqlSql

text \<open>\<open>s.split(q).join(q + q)\<close>, also written \<open>s.replace(/q/g, 'qq')\<close>.\<close>

definition double_char :: "char \<Rightarrow> string \<Rightarrow> string" where
  "double_char q s = concat (map (\<lambda>c. if c = q then [q, q] else [c]) s)"

section \<open>User statements\<close>

definition MAX_ROWS :: nat where "MAX_ROWS = 500"
definition MAX_EXPORT_ROWS :: nat where "MAX_EXPORT_ROWS = 5000"

definition READ_KEYWORDS :: "string list" where
  "READ_KEYWORDS = [''select'', ''with'', ''show'', ''explain'', ''describe'', ''desc'', ''values'', ''table'']"

text \<open>The text after the first \<open>*/\<close>.\<close>

fun after_close :: "string \<Rightarrow> string option" where
  "after_close (a # b # r) = (if a = CHR ''*'' \<and> b = CHR ''/'' then Some r else after_close (b # r))"
| "after_close s = None"

lemma after_close_shorter: "after_close s = Some r \<Longrightarrow> length r < length s"
  by (induction s rule: after_close.induct) (auto split: if_splits)

text \<open>\<open>.replace(/\/\*[\s\S]*?\*\//g, ' ')\<close>: an unterminated comment stays.\<close>

function strip_block :: "string \<Rightarrow> string" where
  "strip_block [] = []"
| "strip_block (c # r) =
     (if c = CHR ''/'' \<and> r \<noteq> [] \<and> hd r = CHR ''*'' then
        (case after_close (tl r) of
           Some r' \<Rightarrow> CHR '' '' # strip_block r'
         | None \<Rightarrow> c # strip_block r)
      else c # strip_block r)"
  by pat_completeness auto
termination
  by (relation "measure length") (auto dest!: after_close_shorter)

text \<open>\<open>.replace(/--[^\n]*/g, ' ')\<close>.\<close>

function strip_line :: "string \<Rightarrow> string" where
  "strip_line [] = []"
| "strip_line (c # r) =
     (if c = CHR ''-'' \<and> r \<noteq> [] \<and> hd r = CHR ''-''
      then CHR '' '' # strip_line (dropWhile (\<lambda>d. d \<noteq> LF) r)
      else c # strip_line r)"
  by pat_completeness auto
termination
  by (relation "measure length") (auto intro: le_imp_less_Suc length_dropWhile_le)

text \<open>\<open>.replace(/;+\s*$/, '')\<close>.\<close>

definition strip_semicolons :: "string \<Rightarrow> string" where
  "strip_semicolons s =
     (let w = trimEnd s in
      if w \<noteq> [] \<and> last w = CHR '';'' then rev (dropWhile (\<lambda>c. c = CHR '';'') (rev w)) else s)"

definition normalizeSql :: "string \<Rightarrow> string" where
  "normalizeSql sql = trim (strip_semicolons (trim (strip_line (strip_block sql))))"

text \<open>The loop of \<open>hasMultipleStatements\<close>; the first argument is its variable \<open>quote\<close>.\<close>

fun scan_statements :: "char option \<Rightarrow> string \<Rightarrow> bool" where
  "scan_statements q [] = False"
| "scan_statements None (c # r) =
     (if c \<in> {SQ, DQ, TICK} then scan_statements (Some c) r
      else if c = CHR '';'' then True
      else scan_statements None r)"
| "scan_statements (Some q) (c # r) =
     (if c = q then
        (if r \<noteq> [] \<and> hd r = q then scan_statements (Some q) (tl r) else scan_statements None r)
      else scan_statements (Some q) r)"

definition hasMultipleStatements :: "string \<Rightarrow> bool" where
  "hasMultipleStatements sql = scan_statements None sql"

text \<open>\<open>s.split(/[\s(]+/)[0].toLowerCase()\<close>.\<close>

definition first_word :: "string \<Rightarrow> string" where
  "first_word s = toLowerCase (takeWhile (\<lambda>c. \<not> js_ws c \<and> c \<noteq> CHR ''('') s)"

definition isReadStatement :: "string \<Rightarrow> bool" where
  "isReadStatement sql \<longleftrightarrow> first_word (normalizeSql sql) \<in> set READ_KEYWORDS"

definition word_char :: "char \<Rightarrow> bool" where
  "word_char c \<longleftrightarrow> is_alpha c \<or> is_digit c \<or> c = CHR ''_''"

text \<open>\<open>/\bword\b/i.test(s)\<close> for a word of letters; the Boolean says whether a word character precedes.\<close>

fun has_word :: "string \<Rightarrow> bool \<Rightarrow> string \<Rightarrow> bool" where
  "has_word w p [] = False"
| "has_word w p (c # r) =
     ((\<not> p \<and> toLowerCase (take (length w) (c # r)) = w \<and>
        (case drop (length w) (c # r) of [] \<Rightarrow> True | d # _ \<Rightarrow> \<not> word_char d))
      \<or> has_word w (word_char c) r)"

definition withRowCap :: "string \<Rightarrow> sql_dialect \<Rightarrow> string" where
  "withRowCap sql eng =
     (let s = normalizeSql sql; first = first_word s in
      if (first \<noteq> ''select'' \<and> first \<noteq> ''with'') \<or> has_word ''limit'' False s then s
      else
        let alias = (if eng = PostgresSql then [DQ] @ ''_q'' @ [DQ] else [TICK] @ ''_q'' @ [TICK]) in
        ''SELECT * FROM ('' @ s @ '') AS '' @ alias @ '' LIMIT '' @ nat_str (MAX_ROWS + 1))"

section \<open>Identifiers and literals\<close>

definition ident_start :: "char \<Rightarrow> bool" where
  "ident_start c \<longleftrightarrow> is_alpha c \<or> c = CHR ''_''"

definition ident_char :: "char \<Rightarrow> bool" where
  "ident_char c \<longleftrightarrow> is_alpha c \<or> is_digit c \<or> c = CHR ''_'' \<or> c = CHR ''$''"

definition IDENT :: "string \<Rightarrow> bool" where
  "IDENT s \<longleftrightarrow> (case s of [] \<Rightarrow> False
     | c # r \<Rightarrow> ident_start c \<and> length r \<le> 62 \<and> list_all ident_char r)"

datatype browse_reason =
    InvalidIdentifier string string
  | NoPrimaryKey
  | WhereNotPrimaryKey "string list"
  | NullPrimaryKey
  | UnknownColumn string
  | PrimaryKeyChange
  | NoColumnStructure
  | UnknownTable string
  | NoRows
  | NothingToUpdate
  | RowCountOff "int option"
  | EmptyStatement
  | ManyStatements
  | WriteNotAllowed
  | UnsupportedMongoQuery
  | EngineFailed string
  | InvalidCollection
  | InvalidFilter
  | FilterNotObject
  | NotAList
  | ReservedSchema string
  | PrimarySchema
  | NumberedDatabases
  | NoSqlExchange
  | FileTooLarge

type_synonym 'a bres = "(browse_reason, 'a) res"

text \<open>\<open>assertIdentifier\<close> throws a plain \<open>Error\<close>, which the framework answers with status 500.\<close>

definition assertIdentifier :: "string \<Rightarrow> string \<Rightarrow> string bres" where
  "assertIdentifier name what = (if \<not> IDENT name then Inl (ServerError (InvalidIdentifier what name)) else Inr name)"

definition quoteIdent :: "string \<Rightarrow> sql_dialect \<Rightarrow> string" where
  "quoteIdent name eng =
     (case eng of
        PostgresSql \<Rightarrow> [DQ] @ double_char DQ name @ [DQ]
      | MysqlSql \<Rightarrow> [TICK] @ double_char TICK name @ [TICK])"

definition sqlLiteral :: "string option \<Rightarrow> sql_dialect \<Rightarrow> string" where
  "sqlLiteral value eng =
     (case value of
        None \<Rightarrow> ''NULL''
      | Some v \<Rightarrow>
          let singleEscaped = double_char SQ v;
              escaped = (if eng = MysqlSql then double_char BSL singleEscaped else singleEscaped)
          in [SQ] @ escaped @ [SQ])"

record column_info =
  col_name :: string
  dataType :: string
  nullable :: bool
  defaultValue :: "string option"
  isPrimaryKey :: bool

type_synonym cells = "(string \<times> string option) list"

text \<open>The loop over the keys of \<open>set\<close>.\<close>

fun check_set_keys :: "string list \<Rightarrow> string list \<Rightarrow> string list \<Rightarrow> unit bres" where
  "check_set_keys known pk [] = Inr ()"
| "check_set_keys known pk (k # ks) =
     (if k \<notin> set known then Inl (BadRequest (UnknownColumn k))
      else if k \<in> set pk then Inl (BadRequest PrimaryKeyChange)
      else check_set_keys known pk ks)"

definition assertRowTarget :: "column_info list \<Rightarrow> cells \<Rightarrow> cells \<Rightarrow> string list bres" where
  "assertRowTarget columns wh st =
     (let pk = map col_name (filter isPrimaryKey columns); whereKeys = map fst wh in
      if length pk = 0 then Inl (BadRequest NoPrimaryKey)
      else if \<not> (length whereKeys = length pk \<and> list_all (\<lambda>k. k \<in> set whereKeys) pk)
        then Inl (BadRequest (WhereNotPrimaryKey pk))
      else if list_ex (\<lambda>k. map_of wh k = Some None) pk then Inl (BadRequest NullPrimaryKey)
      else rbind (check_set_keys (map col_name columns) pk (map fst st)) (\<lambda>_. Inr pk))"

section \<open>CSV\<close>

definition csv_needs_quoting :: "string \<Rightarrow> bool" where
  "csv_needs_quoting v \<longleftrightarrow> list_ex (\<lambda>c. c \<in> {DQ, CR, LF, CHR '',''}) v"

definition csvEscape :: "string option \<Rightarrow> string" where
  "csvEscape value =
     (case value of
        None \<Rightarrow> []
      | Some v \<Rightarrow> if \<not> csv_needs_quoting v then v else [DQ] @ double_char DQ v @ [DQ])"

definition CRLF :: string where "CRLF = [CR, LF]"

definition toCsv :: "string list \<Rightarrow> string option list list \<Rightarrow> string" where
  "toCsv columns rs =
     join_with CRLF (join_with '','' (map (\<lambda>c. csvEscape (Some c)) columns)
        # map (\<lambda>row. join_with '','' (map csvEscape row)) rs) @ CRLF"

section \<open>What the clients print\<close>

record result_set =
  rs_columns :: "string list"
  rs_rows :: "string option list list"

definition PSQL_NULL :: string where "PSQL_NULL = [BSL] @ ''N''"

text \<open>What \<open>push\<close> appends to the row.\<close>

definition csv_cell :: "bool \<Rightarrow> string \<Rightarrow> string option" where
  "csv_cell quoted fld = (if \<not> quoted \<and> fld = PSQL_NULL then None else Some fld)"

text \<open>The main loop: \<open>rows\<close>, \<open>row\<close>, \<open>field\<close>, \<open>quoted\<close> and \<open>inQuotes\<close> are its variables.\<close>

fun csv_loop ::
  "string option list list \<Rightarrow> string option list \<Rightarrow> string \<Rightarrow> bool \<Rightarrow> bool \<Rightarrow> string \<Rightarrow> string option list list" where
  "csv_loop rs row fld quoted inQuotes [] =
     (if fld \<noteq> [] \<or> quoted \<or> row \<noteq> [] then rs @ [row @ [csv_cell quoted fld]] else rs)"
| "csv_loop rs row fld quoted inQuotes (c # r) =
     (if inQuotes then
        (if c = DQ then
           (if r \<noteq> [] \<and> hd r = DQ then csv_loop rs row (fld @ [DQ]) quoted True (tl r)
            else csv_loop rs row fld quoted False r)
         else csv_loop rs row (fld @ [c]) quoted True r)
      else if c = DQ then csv_loop rs row fld True True r
      else if c = CHR '','' then csv_loop rs (row @ [csv_cell quoted fld]) [] False False r
      else if c = LF \<or> c = CR then
        csv_loop (rs @ [row @ [csv_cell quoted fld]]) [] [] False False
          (if c = CR \<and> r \<noteq> [] \<and> hd r = LF then tl r else r)
      else csv_loop rs row (fld @ [c]) quoted False r)"

definition or_empty :: "string option \<Rightarrow> string" where
  "or_empty v = (case v of None \<Rightarrow> [] | Some s \<Rightarrow> s)"

definition parsePsqlCsv :: "string \<Rightarrow> result_set" where
  "parsePsqlCsv txt =
     (case csv_loop [] [] [] False False txt of
        [] \<Rightarrow> \<lparr>rs_columns = [], rs_rows = []\<rparr>
      | header # data \<Rightarrow> \<lparr>rs_columns = map or_empty header, rs_rows = data\<rparr>)"

text \<open>\<open>v.replace(/\\(.)/g, ...)\<close>; the dot does not match a line end.\<close>

fun unescape_batch :: "string \<Rightarrow> string" where
  "unescape_batch (b # c # r) =
     (if b = BSL \<and> c \<noteq> LF \<and> c \<noteq> CR then
        (if c = CHR ''t'' then TAB else if c = CHR ''n'' then LF else if c = CHR ''0'' then CHR 0x00 else c) # unescape_batch r
      else b # unescape_batch (c # r))"
| "unescape_batch s = s"

text \<open>\<open>text.replace(/\r?\n$/, '')\<close>.\<close>

definition strip_final_newline :: "string \<Rightarrow> string" where
  "strip_final_newline s =
     (if s \<noteq> [] \<and> last s = LF then
        (let b = butlast s in if b \<noteq> [] \<and> last b = CR then butlast b else b)
      else s)"

definition split_batch :: "string \<Rightarrow> string option list" where
  "split_batch l = map (\<lambda>v. if v = ''NULL'' then None else Some (unescape_batch v)) (split_on TAB l)"

definition parseMysqlBatch :: "string \<Rightarrow> result_set" where
  "parseMysqlBatch txt =
     (case split_LF (strip_final_newline txt) of
        [] \<Rightarrow> \<lparr>rs_columns = [], rs_rows = []\<rparr>
      | header # data \<Rightarrow>
          if header = [] then \<lparr>rs_columns = [], rs_rows = []\<rparr>
          else \<lparr>rs_columns = map or_empty (split_batch header), rs_rows = map split_batch data\<rparr>)"

end
