(* ===== verification/Data_Browser.thy ===== *)
theory Data_Browser
  imports Query_Guard Managed_Databases Retention "HOL-Library.List_Lexorder" "HOL-Library.Char_ord"
begin

text \<open>
  The data browser of managed databases
  (\<open>src/modules/managed-database/data-browser/database-query.service.ts\<close>), the additional databases of a server
  (\<open>schemas/schemas.service.ts\<close>) and the query history (\<open>query-history/query-history.service.ts\<close>).

  Every operation runs one command in a throw-away container of the engine's image.  The container is the argument
  \<open>docker_run\<close> of the model: from the container's specification it gives the texts of the files \<open>/out/code\<close>,
  \<open>/out/stdout\<close> and \<open>/out/stderr\<close>, or the exception of a time-out or of the Docker engine.  \<open>JSON.parse\<close>,
  \<open>JSON.stringify\<close> and \<open>String\<close> on values that are not texts are arguments too.  Durations are left out, and so are
  the removal of the container and the cap on the bytes read from it.  Line breaks and indentation inside an SQL
  text of the source are single blanks here.
\<close>

section \<open>The helper container\<close>

datatype json = JNull | JBool bool | JNum string | JStr string | JArr "json list" | JObj "(string \<times> json) list"

record helper_spec =
  h_image :: string
  h_entrypoint :: "string list"
  h_env :: "string list"
  h_labels :: "(string \<times> string) list"
  h_network :: string
  h_files :: "(string \<times> string) list"

record engine_io =
  docker_run :: "helper_spec \<Rightarrow> (string \<times> string \<times> string) bres"
  decryptSecret :: "string \<Rightarrow> string"
  parseJson :: "string \<Rightarrow> json option"
  stringify :: "json \<Rightarrow> string"
  js_String :: "json \<Rightarrow> string"

definition STATEMENT_TIMEOUT_MS :: nat where "STATEMENT_TIMEOUT_MS = 15000"
definition IMPORT_MAX_BYTES :: nat where "IMPORT_MAX_BYTES = 64 * 1024 * 1024"

definition WRITE_ROLES :: "string list" where "WRITE_ROLES = [''owner'', ''admin'']"

definition REDIS_READ_COMMANDS :: "string list" where
  "REDIS_READ_COMMANDS = [''get'', ''mget'', ''hget'', ''hgetall'', ''hkeys'', ''hlen'', ''lrange'', ''llen'', ''lindex'',
     ''smembers'', ''scard'', ''sismember'', ''zrange'', ''zrangebyscore'', ''zcard'', ''zscore'', ''keys'', ''scan'', ''type'',
     ''ttl'', ''pttl'', ''exists'', ''strlen'', ''dbsize'', ''info'', ''ping'', ''object'', ''memory'']"

text \<open>
  \<open>Number(s)\<close> for the integers the clients print; \<open>None\<close> is \<open>NaN\<close>, also used for the fractions and exponents
  no caller can meet.
\<close>

definition js_Number :: "string \<Rightarrow> int option" where
  "js_Number s =
     (let t = trim s; neg = (t \<noteq> [] \<and> hd t = CHR ''-''); d = (if neg then tl t else t) in
      if t = [] then Some 0
      else if d \<noteq> [] \<and> list_all is_digit d then Some ((if neg then - 1 else 1) * int (str_val d))
      else None)"

definition num_str :: "int option \<Rightarrow> string" where
  "num_str n = (case n of None \<Rightarrow> ''NaN'' | Some i \<Rightarrow> if i < 0 then ''-'' @ nat_str (nat (- i)) else nat_str (nat i))"

definition composeLabels :: "string \<Rightarrow> (string \<times> string) list" where
  "composeLabels service = [(''com.docker.compose.project'', ''aoox''), (''com.docker.compose.service'', service),
     (''com.docker.compose.oneoff'', ''False'')]"

text \<open>Later entries of the environment win, so an override of \<open>DB_NAME\<close> stands in \<open>extraEnv\<close>.\<close>

definition helper_container :: "engine_io \<Rightarrow> managed_database \<Rightarrow> string \<Rightarrow> string list \<Rightarrow> (string \<times> string) list \<Rightarrow> helper_spec" where
  "helper_container io db script extraEnv tar =
     \<lparr>h_image = imageNameFor (engine db) (variant db) @ '':'' @ imageTag db,
      h_entrypoint = [''sh'', ''-c'', ''mkdir -p /out; { '' @ script @ ''; } > /out/stdout 2> /out/stderr; echo $? > /out/code''],
      h_env = [''DB_HOST='' @ containerNameForDb db, ''DB_PORT='' @ nat_str (port (ENGINES (engine db))),
        ''DB_USER='' @ db_username db, ''DB_PASSWORD='' @ decryptSecret io (passwordEncrypted db),
        ''DB_NAME='' @ databaseName db] @ extraEnv,
      h_labels = (''aoox.component'', ''query'') # composeLabels ''query-helper'',
      h_network = ''aoox'', h_files = tar\<rparr>"

record engine_output =
  out_code :: "int option"
  out_stdout :: string
  out_stderr :: string

text \<open>\<open>spawn\<close> followed by reading the output: \<open>runInEngine\<close>.\<close>

definition runInEngine ::
  "engine_io \<Rightarrow> managed_database \<Rightarrow> string \<Rightarrow> string list \<Rightarrow> (string \<times> string) list \<Rightarrow> engine_output bres" where
  "runInEngine io db script extraEnv tar =
     rbind (docker_run io (helper_container io db script extraEnv tar)) (\<lambda>(code, out, err).
       Inr \<lparr>out_code = js_Number (trim code), out_stdout = out, out_stderr = err\<rparr>)"

text \<open>\<open>'\<close> becomes \<open>'\''\<close>, the whole in single quotes.\<close>

definition shellQuote :: "string \<Rightarrow> string" where
  "shellQuote s = [SQ] @ concat (map (\<lambda>c. if c = SQ then [SQ, BSL, SQ, SQ] else [c]) s) @ [SQ]"

text \<open>The number and colon after \<open>/tmp/q.sql:\<close>; gives the rest.\<close>

definition after_position :: "string \<Rightarrow> string option" where
  "after_position s =
     (if starts_with ''/tmp/q.sql:'' s then
        (let d = drop 11 s; r = dropWhile is_digit d in
         if r \<noteq> d \<and> starts_with '':'' r then Some (tl r) else None)
      else None)"

text \<open>\<open>/^psql:.*\/tmp\/q\.sql:\d+: NOTICE/.test(l)\<close>.\<close>

definition is_notice :: "string \<Rightarrow> bool" where
  "is_notice l \<longleftrightarrow> starts_with ''psql:'' l \<and>
     (let t = drop 5 l in
      list_ex (\<lambda>i. CR \<notin> set (take i t) \<and>
        (case after_position (drop i t) of None \<Rightarrow> False | Some r \<Rightarrow> starts_with '' NOTICE'' r)) [0..<length t])"

text \<open>\<open>l.replace(/^psql:\/tmp\/q\.sql:\d+:\s*/, '')\<close>.\<close>

definition strip_position :: "string \<Rightarrow> string" where
  "strip_position l =
     (if starts_with ''psql:'' l then
        (case after_position (drop 5 l) of None \<Rightarrow> l | Some r \<Rightarrow> dropWhile js_ws r)
      else l)"

definition cleanError :: "string \<Rightarrow> string" where
  "cleanError stderr =
     take 2000 (trim (join_lines (map strip_position
       (filter (\<lambda>l. trim l \<noteq> [] \<and> \<not> is_notice l) (split_LF stderr)))))"

definition engine_error :: "engine_output \<Rightarrow> browse_reason exn" where
  "engine_error o1 = BadRequest (EngineFailed
     (let e = cleanError (out_stderr o1) in if e \<noteq> [] then e else ''exit '' @ num_str (out_code o1)))"

section \<open>SQL\<close>

definition dialect_of :: "database_engine \<Rightarrow> sql_dialect" where
  "dialect_of e = (if e = Postgres then PostgresSql else MysqlSql)"

definition mysql_client :: "database_engine \<Rightarrow> string" where
  "mysql_client e = (if e = Mariadb then ''mariadb'' else ''mysql'')"

text \<open>The session settings and the script around one statement.\<close>

definition pg_options :: "bool \<Rightarrow> string" where
  "pg_options readOnly = join_with '' '' ((''-c statement_timeout='' @ nat_str STATEMENT_TIMEOUT_MS)
     # (if readOnly then [''-c default_transaction_read_only=on''] else []))"

definition mysql_preamble :: "database_engine \<Rightarrow> bool \<Rightarrow> string" where
  "mysql_preamble e readOnly =
     (if e = Mariadb then ''SET SESSION max_statement_time = '' @ nat_str (STATEMENT_TIMEOUT_MS div 1000) @ '';''
      else ''SET SESSION max_execution_time = '' @ nat_str STATEMENT_TIMEOUT_MS @ '';'')
     @ (if readOnly then '' SET SESSION TRANSACTION READ ONLY;'' else [])"

definition sql_script :: "database_engine \<Rightarrow> bool \<Rightarrow> string" where
  \<open>sql_script e readOnly =
     (if e = Postgres then
        ''printf '%s' "$SQL" > /tmp/q.sql && PGPASSWORD="$DB_PASSWORD" PGOPTIONS='' @ shellQuote (pg_options readOnly) @
        '' psql -h "$DB_HOST" -p "$DB_PORT" -U "$DB_USER" -d "$DB_NAME" --csv -P null='' @ shellQuote PSQL_NULL @
        '' -v ON_ERROR_STOP=1 -f /tmp/q.sql''
      else
        ''{ printf '%s'' @ [BSL] @ ''n' '' @ shellQuote (mysql_preamble e readOnly) @
        ''; printf '%s' "$SQL"; } > /tmp/q.sql && '' @ mysql_client e @
        '' -h "$DB_HOST" -P "$DB_PORT" -u root -p"$DB_PASSWORD" "$DB_NAME" --batch --column-names < /tmp/q.sql'')\<close>

definition db_override :: "string option \<Rightarrow> string list" where
  "db_override database = (case database of None \<Rightarrow> [] | Some d \<Rightarrow> if d = [] then [] else [''DB_NAME='' @ d])"

definition sql :: "engine_io \<Rightarrow> managed_database \<Rightarrow> string \<Rightarrow> bool \<Rightarrow> string option \<Rightarrow> result_set bres" where
  "sql io db statement readOnly database =
     rbind (runInEngine io db (sql_script (engine db) readOnly) ((''SQL='' @ statement) # db_override database) []) (\<lambda>o1.
       if out_code o1 \<noteq> Some 0 then Inl (engine_error o1)
       else Inr (if engine db = Postgres then parsePsqlCsv (out_stdout o1) else parseMysqlBatch (out_stdout o1)))"

section \<open>Redis and MongoDB\<close>

definition is_redis :: "managed_database \<Rightarrow> bool" where
  "is_redis db \<longleftrightarrow> engine db = Redis \<or> engine db = Valkey"

text \<open>A double-quoted argument up to its closing quote, and the rest; the dot of the pattern does not match a line end.\<close>

fun read_double :: "string \<Rightarrow> (string \<times> string) option" where
  "read_double [] = None"
| "read_double (c # r) =
     (if c = DQ then Some ([], r)
      else if c = BSL then
        (case r of [] \<Rightarrow> None
         | d # r' \<Rightarrow> if d = LF \<or> d = CR then None else map_option (\<lambda>(w, z). (c # d # w, z)) (read_double r'))
      else map_option (\<lambda>(w, z). (c # w, z)) (read_double r))"

lemma read_double_shorter: "read_double s = Some (w, z) \<Longrightarrow> length z < length s"
proof (induction s arbitrary: w z rule: read_double.induct)
  case (2 c r)
  then show ?case by (fastforce split: if_splits list.splits)
qed simp

text \<open>\<open>m[1].replace(/\\(.)/g, '$1')\<close>.\<close>

fun unescape_arg :: "string \<Rightarrow> string" where
  "unescape_arg (b # c # r) =
     (if b = BSL \<and> c \<noteq> LF \<and> c \<noteq> CR then c # unescape_arg r else b # unescape_arg (c # r))"
| "unescape_arg s = s"

function tokens_from :: "string \<Rightarrow> string list" where
  "tokens_from [] = []"
| "tokens_from (c # r) =
     (if js_ws c then tokens_from r
      else case (if c = DQ then read_double r else None) of
        Some (w, z) \<Rightarrow> unescape_arg w # tokens_from z
      | None \<Rightarrow>
          if c = SQ \<and> SQ \<in> set r then takeWhile (\<lambda>d. d \<noteq> SQ) r # tokens_from (tl (dropWhile (\<lambda>d. d \<noteq> SQ) r))
          else (c # takeWhile (\<lambda>d. \<not> js_ws d) r) # tokens_from (dropWhile (\<lambda>d. \<not> js_ws d) r))"
  by pat_completeness auto
termination
proof (relation "measure length")
  have le: "length (dropWhile P r) \<le> length r" for P :: "char \<Rightarrow> bool" and r by (rule length_dropWhile_le)
  show "\<And>c r x w z. \<not> js_ws c \<Longrightarrow> (if c = DQ then read_double r else None) = Some x \<Longrightarrow> (w, z) = x \<Longrightarrow> (z, c # r) \<in> measure length"
    by (auto dest: read_double_shorter split: if_splits)
  show "(tl (dropWhile (\<lambda>d. d \<noteq> SQ) r), c # r) \<in> measure length" for c r
    using le [of "\<lambda>d. d \<noteq> SQ" r] by simp
  show "(dropWhile (\<lambda>d. \<not> js_ws d) r, c # r) \<in> measure length" for c r
    using le [of "\<lambda>d. \<not> js_ws d" r] by simp
qed auto

definition tokenize :: "string \<Rightarrow> string list" where
  "tokenize input = tokens_from (trim input)"

text \<open>\<open>/^error:"(.*)"$/s.exec(text)\<close>.\<close>

definition redis_error :: "string \<Rightarrow> string option" where
  "redis_error t = (let p = ''error:'' @ [DQ] in
     if starts_with p t \<and> length p < length t \<and> last t = DQ then Some (butlast (drop (length p) t)) else None)"

definition redis :: "engine_io \<Rightarrow> managed_database \<Rightarrow> string list \<Rightarrow> json bres" where
  \<open>redis io db args =
     rbind (runInEngine io db
       (''redis-cli -h "$DB_HOST" -p "$DB_PORT" -a "$DB_PASSWORD" --no-auth-warning --json '' @ join_with '' '' (map shellQuote args)) [] [])
       (\<lambda>o1. if out_code o1 \<noteq> Some 0 then Inl (engine_error o1)
         else let t = trim (out_stdout o1) in
           case redis_error t of
             Some e \<Rightarrow> Inl (BadRequest (EngineFailed e))
           | None \<Rightarrow> Inr (case parseJson io (if t = [] then ''null'' else t) of Some v \<Rightarrow> v | None \<Rightarrow> JStr t))\<close>

text \<open>A value of a reply as a cell.\<close>

definition json_cell :: "engine_io \<Rightarrow> json \<Rightarrow> string option" where
  "json_cell io v = (case v of JNull \<Rightarrow> None | JStr s \<Rightarrow> Some s | _ \<Rightarrow> Some (stringify io v))"

definition redisToRows :: "engine_io \<Rightarrow> json \<Rightarrow> result_set" where
  "redisToRows io value =
     (case value of
        JArr vs \<Rightarrow> \<lparr>rs_columns = [''#'', ''value''],
          rs_rows = map (\<lambda>(i, v). [Some (nat_str i), json_cell io v]) (List.enumerate 0 vs)\<rparr>
      | JObj fs \<Rightarrow> \<lparr>rs_columns = [''field'', ''value''], rs_rows = map (\<lambda>(k, v). [Some k, json_cell io v]) fs\<rparr>
      | _ \<Rightarrow> \<lparr>rs_columns = [''value''], rs_rows = [[json_cell io value]]\<rparr>)"

text \<open>\<open>[A-Za-z0-9_.$-]{1,120}\<close>.\<close>

definition collection_ok :: "string \<Rightarrow> bool" where
  "collection_ok c \<longleftrightarrow> c \<noteq> [] \<and> length c \<le> 120 \<and>
     list_all (\<lambda>x. is_alpha x \<or> is_digit x \<or> x \<in> set ''_.$-'') c"

definition buildMongoFindScript ::
  "engine_io \<Rightarrow> string \<Rightarrow> string \<Rightarrow> (string \<times> json) list option \<Rightarrow> nat \<Rightarrow> nat \<Rightarrow> string bres" where
  "buildMongoFindScript io collection filt srt skip limit =
     (if \<not> collection_ok collection then Inl (BadRequest InvalidCollection)
      else case parseJson io (if filt = [] then ''{}'' else filt) of
        None \<Rightarrow> Inl (BadRequest InvalidFilter)
      | Some (JObj fs) \<Rightarrow>
          Inr (''db.getCollection('' @ stringify io (JStr collection) @ '').find('' @ stringify io (JObj fs) @ '')'' @
            (case srt of None \<Rightarrow> [] | Some o1 \<Rightarrow> ''.sort('' @ stringify io (JObj o1) @ '')'') @
            ''.skip('' @ nat_str skip @ '').limit('' @ nat_str limit @ '').toArray()'')
      | Some _ \<Rightarrow> Inl (BadRequest FilterNotObject))"

definition mongo :: "engine_io \<Rightarrow> managed_database \<Rightarrow> string \<Rightarrow> string option \<Rightarrow> json bres" where
  \<open>mongo io db expression database =
     rbind (runInEngine io db
       (''mongosh "mongodb://$DB_USER:$DB_PASSWORD@$DB_HOST:$DB_PORT/$DB_NAME?authSource=admin" --quiet --eval '' @
          shellQuote (''EJSON.stringify(('' @ expression @ ''), {relaxed: true})'')) (db_override database) [])
       (\<lambda>o1. if out_code o1 \<noteq> Some 0 then Inl (engine_error o1)
         else let t = trim (out_stdout o1) in
           case parseJson io (if t = [] then ''null'' else t) of
             Some v \<Rightarrow> Inr v
           | None \<Rightarrow> Inl (BadRequest (EngineFailed (if t \<noteq> [] then t else ''Could not parse mongosh output''))))\<close>

definition mongoFind ::
  "engine_io \<Rightarrow> managed_database \<Rightarrow> string \<Rightarrow> string \<Rightarrow> (string \<times> json) list option \<Rightarrow> nat \<Rightarrow> nat \<Rightarrow> string option \<Rightarrow> json list bres" where
  "mongoFind io db collection filt srt skip limit database =
     rbind (buildMongoFindScript io collection filt srt skip limit) (\<lambda>script.
     rbind (mongo io db script database) (\<lambda>v.
       case v of JArr docs \<Rightarrow> Inr docs | _ \<Rightarrow> Inl (BadRequest NotAList)))"

definition doc_fields :: "json \<Rightarrow> (string \<times> json) list" where
  "doc_fields d = (case d of JObj fs \<Rightarrow> fs | _ \<Rightarrow> [])"

text \<open>
  \<open>str(doc[c])\<close>.  A missing name of \<open>Object.prototype\<close> other than \<open>__proto__\<close> is a function, rendered
  \<open>undefined\<close>, which the response shows as \<open>null\<close>.
\<close>

definition doc_cell :: "engine_io \<Rightarrow> json \<Rightarrow> string \<Rightarrow> string option" where
  "doc_cell io d c = (case map_of (doc_fields d) c of
       Some v \<Rightarrow> json_cell io v
     | None \<Rightarrow> if c = ''__proto__'' then Some ''{}'' else None)"

definition mongoDocsToRows :: "engine_io \<Rightarrow> json list \<Rightarrow> result_set" where
  "mongoDocsToRows io docs =
     (let seen = nub (concat (map (\<lambda>d. map fst (doc_fields d)) docs));
          columns = (if ''_id'' \<in> set seen then ''_id'' # filter (\<lambda>c. c \<noteq> ''_id'') seen else seen)
      in \<lparr>rs_columns = columns, rs_rows = map (\<lambda>d. map (doc_cell io d) columns) docs\<rparr>)"

section \<open>Tables\<close>

record table_info =
  ti_schema :: "string option"
  ti_name :: string
  ti_estimatedRows :: "int option option"

record query_result =
  q_columns :: "string list"
  q_rows :: "string option list list"
  q_truncated :: bool
  q_message :: "string option"

record table_rows = query_result +
  q_hasMore :: bool

text \<open>The \<open>i\<close>-th element of a destructured row: \<open>None\<close> for \<open>undefined\<close>, \<open>Some None\<close> for \<open>null\<close>.\<close>

definition cell_at :: "string option list \<Rightarrow> nat \<Rightarrow> string option option" where
  "cell_at row i = (if i < length row then Some (row ! i) else None)"

definition cell_text :: "string option list \<Rightarrow> nat \<Rightarrow> string" where
  "cell_text row i = (case cell_at row i of Some (Some s) \<Rightarrow> s | _ \<Rightarrow> [])"

definition cell_opt :: "string option list \<Rightarrow> nat \<Rightarrow> string option" where
  "cell_opt row i = (case cell_at row i of Some v \<Rightarrow> v | None \<Rightarrow> None)"

definition list_tables_sql :: "sql_dialect \<Rightarrow> string" where
  "list_tables_sql eng =
     (case eng of
        PostgresSql \<Rightarrow> ''SELECT n.nspname AS schema, c.relname AS name, c.reltuples::bigint AS estimate '' @
          ''FROM pg_class c JOIN pg_namespace n ON n.oid = c.relnamespace '' @
          ''WHERE c.relkind IN ('r','p') AND n.nspname NOT IN ('pg_catalog','information_schema') '' @
          ''ORDER BY 1, 2''
      | MysqlSql \<Rightarrow> ''SELECT NULL AS '' @ [TICK] @ ''schema'' @ [TICK] @ '', table_name AS name, table_rows AS estimate '' @
          ''FROM information_schema.tables '' @
          ''WHERE table_schema = DATABASE() AND table_type = 'BASE TABLE' '' @
          ''ORDER BY table_name'')"

definition json_texts :: "json list \<Rightarrow> string list" where
  "json_texts vs = concat (map (\<lambda>v. case v of JStr s \<Rightarrow> [s] | _ \<Rightarrow> []) vs)"

definition plain_table :: "string \<Rightarrow> table_info" where
  "plain_table n = \<lparr>ti_schema = None, ti_name = n, ti_estimatedRows = None\<rparr>"

text \<open>
  The replies of Redis (\<open>[cursor, keys]\<close>) and MongoDB are cast to lists of texts by the source; any other reply is
  outside the model and gives a \<open>TypeError\<close>.
\<close>

definition listTables :: "engine_io \<Rightarrow> managed_database \<Rightarrow> string option \<Rightarrow> table_info list bres" where
  "listTables io db database =
     (if is_redis db then
        rbind (redis io db [''SCAN'', ''0'', ''COUNT'', nat_str MAX_ROWS]) (\<lambda>res.
          case res of JArr (_ # JArr ks # _) \<Rightarrow> Inr (map plain_table (sort (json_texts ks))) | _ \<Rightarrow> Inl TypeErr)
      else if engine db = Mongodb then
        rbind (mongo io db ''db.getCollectionNames()'' database) (\<lambda>res.
          case res of JArr ns \<Rightarrow> Inr (map plain_table (sort (json_texts ns))) | _ \<Rightarrow> Inl TypeErr)
      else
        rbind (sql io db (list_tables_sql (dialect_of (engine db))) True database) (\<lambda>rs.
          Inr (map (\<lambda>row. \<lparr>ti_schema = cell_opt row 0, ti_name = cell_text row 1,
            ti_estimatedRows = (case cell_at row 2 of
                None \<Rightarrow> Some None
              | Some None \<Rightarrow> None
              | Some (Some e) \<Rightarrow> if e = ''-1'' then None else Some (js_Number e))\<rparr>) (rs_rows rs))))"

definition tableRef :: "string \<Rightarrow> string option \<Rightarrow> sql_dialect \<Rightarrow> string bres" where
  "tableRef tbl schema eng =
     (case schema of
        Some s \<Rightarrow>
          if s = [] then rbind (assertIdentifier tbl ''table'') (\<lambda>t. Inr (quoteIdent t eng))
          else rbind (assertIdentifier s ''schema'') (\<lambda>s'.
               rbind (assertIdentifier tbl ''table'') (\<lambda>t. Inr (quoteIdent s' eng @ ''.'' @ quoteIdent t eng)))
      | None \<Rightarrow> rbind (assertIdentifier tbl ''table'') (\<lambda>t. Inr (quoteIdent t eng)))"

definition orderSql :: "string option \<Rightarrow> bool \<Rightarrow> sql_dialect \<Rightarrow> string bres" where
  "orderSql orderBy desc eng =
     (case orderBy of
        None \<Rightarrow> Inr []
      | Some c \<Rightarrow> if c = [] then Inr []
          else rbind (assertIdentifier c ''column'') (\<lambda>c'. Inr ('' ORDER BY '' @ quoteIdent c' eng @ (if desc then '' DESC'' else '' ASC''))))"

record rows_query =
  rq_db :: "string option"
  rq_schema :: "string option"
  rq_limit :: "nat option"
  rq_offset :: "nat option"
  rq_orderBy :: "string option"
  rq_desc :: bool

definition or_default :: "nat \<Rightarrow> nat option \<Rightarrow> nat" where
  "or_default d v = (case v of None \<Rightarrow> d | Some n \<Rightarrow> n)"

definition mongo_sort :: "string option \<Rightarrow> bool \<Rightarrow> (string \<times> json) list option" where
  "mongo_sort orderBy desc = (case orderBy of None \<Rightarrow> None
     | Some c \<Rightarrow> if c = [] then None else Some [(c, JNum (if desc then ''-1'' else ''1''))])"

text \<open>The reading command per type of key; a type of \<open>Object.prototype\<close> name does not occur.\<close>

definition redis_key_command :: "string \<Rightarrow> string \<Rightarrow> nat \<Rightarrow> nat \<Rightarrow> string list" where
  "redis_key_command typ key limit offset =
     (let end1 = nat_str (offset + limit) in
      if typ = ''string'' then [''GET'', key]
      else if typ = ''hash'' then [''HGETALL'', key]
      else if typ = ''list'' then [''LRANGE'', key, nat_str offset, end1]
      else if typ = ''set'' then [''SMEMBERS'', key]
      else if typ = ''zset'' then [''ZRANGE'', key, nat_str offset, end1, ''WITHSCORES'']
      else [''TYPE'', key])"

definition redisKey :: "engine_io \<Rightarrow> managed_database \<Rightarrow> string \<Rightarrow> nat \<Rightarrow> nat \<Rightarrow> table_rows bres" where
  "redisKey io db key limit offset =
     rbind (redis io db [''TYPE'', key]) (\<lambda>tv.
       let typ = (case tv of JStr s \<Rightarrow> s | _ \<Rightarrow> js_String io tv) in
       rbind (redis io db (redis_key_command typ key limit offset)) (\<lambda>value.
         let rs = redisToRows io value;
             rws = (if typ = ''hash'' \<or> typ = ''set'' then take (limit + 1) (drop offset (rs_rows rs)) else rs_rows rs)
         in Inr \<lparr>q_columns = rs_columns rs, q_rows = take limit rws, q_truncated = False,
              q_message = Some (if typ = ''none'' then ''Key does not exist'' else ''type: '' @ typ),
              q_hasMore = limit < length rws\<rparr>))"

definition tableRows :: "engine_io \<Rightarrow> managed_database \<Rightarrow> string \<Rightarrow> rows_query \<Rightarrow> table_rows bres" where
  "tableRows io db tbl q =
     (let limit = or_default 50 (rq_limit q); offset = or_default 0 (rq_offset q) in
      if is_redis db then redisKey io db tbl limit offset
      else if engine db = Mongodb then
        rbind (mongoFind io db tbl ''{}'' (mongo_sort (rq_orderBy q) (rq_desc q)) offset (limit + 1) (rq_db q)) (\<lambda>docs.
          let rs = mongoDocsToRows io (take limit docs)
          in Inr \<lparr>q_columns = rs_columns rs, q_rows = rs_rows rs, q_truncated = False, q_message = None,
               q_hasMore = limit < length docs\<rparr>)
      else
        let eng = dialect_of (engine db) in
        rbind (tableRef tbl (rq_schema q) eng) (\<lambda>src.
        rbind (orderSql (rq_orderBy q) (rq_desc q) eng) (\<lambda>order.
        rbind (sql io db (''SELECT * FROM '' @ src @ order @ '' LIMIT '' @ nat_str (limit + 1) @ '' OFFSET '' @ nat_str offset) True (rq_db q)) (\<lambda>rs.
          Inr \<lparr>q_columns = rs_columns rs, q_rows = take limit (rs_rows rs), q_truncated = False, q_message = None,
            q_hasMore = limit < length (rs_rows rs)\<rparr>))))"

definition columns_sql :: "sql_dialect \<Rightarrow> string \<Rightarrow> string \<Rightarrow> string" where
  "columns_sql eng tableLit schemaLit =
     (case eng of
        PostgresSql \<Rightarrow>
          ''SELECT c.column_name, c.data_type, (c.is_nullable = 'YES') AS nullable, c.column_default, EXISTS ( '' @
          ''SELECT 1 FROM information_schema.table_constraints tc JOIN information_schema.key_column_usage kcu '' @
          ''ON tc.constraint_name = kcu.constraint_name AND tc.table_schema = kcu.table_schema '' @
          ''WHERE tc.constraint_type = 'PRIMARY KEY' AND tc.table_name = c.table_name '' @
          ''AND tc.table_schema = c.table_schema AND kcu.column_name = c.column_name ) AS is_pk '' @
          ''FROM information_schema.columns c WHERE c.table_name = '' @ tableLit @
          '' AND c.table_schema = '' @ schemaLit @ '' ORDER BY c.ordinal_position''
      | MysqlSql \<Rightarrow>
          ''SELECT column_name, data_type, (is_nullable = 'YES') AS nullable, column_default, (column_key = 'PRI') AS is_pk '' @
          ''FROM information_schema.columns WHERE table_schema = DATABASE() AND table_name = '' @ tableLit @
          '' ORDER BY ordinal_position'')"

definition is_true_cell :: "string option list \<Rightarrow> nat \<Rightarrow> bool" where
  "is_true_cell row i \<longleftrightarrow> cell_opt row i = Some ''t'' \<or> cell_opt row i = Some ''1''"

definition table_columns :: "engine_io \<Rightarrow> managed_database \<Rightarrow> string \<Rightarrow> string option \<Rightarrow> string option \<Rightarrow> column_info list bres" where
  "table_columns io db tbl schema database =
     (if is_redis db \<or> engine db = Mongodb then Inl (BadRequest NoColumnStructure)
      else
        rbind (assertIdentifier tbl ''table'') (\<lambda>t.
        rbind (sql io db (columns_sql (dialect_of (engine db)) (sqlLiteral (Some t) PostgresSql)
                 (sqlLiteral (Some (case schema of None \<Rightarrow> ''public'' | Some s \<Rightarrow> s)) PostgresSql)) True database) (\<lambda>rs.
          if rs_rows rs = [] then Inl (BadRequest (UnknownTable tbl))
          else Inr (map (\<lambda>row. \<lparr>col_name = cell_text row 0, dataType = cell_text row 1, nullable = is_true_cell row 2,
                      defaultValue = cell_opt row 3, isPrimaryKey = is_true_cell row 4\<rparr>) (rs_rows rs)))))"

section \<open>Editing a row\<close>

definition assign_sql :: "sql_dialect \<Rightarrow> string \<times> string option \<Rightarrow> string" where
  "assign_sql eng = (\<lambda>(k, v). quoteIdent k eng @ '' = '' @ sqlLiteral v eng)"

definition whereSql :: "cells \<Rightarrow> sql_dialect \<Rightarrow> string" where
  "whereSql wh eng = join_with '' AND '' (map (assign_sql eng) wh)"

definition setSql :: "cells \<Rightarrow> sql_dialect \<Rightarrow> string" where
  "setSql st eng = join_with '', '' (map (assign_sql eng) st)"

text \<open>\<open>/^(?:UPDATE|DELETE) (\d+)$/.exec(tag)\<close>, then \<open>Number\<close>.\<close>

definition command_tag_count :: "string \<Rightarrow> int option" where
  "command_tag_count tag =
     (let d = drop 7 tag in
      if (starts_with ''UPDATE '' tag \<or> starts_with ''DELETE '' tag) \<and> d \<noteq> [] \<and> list_all is_digit d
      then js_Number d else Some 0)"

definition writeRowStatement :: "engine_io \<Rightarrow> managed_database \<Rightarrow> string \<Rightarrow> sql_dialect \<Rightarrow> string option \<Rightarrow> int option bres" where
  "writeRowStatement io db statement eng database =
     (case eng of
        PostgresSql \<Rightarrow>
          rbind (sql io db statement False database) (\<lambda>rs.
            Inr (command_tag_count (case rs_columns rs of [] \<Rightarrow> [] | c # _ \<Rightarrow> c)))
      | MysqlSql \<Rightarrow>
          rbind (sql io db (statement @ ''; SELECT ROW_COUNT() AS affected'') False database) (\<lambda>rs.
            Inr (case rs_rows rs of
                (Some v # _) # _ \<Rightarrow> if v \<noteq> [] then js_Number v else Some 0
              | _ \<Rightarrow> Some 0)))"

record row_edit =
  re_db :: "string option"
  re_schema :: "string option"
  re_where :: cells
  re_set :: cells

definition limit_one :: "sql_dialect \<Rightarrow> string" where
  "limit_one eng = (if eng = MysqlSql then '' LIMIT 1'' else [])"

definition update_statement :: "string \<Rightarrow> row_edit \<Rightarrow> sql_dialect \<Rightarrow> string" where
  "update_statement src dto eng =
     ''UPDATE '' @ src @ '' SET '' @ setSql (re_set dto) eng @ '' WHERE '' @ whereSql (re_where dto) eng @ limit_one eng"

definition delete_statement :: "string \<Rightarrow> row_edit \<Rightarrow> sql_dialect \<Rightarrow> string" where
  "delete_statement src dto eng = ''DELETE FROM '' @ src @ '' WHERE '' @ whereSql (re_where dto) eng @ limit_one eng"

definition updateRow :: "engine_io \<Rightarrow> managed_database \<Rightarrow> string \<Rightarrow> row_edit \<Rightarrow> string bres" where
  "updateRow io db tbl dto =
     (if is_redis db \<or> engine db = Mongodb then Inl (BadRequest NoRows)
      else if re_set dto = [] then Inl (BadRequest NothingToUpdate)
      else
        let eng = dialect_of (engine db) in
        rbind (table_columns io db tbl (re_schema dto) (re_db dto)) (\<lambda>cols.
        rbind (assertRowTarget cols (re_where dto) (re_set dto)) (\<lambda>_.
        rbind (tableRef tbl (re_schema dto) eng) (\<lambda>src.
        rbind (writeRowStatement io db (update_statement src dto eng) eng (re_db dto)) (\<lambda>affected.
          if affected \<noteq> Some 1 then Inl (BadRequest (RowCountOff affected)) else Inr ''Row updated'')))))"

definition deleteRow :: "engine_io \<Rightarrow> managed_database \<Rightarrow> string \<Rightarrow> row_edit \<Rightarrow> string bres" where
  "deleteRow io db tbl dto =
     (if is_redis db \<or> engine db = Mongodb then Inl (BadRequest NoRows)
      else
        let eng = dialect_of (engine db) in
        rbind (table_columns io db tbl (re_schema dto) (re_db dto)) (\<lambda>cols.
        rbind (assertRowTarget cols (re_where dto) []) (\<lambda>_.
        rbind (tableRef tbl (re_schema dto) eng) (\<lambda>src.
        rbind (writeRowStatement io db (delete_statement src dto eng) eng (re_db dto)) (\<lambda>affected.
          if affected \<noteq> Some 1 then Inl (BadRequest (RowCountOff affected)) else Inr ''Row deleted'')))))"

definition exportTableCsv :: "engine_io \<Rightarrow> managed_database \<Rightarrow> string \<Rightarrow> rows_query \<Rightarrow> (string \<times> bool) bres" where
  "exportTableCsv io db tbl q =
     (if is_redis db then Inl (BadRequest NoRows)
      else if engine db = Mongodb then
        rbind (mongoFind io db tbl ''{}'' (mongo_sort (rq_orderBy q) (rq_desc q)) 0 (MAX_EXPORT_ROWS + 1) (rq_db q)) (\<lambda>docs.
          let rs = mongoDocsToRows io (take MAX_EXPORT_ROWS docs)
          in Inr (toCsv (rs_columns rs) (rs_rows rs), MAX_EXPORT_ROWS < length docs))
      else
        let eng = dialect_of (engine db) in
        rbind (tableRef tbl (rq_schema q) eng) (\<lambda>src.
        rbind (orderSql (rq_orderBy q) (rq_desc q) eng) (\<lambda>order.
        rbind (sql io db (''SELECT * FROM '' @ src @ order @ '' LIMIT '' @ nat_str (MAX_EXPORT_ROWS + 1)) True (rq_db q)) (\<lambda>rs.
          Inr (toCsv (rs_columns rs) (take MAX_EXPORT_ROWS (rs_rows rs)), MAX_EXPORT_ROWS < length (rs_rows rs))))))"

section \<open>The query box\<close>

text \<open>\<open>/^(\w+)\.find\((.*)\)\s*$/s.exec(input.trim())\<close>.\<close>

definition find_query :: "string \<Rightarrow> (string \<times> string) option" where
  "find_query input =
     (let s = trim input; w = takeWhile word_char s; r = dropWhile word_char s; rest = drop 6 r in
      if w \<noteq> [] \<and> starts_with ''.find('' r \<and> rest \<noteq> [] \<and> last rest = CHR '')'' then Some (w, butlast rest) else None)"

text \<open>What the box sends to an SQL engine: the statement and whether the session is read-only.\<close>

definition sql_plan :: "managed_database \<Rightarrow> string \<Rightarrow> string \<Rightarrow> (string \<times> bool) bres" where
  "sql_plan db input role =
     (let s = normalizeSql input in
      if s = [] then Inl (BadRequest EmptyStatement)
      else if hasMultipleStatements s then Inl (BadRequest ManyStatements)
      else if \<not> isReadStatement s \<and> role \<notin> set WRITE_ROLES then Inl (Forbidden WriteNotAllowed)
      else Inr (withRowCap s (dialect_of (engine db)), role \<notin> set WRITE_ROLES))"

text \<open>\<open>/^[A-Z]+( [A-Z]+)*( \d+)*$/.test(s)\<close>: the words of the text, upper-case ones before numbers.\<close>

definition is_command_tag :: "string \<Rightarrow> bool" where
  "is_command_tag s =
     (let ws = split_on (CHR '' '') s; upper = (\<lambda>w. w \<noteq> [] \<and> list_all is_upper w); num = (\<lambda>w. w \<noteq> [] \<and> list_all is_digit w)
      in upper (hd ws) \<and> list_all num (dropWhile upper ws))"

definition sql_result :: "result_set \<Rightarrow> query_result" where
  "sql_result rs =
     (let tag = (if rs_rows rs = [] \<and> length (rs_columns rs) = 1 \<and> is_command_tag (hd (rs_columns rs))
                 then Some (hd (rs_columns rs)) else None)
      in \<lparr>q_columns = (if tag \<noteq> None then [] else rs_columns rs),
          q_rows = (if tag \<noteq> None then [] else take MAX_ROWS (rs_rows rs)),
          q_truncated = (MAX_ROWS < length (rs_rows rs)),
          q_message = (case tag of Some t \<Rightarrow> Some t | None \<Rightarrow> if rs_columns rs = [] then Some ''OK'' else None)\<rparr>)"

definition runQuery :: "engine_io \<Rightarrow> managed_database \<Rightarrow> string \<Rightarrow> string \<Rightarrow> string option \<Rightarrow> query_result bres" where
  "runQuery io db input role database =
     (if is_redis db then
        let args = tokenize input in
        if args = [] then Inl (BadRequest EmptyStatement)
        else if toLowerCase (hd args) \<notin> set REDIS_READ_COMMANDS \<and> role \<notin> set WRITE_ROLES then Inl (Forbidden WriteNotAllowed)
        else rbind (redis io db args) (\<lambda>value.
          let rs = redisToRows io value in
          Inr \<lparr>q_columns = rs_columns rs, q_rows = take MAX_ROWS (rs_rows rs), q_truncated = (MAX_ROWS < length (rs_rows rs)),
            q_message = (if rs_columns rs = [] then Some ''OK'' else None)\<rparr>)
      else if engine db = Mongodb then
        (case find_query input of
           None \<Rightarrow> Inl (BadRequest UnsupportedMongoQuery)
         | Some (collection, filterSrc) \<Rightarrow>
             rbind (mongoFind io db collection (if trim filterSrc = [] then ''{}'' else trim filterSrc) None 0 (MAX_ROWS + 1) database) (\<lambda>docs.
               let rs = mongoDocsToRows io (take MAX_ROWS docs) in
               Inr \<lparr>q_columns = rs_columns rs, q_rows = rs_rows rs, q_truncated = (MAX_ROWS < length docs), q_message = None\<rparr>))
      else
        rbind (sql_plan db input role) (\<lambda>(statement, readOnly).
        rbind (sql io db statement readOnly database) (\<lambda>rs. Inr (sql_result rs))))"

section \<open>Dump and import\<close>

definition dumpScript :: "database_engine \<Rightarrow> string bres" where
  \<open>dumpScript e =
     (case e of
        Postgres \<Rightarrow> Inr (''PGPASSWORD="$DB_PASSWORD" pg_dump -h "$DB_HOST" -p "$DB_PORT" -U "$DB_USER" '' @
          ''--no-owner --no-privileges --clean --if-exists "$DB_NAME"'')
      | Mysql \<Rightarrow> Inr (''mysqldump -h "$DB_HOST" -P "$DB_PORT" -u root -p"$DB_PASSWORD" '' @
          ''--single-transaction --routines --add-drop-table "$DB_NAME"'')
      | Mariadb \<Rightarrow> Inr (''mariadb-dump -h "$DB_HOST" -P "$DB_PORT" -u root -p"$DB_PASSWORD" '' @
          ''--single-transaction --routines --add-drop-table "$DB_NAME"'')
      | _ \<Rightarrow> Inl (BadRequest NoSqlExchange))\<close>

text \<open>The dump itself: the text streamed to the client.\<close>

definition exportSql :: "engine_io \<Rightarrow> managed_database \<Rightarrow> string option \<Rightarrow> string bres" where
  "exportSql io db database =
     rbind (dumpScript (engine db)) (\<lambda>script.
     rbind (runInEngine io db script (db_override database) []) (\<lambda>o1.
       if out_code o1 \<noteq> Some 0 then Inl (engine_error o1) else Inr (out_stdout o1)))"

text \<open>The size of the upload is counted in bytes; \<open>size1\<close> is that count.\<close>

definition importSql :: "engine_io \<Rightarrow> managed_database \<Rightarrow> string option \<Rightarrow> nat \<Rightarrow> string \<Rightarrow> unit bres" where
  \<open>importSql io db database size1 content =
     (if is_redis db \<or> engine db = Mongodb then Inl (BadRequest NoSqlExchange)
      else if IMPORT_MAX_BYTES < size1 then Inl (BadRequest FileTooLarge)
      else
        rbind (runInEngine io db
          (if engine db = Postgres then
             ''PGPASSWORD="$DB_PASSWORD" psql -h "$DB_HOST" -p "$DB_PORT" -U "$DB_USER" -d "$DB_NAME" -v ON_ERROR_STOP=1 -q -f /in/import.sql''
           else mysql_client (engine db) @ '' -h "$DB_HOST" -P "$DB_PORT" -u root -p"$DB_PASSWORD" "$DB_NAME" < /in/import.sql'')
          (db_override database) [(''in/import.sql'', content)]) (\<lambda>o1.
          if out_code o1 \<noteq> Some 0 then Inl (engine_error o1) else Inr ()))\<close>

section \<open>Additional databases of a server\<close>

datatype schema_engine = SchemaSql sql_dialect | SchemaMongo

definition SYSTEM_SCHEMAS :: "schema_engine \<Rightarrow> string list" where
  "SYSTEM_SCHEMAS e = (case e of
       SchemaSql PostgresSql \<Rightarrow> [''postgres'', ''template0'', ''template1'']
     | SchemaSql MysqlSql \<Rightarrow> [''information_schema'', ''performance_schema'', ''mysql'', ''sys'']
     | SchemaMongo \<Rightarrow> [''admin'', ''local'', ''config''])"

definition engineOf :: "managed_database \<Rightarrow> schema_engine bres" where
  "engineOf db =
     (if is_redis db then Inl (BadRequest NumberedDatabases)
      else if engine db = Mongodb then Inr SchemaMongo
      else Inr (SchemaSql (dialect_of (engine db))))"

definition mysqlUser :: "string \<Rightarrow> string" where
  "mysqlUser username = [SQ] @ concat (map (\<lambda>c. if c = SQ then [BSL, SQ] else [c]) (double_char BSL username)) @ [SQ] @ ''@'' @ [SQ] @ ''%'' @ [SQ]"

definition mongoDatabaseNames :: "engine_io \<Rightarrow> managed_database \<Rightarrow> string list bres" where
  "mongoDatabaseNames io db =
     rbind (mongo io db ''db.adminCommand({listDatabases:1, nameOnly:true}).databases.map(d => d.name)'' None) (\<lambda>v.
       Inr (case v of JArr ns \<Rightarrow> json_texts ns | _ \<Rightarrow> []))"

definition list_schemas :: "engine_io \<Rightarrow> managed_database \<Rightarrow> (string \<times> bool) list bres" where
  "list_schemas io db =
     rbind (engineOf db) (\<lambda>e.
     rbind (case e of
          SchemaMongo \<Rightarrow> mongoDatabaseNames io db
        | SchemaSql d \<Rightarrow>
            rbind (sql io db (if d = PostgresSql then ''SELECT datname FROM pg_database WHERE NOT datistemplate ORDER BY 1'' else ''SHOW DATABASES'') True None)
              (\<lambda>rs. Inr (map (\<lambda>row. cell_text row 0) (rs_rows rs)))) (\<lambda>names.
       Inr (map (\<lambda>n. (n, n = databaseName db)) (filter (\<lambda>n. n \<noteq> [] \<and> n \<notin> set (SYSTEM_SCHEMAS e)) names))))"

definition create_schema :: "engine_io \<Rightarrow> managed_database \<Rightarrow> string \<Rightarrow> (string \<times> bool) bres" where
  "create_schema io db name =
     rbind (engineOf db) (\<lambda>e.
       if name \<in> set (SYSTEM_SCHEMAS e) then Inl (BadRequest (ReservedSchema name))
       else case e of
          SchemaMongo \<Rightarrow>
            rbind (mongo io db (''db.getCollection('' @ [DQ] @ ''_aoox_init'' @ [DQ] @ '').insertOne({createdAt: new Date()})'') (Some name))
              (\<lambda>_. Inr (name, False))
        | SchemaSql PostgresSql \<Rightarrow>
            rbind (sql io db (''CREATE DATABASE '' @ quoteIdent name PostgresSql @ '' OWNER '' @ quoteIdent (db_username db) PostgresSql) False None)
              (\<lambda>_. Inr (name, False))
        | SchemaSql MysqlSql \<Rightarrow>
            rbind (sql io db (''CREATE DATABASE '' @ quoteIdent name MysqlSql) False None) (\<lambda>_.
            rbind (sql io db (''GRANT ALL PRIVILEGES ON '' @ quoteIdent name MysqlSql @ ''.* TO '' @ mysqlUser (db_username db)) False None)
              (\<lambda>_. Inr (name, False))))"

definition drop_schema :: "engine_io \<Rightarrow> managed_database \<Rightarrow> string \<Rightarrow> unit bres" where
  "drop_schema io db name =
     rbind (engineOf db) (\<lambda>e.
       if name = databaseName db then Inl (BadRequest PrimarySchema)
       else if name \<in> set (SYSTEM_SCHEMAS e) then Inl (BadRequest (ReservedSchema name))
       else case e of
          SchemaMongo \<Rightarrow> rbind (mongo io db ''db.dropDatabase()'' (Some name)) (\<lambda>_. Inr ())
        | SchemaSql d \<Rightarrow>
            rbind (sql io db (''DROP DATABASE IF EXISTS '' @ quoteIdent name d @ (if d = PostgresSql then '' WITH (FORCE)'' else [])) False None)
              (\<lambda>_. Inr ()))"

section \<open>Query history\<close>

definition QUERY_HISTORY_KEEP :: nat where "QUERY_HISTORY_KEEP = 50"
definition SQL_MAX_LENGTH :: nat where "SQL_MAX_LENGTH = 4000"
definition ERROR_MAX_LENGTH :: nat where "ERROR_MAX_LENGTH = 500"

record query_history_entry =
  qh_id :: string
  qh_databaseId :: string
  qh_userId :: string
  qh_db :: "string option"
  qh_sql :: string
  qh_success :: bool
  qh_errorMessage :: "string option"
  qh_rowCount :: "nat option"
  qh_createdAt :: nat

definition history_of :: "string \<Rightarrow> string \<Rightarrow> query_history_entry \<Rightarrow> bool" where
  "history_of did uid r \<longleftrightarrow> qh_databaseId r = did \<and> qh_userId r = uid"

text \<open>\<open>skip: 50, take: 100\<close>, then delete.\<close>

definition prune_history :: "string \<Rightarrow> string \<Rightarrow> query_history_entry list \<Rightarrow> query_history_entry list" where
  "prune_history did uid rs =
     (let old = take 100 (drop QUERY_HISTORY_KEEP (newest_by qh_createdAt (filter (history_of did uid) rs)))
      in filter (\<lambda>r. r \<notin> set old) rs)"

text \<open>The row as sent, with its texts cut; the id and the time stamp are the database's.\<close>

definition record_query :: "query_history_entry \<Rightarrow> query_history_entry list \<Rightarrow> query_history_entry list" where
  "record_query input rs =
     (let row = input\<lparr>qh_sql := take SQL_MAX_LENGTH (qh_sql input),
                      qh_errorMessage := map_option (take ERROR_MAX_LENGTH) (qh_errorMessage input)\<rparr>
      in prune_history (qh_databaseId input) (qh_userId input) (rs @ [row]))"

definition list_history :: "string \<Rightarrow> string \<Rightarrow> query_history_entry list \<Rightarrow> query_history_entry list" where
  "list_history did uid rs = take QUERY_HISTORY_KEEP (newest_by qh_createdAt (filter (history_of did uid) rs))"

definition clear_history :: "string \<Rightarrow> string \<Rightarrow> query_history_entry list \<Rightarrow> query_history_entry list" where
  "clear_history did uid rs = filter (\<lambda>r. \<not> history_of did uid r) rs"

end
