(* ===== verification/Query_Laws.thy ===== *)
theory Query_Laws
  imports Data_Browser
begin

text \<open>
  What the data browser guarantees about the statements it writes: quoting is undone by the lexical rules of the
  engines and of the shell, so a value can never leave its quotes; a row edit names the primary key and nothing
  else; exported CSV reads back; a member's statement runs in a read-only session.  The lexical rules are reference
  readers of this theory, taken from the documentation of SQL, MySQL, POSIX \<open>sh\<close> and RFC 4180; they are not code of
  the repository.
\<close>

section \<open>Quoting, abstractly\<close>

text \<open>
  \<open>enc\<close> writes a value, \<open>dec\<close> reads one from the front of a text and returns the rest, provided what follows
  cannot be taken for a part of it (\<open>follows\<close>).
\<close>

fun read_sep :: "(string \<Rightarrow> ('a \<times> string) option) \<Rightarrow> string \<Rightarrow> nat \<Rightarrow> string \<Rightarrow> ('a list \<times> string) option" where
  "read_sep dec sep 0 s = None"
| "read_sep dec sep (Suc n) s =
     (case dec s of
        None \<Rightarrow> None
      | Some (a, r) \<Rightarrow>
          if starts_with sep r then map_option (\<lambda>(as, z). (a # as, z)) (read_sep dec sep n (drop (length sep) r))
          else Some ([a], r))"

locale quoted =
  fixes enc :: "'a \<Rightarrow> string" and dec :: "string \<Rightarrow> ('a \<times> string) option" and follows :: "string \<Rightarrow> bool"
  assumes dec_enc: "follows r \<Longrightarrow> dec (enc a @ r) = Some (a, r)"
begin

lemma enc_inj: "follows [] \<Longrightarrow> enc a = enc b \<Longrightarrow> a = b"
  using dec_enc [of "[]" a] dec_enc [of "[]" b] by simp

text \<open>A joined list is read back element by element.\<close>

lemma read_joined:
  assumes "xs \<noteq> []" and "\<And>z. follows (sep @ z)" and "follows r" and "\<not> starts_with sep r" and "length xs \<le> n"
  shows "read_sep dec sep n (join_with sep (map enc xs) @ r) = Some (xs, r)"
  using assms(1,5)
proof (induction xs arbitrary: n)
  case (Cons x xs)
  then obtain m where n: "n = Suc m" by (cases n) auto
  show ?case
  proof (cases xs)
    case Nil
    then show ?thesis using assms(3,4) by (simp add: n dec_enc)
  next
    case (Cons y ys)
    then have "join_with sep (map enc (x # xs)) @ r = enc x @ (sep @ join_with sep (map enc xs) @ r)" by simp
    moreover have "starts_with sep (sep @ z)" for z by (simp add: starts_with_def)
    moreover have "read_sep dec sep m (join_with sep (map enc xs) @ r) = Some (xs, r)"
      using Cons.IH [of m] Cons.prems \<open>xs = y # ys\<close> n by simp
    ultimately show ?thesis using assms(2) by (simp add: n dec_enc)
  qed
qed simp

end

section \<open>SQL identifiers and literals\<close>

text \<open>A quoted identifier or a standard string literal: the quote is written twice inside.\<close>

fun read_body :: "char \<Rightarrow> string \<Rightarrow> (string \<times> string) option" where
  "read_body q [] = None"
| "read_body q (c # r) =
     (if c = q then
        (if r \<noteq> [] \<and> hd r = q then map_option (\<lambda>(w, z). (q # w, z)) (read_body q (tl r)) else Some ([], r))
      else map_option (\<lambda>(w, z). (c # w, z)) (read_body q r))"

definition read_quoted :: "char \<Rightarrow> string \<Rightarrow> (string \<times> string) option" where
  "read_quoted q s = (case s of [] \<Rightarrow> None | c # r \<Rightarrow> if c = q then read_body q r else None)"

text \<open>The escape sequences of a MySQL string literal.\<close>

definition mysql_escape :: "char \<Rightarrow> char" where
  "mysql_escape c = (if c = CHR ''0'' then CHR 0x00 else if c = CHR ''b'' then CHR 0x08 else if c = CHR ''n'' then LF
     else if c = CHR ''r'' then CR else if c = CHR ''t'' then TAB else if c = CHR ''Z'' then CHR 0x1A else c)"

fun read_mysql_body :: "string \<Rightarrow> (string \<times> string) option" where
  "read_mysql_body [] = None"
| "read_mysql_body (c # r) =
     (if c = BSL then (if r = [] then None else map_option (\<lambda>(w, z). (mysql_escape (hd r) # w, z)) (read_mysql_body (tl r)))
      else if c = SQ then
        (if r \<noteq> [] \<and> hd r = SQ then map_option (\<lambda>(w, z). (SQ # w, z)) (read_mysql_body (tl r)) else Some ([], r))
      else map_option (\<lambda>(w, z). (c # w, z)) (read_mysql_body r))"

definition read_ident :: "sql_dialect \<Rightarrow> string \<Rightarrow> (string \<times> string) option" where
  "read_ident eng s = read_quoted (if eng = PostgresSql then DQ else TICK) s"

definition read_literal :: "sql_dialect \<Rightarrow> string \<Rightarrow> (string option \<times> string) option" where
  "read_literal eng s =
     (if starts_with ''NULL'' s then Some (None, drop 4 s)
      else case s of [] \<Rightarrow> None
       | c # r \<Rightarrow> if c = SQ then map_option (\<lambda>(w, z). (Some w, z)) (if eng = MysqlSql then read_mysql_body r else read_body SQ r)
           else None)"

lemma double_char_simps [simp]:
  "double_char q [] = []"
  "double_char q (c # s) = (if c = q then [q, q] else [c]) @ double_char q s"
  "double_char q (s @ t) = double_char q s @ double_char q t"
  by (simp_all add: double_char_def)

lemma read_body_double: "r = [] \<or> hd r \<noteq> q \<Longrightarrow> read_body q (double_char q s @ q # r) = Some (s, r)"
  by (induction s) auto

lemma read_mysql_body_double:
  "r = [] \<or> hd r \<noteq> SQ \<Longrightarrow> read_mysql_body (double_char BSL (double_char SQ s) @ SQ # r) = Some (s, r)"
  by (induction s) (auto simp: mysql_escape_def)

text \<open>What may follow: anything that does not continue a quote.\<close>

definition no_quote :: "string \<Rightarrow> bool" where
  "no_quote r \<longleftrightarrow> r = [] \<or> hd r \<notin> {SQ, DQ, TICK}"

interpretation ident: quoted "\<lambda>n. quoteIdent n eng" "read_ident eng" no_quote for eng
  by unfold_locales
    (cases eng; auto simp: quoteIdent_def read_ident_def read_quoted_def no_quote_def read_body_double)

lemma starts_NULL: "starts_with ''NULL'' (SQ # r) = False"
  by (simp add: starts_with_def)

interpretation literal: quoted "\<lambda>v. sqlLiteral v eng" "read_literal eng" no_quote for eng
proof
  fix r v assume r: "no_quote r"
  show "read_literal eng (sqlLiteral v eng @ r) = Some (v, r)"
  proof (cases v)
    case None
    then show ?thesis by (simp add: read_literal_def sqlLiteral_def starts_with_def)
  next
    case (Some s)
    then show ?thesis using r
      by (cases eng) (auto simp: read_literal_def sqlLiteral_def starts_NULL no_quote_def read_body_double read_mysql_body_double)
  qed
qed

text \<open>\<open>column = value\<close>.\<close>

definition read_assign :: "sql_dialect \<Rightarrow> string \<Rightarrow> ((string \<times> string option) \<times> string) option" where
  "read_assign eng s =
     (case read_ident eng s of
        Some (k, r) \<Rightarrow>
          if starts_with '' = '' r then map_option (\<lambda>(v, z). ((k, v), z)) (read_literal eng (drop 3 r)) else None
      | None \<Rightarrow> None)"

interpretation assignment: quoted "assign_sql eng" "read_assign eng" no_quote for eng
proof
  fix r and kv :: "string \<times> string option" assume r: "no_quote r"
  obtain k v where kv: "kv = (k, v)" by (cases kv)
  have "read_ident eng (quoteIdent k eng @ ('' = '' @ sqlLiteral v eng @ r)) = Some (k, '' = '' @ sqlLiteral v eng @ r)"
    by (rule ident.dec_enc) (simp add: no_quote_def)
  then show "read_assign eng (assign_sql eng kv @ r) = Some (kv, r)"
    by (simp add: read_assign_def assign_sql_def kv starts_with_def literal.dec_enc [OF r])
qed

section \<open>Row edits\<close>

definition expect :: "string \<Rightarrow> string \<Rightarrow> string option" where
  "expect p s = (if starts_with p s then Some (drop (length p) s) else None)"

lemma expect_append [simp]: "expect p (p @ r) = Some r"
  by (simp add: expect_def starts_with_def)

text \<open>\<open>schema.table\<close> or \<open>table\<close>.\<close>

definition read_table :: "sql_dialect \<Rightarrow> string \<Rightarrow> ((string option \<times> string) \<times> string) option" where
  "read_table eng s =
     Option.bind (read_ident eng s) (\<lambda>(a, r).
       case expect ''.'' r of
         Some r' \<Rightarrow> map_option (\<lambda>(b, z). ((Some a, b), z)) (read_ident eng r')
       | None \<Rightarrow> Some ((None, a), r))"

text \<open>The list of \<open>column = value\<close> up to the end of the statement.\<close>

definition read_conditions :: "sql_dialect \<Rightarrow> string \<Rightarrow> cells option" where
  "read_conditions eng s =
     Option.bind (read_sep (read_assign eng) '' AND '' (length s) s) (\<lambda>(wh, z).
       if z = limit_one eng then Some wh else None)"

definition read_update :: "sql_dialect \<Rightarrow> string \<Rightarrow> ((string option \<times> string) \<times> cells \<times> cells) option" where
  "read_update eng s =
     Option.bind (expect ''UPDATE '' s) (\<lambda>s1.
     Option.bind (read_table eng s1) (\<lambda>(t, s2).
     Option.bind (expect '' SET '' s2) (\<lambda>s3.
     Option.bind (read_sep (read_assign eng) '', '' (length s3) s3) (\<lambda>(st, s4).
     Option.bind (expect '' WHERE '' s4) (\<lambda>s5.
     map_option (\<lambda>wh. (t, st, wh)) (read_conditions eng s5))))))"

definition read_delete :: "sql_dialect \<Rightarrow> string \<Rightarrow> ((string option \<times> string) \<times> cells) option" where
  "read_delete eng s =
     Option.bind (expect ''DELETE FROM '' s) (\<lambda>s1.
     Option.bind (read_table eng s1) (\<lambda>(t, s2).
     Option.bind (expect '' WHERE '' s2) (\<lambda>s3.
     map_option (\<lambda>wh. (t, wh)) (read_conditions eng s3))))"

lemma length_join_with: "\<forall>x \<in> set xs. x \<noteq> [] \<Longrightarrow> length xs \<le> length (join_with sep xs)"
proof (induction sep xs rule: join_with.induct)
  case (3 sep x y ys)
  then have "1 \<le> length x" by (simp add: Suc_le_eq)
  then show ?case using 3 by simp
qed (auto simp: Suc_le_eq)

lemma assign_sql_nonempty: "assign_sql eng kv \<noteq> []"
  by (cases kv; cases eng) (simp_all add: assign_sql_def quoteIdent_def)

lemma read_assignments:
  assumes "xs \<noteq> []" and "sep \<in> {'' AND '', '', ''}" and "no_quote r" and "\<not> starts_with sep r"
  shows "read_sep (read_assign eng) sep (length (join_with sep (map (assign_sql eng) xs) @ r))
    (join_with sep (map (assign_sql eng) xs) @ r) = Some (xs, r)"
proof (rule assignment.read_joined [OF assms(1) _ assms(3,4)])
  show "no_quote (sep @ z)" for z using assms(2) by (auto simp: no_quote_def)
  show "length xs \<le> length (join_with sep (map (assign_sql eng) xs) @ r)"
    using length_join_with [of "map (assign_sql eng) xs" sep] by (simp add: assign_sql_nonempty)
qed

lemma read_conditions_where: "wh \<noteq> [] \<Longrightarrow> read_conditions eng (whereSql wh eng @ limit_one eng) = Some wh"
  using read_assignments [of wh "'' AND ''" "limit_one eng" eng]
  by (simp add: read_conditions_def whereSql_def limit_one_def no_quote_def starts_with_def)

lemma read_table_ref:
  assumes "tableRef tbl schema eng = Inr src" and "r \<noteq> []" and "hd r = CHR '' ''"
  shows "read_table eng (src @ r) = Some ((case schema of None \<Rightarrow> None | Some s \<Rightarrow> if s = [] then None else Some s, tbl), r)"
proof -
  have nq: "no_quote r" using assms(3) by (simp add: no_quote_def)
  obtain z where z: "r = CHR '' '' # z" using assms(2,3) by (cases r) auto
  have plain: "expect ''.'' r = None" by (simp add: expect_def starts_with_def z)
  show ?thesis
  proof (cases "\<exists>s. schema = Some s \<and> s \<noteq> []")
    case True
    then obtain s where s: "schema = Some s" "s \<noteq> []" by blast
    then have src: "src = quoteIdent s eng @ ''.'' @ quoteIdent tbl eng"
      using assms(1) by (auto simp: tableRef_def assertIdentifier_def split: if_splits)
    have "read_ident eng (quoteIdent s eng @ (''.'' @ quoteIdent tbl eng @ r)) = Some (s, ''.'' @ quoteIdent tbl eng @ r)"
      by (rule ident.dec_enc) (simp add: no_quote_def)
    then show ?thesis using s ident.dec_enc [OF nq, of eng tbl]
      by (simp add: read_table_def src expect_def starts_with_def)
  next
    case False
    then have "src = quoteIdent tbl eng"
      using assms(1) by (auto simp: tableRef_def assertIdentifier_def split: if_splits option.splits)
    then show ?thesis using False ident.dec_enc [OF nq, of eng tbl]
      by (auto simp: read_table_def plain split: option.splits)
  qed
qed

definition table_name :: "string option \<Rightarrow> string \<Rightarrow> string option \<times> string" where
  "table_name schema tbl = (case schema of None \<Rightarrow> None | Some s \<Rightarrow> if s = [] then None else Some s, tbl)"

lemma read_update_statement:
  assumes "tableRef tbl (re_schema dto) eng = Inr src" and "re_set dto \<noteq> []" and "re_where dto \<noteq> []"
  shows "read_update eng (update_statement src dto eng) = Some (table_name (re_schema dto) tbl, re_set dto, re_where dto)"
proof -
  let ?w = "whereSql (re_where dto) eng @ limit_one eng"
  have t: "read_table eng (src @ '' SET '' @ setSql (re_set dto) eng @ '' WHERE '' @ ?w)
      = Some (table_name (re_schema dto) tbl, '' SET '' @ setSql (re_set dto) eng @ '' WHERE '' @ ?w)"
    unfolding table_name_def by (rule read_table_ref [OF assms(1)]) auto
  have s: "read_sep (read_assign eng) '', '' (length (setSql (re_set dto) eng @ '' WHERE '' @ ?w)) (setSql (re_set dto) eng @ '' WHERE '' @ ?w)
      = Some (re_set dto, '' WHERE '' @ ?w)"
    unfolding setSql_def by (rule read_assignments [OF assms(2)]) (auto simp: no_quote_def starts_with_def)
  have e: "expect '' WHERE '' ('' WHERE '' @ ?w) = Some ?w" "expect '' SET '' ('' SET '' @ z) = Some z"
    "expect ''UPDATE '' (''UPDATE '' @ z) = Some z" for z by (rule expect_append)+
  show ?thesis
    unfolding read_update_def update_statement_def e Option.bind.bind_lunit append_assoc t s prod.case
      read_conditions_where [OF assms(3)] by simp
qed

lemma read_delete_statement:
  assumes "tableRef tbl (re_schema dto) eng = Inr src" and "re_where dto \<noteq> []"
  shows "read_delete eng (delete_statement src dto eng) = Some (table_name (re_schema dto) tbl, re_where dto)"
proof -
  let ?w = "whereSql (re_where dto) eng @ limit_one eng"
  have t: "read_table eng (src @ '' WHERE '' @ ?w) = Some (table_name (re_schema dto) tbl, '' WHERE '' @ ?w)"
    unfolding table_name_def by (rule read_table_ref [OF assms(1)]) auto
  have e: "expect '' WHERE '' ('' WHERE '' @ ?w) = Some ?w" "expect ''DELETE FROM '' (''DELETE FROM '' @ z) = Some z" for z
    by (rule expect_append)+
  show ?thesis
    unfolding read_delete_def delete_statement_def e Option.bind.bind_lunit append_assoc t prod.case
      read_conditions_where [OF assms(2)] by simp
qed

lemma check_set_keys_Inr: "check_set_keys kn pk ks = Inr u \<longleftrightarrow> (\<forall>k \<in> set ks. k \<in> set kn \<and> k \<notin> set pk)"
  by (induction ks) auto

definition primary_key :: "column_info list \<Rightarrow> string list" where
  "primary_key cols = map col_name (filter isPrimaryKey cols)"

lemma assertRowTarget_InrD:
  assumes "assertRowTarget cols wh st = Inr pk"
  shows "pk = primary_key cols" and "wh \<noteq> []" and "length wh = length pk" and "set pk \<subseteq> fst ` set wh"
    and "\<forall>k \<in> set pk. map_of wh k \<noteq> Some None"
    and "\<forall>k \<in> fst ` set st. k \<in> col_name ` set cols \<and> k \<notin> set pk"
  using assms
  by (auto simp: assertRowTarget_def Let_def primary_key_def check_set_keys_Inr list_all_iff list_ex_iff split: if_splits)

text \<open>The condition of an edit on a row of the table, as SQL compares: \<open>NULL\<close> equals nothing.\<close>

definition row_matches :: "cells \<Rightarrow> (string \<Rightarrow> string option) \<Rightarrow> bool" where
  "row_matches wh r \<longleftrightarrow> (\<forall>(k, v) \<in> set wh. v \<noteq> None \<and> r k = v)"

definition is_key :: "string list \<Rightarrow> (string \<Rightarrow> string option) set \<Rightarrow> bool" where
  "is_key pk rs \<longleftrightarrow> (\<forall>r \<in> rs. \<forall>r' \<in> rs. (\<forall>k \<in> set pk. r k = r' k) \<longrightarrow> r = r')"

lemma key_match_unique:
  assumes "is_key pk rs" and "set pk \<subseteq> fst ` set wh" and "r \<in> rs" "r' \<in> rs" "row_matches wh r" "row_matches wh r'"
  shows "r = r'"
proof -
  have "r k = r' k" if "k \<in> set pk" for k
    using that assms(2,5,6) by (fastforce simp: row_matches_def)
  then show ?thesis using assms(1,3,4) by (auto simp: is_key_def)
qed

lemma exact_key:
  assumes "distinct pk" and "length wh = length pk" and "set pk \<subseteq> fst ` set wh"
  shows "fst ` set wh = set pk"
proof -
  have "card (fst ` set wh) \<le> length wh" by (metis card_length length_map list.set_map)
  moreover have "card (set pk) = length pk" using assms(1) by (rule distinct_card)
  ultimately show ?thesis using assms(2,3) by (metis List.finite_set card_seteq finite_imageI)
qed

lemma distinct_primary_key: "distinct (map col_name cols) \<Longrightarrow> distinct (primary_key cols)"
  by (simp add: primary_key_def distinct_map_filter)

definition demo_pg :: managed_database where
  "demo_pg = \<lparr>db_id = ''d1'', db_projectId = ''p1'', db_name = ''db'', db_slug = ''db'', engine = Postgres, variant = None,
     imageTag = ''17'', databaseName = ''app'', db_username = ''u'', passwordEncrypted = ''x'', hostPort = None, hostPortBind = None\<rparr>"

text \<open>An engine with one table of two columns whose first column is the key.\<close>

definition demo_engine :: engine_io where
  "demo_engine = \<lparr>docker_run = (\<lambda>h. Inr (''0'',
       (if list_ex (starts_with ''SQL=UPDATE'') (drop 5 (h_env h)) then ''UPDATE 1'' @ [LF]
        else ''n,t,f,d,k'' @ [LF] @ ''id,text,f,,t'' @ [LF] @ ''v,text,t,,f'' @ [LF]), [])),
     decryptSecret = (\<lambda>s. s), parseJson = (\<lambda>s. None), stringify = (\<lambda>v. []), js_String = (\<lambda>v. [])\<rparr>"

definition demo_edit :: row_edit where
  "demo_edit = \<lparr>re_db = None, re_schema = Some ''public'', re_where = [(''id'', Some (''x'' @ [SQ] @ '' OR 1=1 -- ''))], re_set = [(''v'', None)]\<rparr>"

lemma demo_sql:
  "sql demo_engine demo_pg st ro None = Inr (parsePsqlCsv
     (if starts_with ''SQL=UPDATE'' (''SQL='' @ st) then ''UPDATE 1'' @ [LF]
      else ''n,t,f,d,k'' @ [LF] @ ''id,text,f,,t'' @ [LF] @ ''v,text,t,,f'' @ [LF]))"
proof -
  have "js_Number (trim ''0'') = Some 0" by code_simp
  then show ?thesis by (simp add: sql_def runInEngine_def helper_container_def demo_engine_def demo_pg_def db_override_def)
qed

lemma demo_columns: "table_columns demo_engine demo_pg ''notes'' (Some ''public'') None =
  Inr [\<lparr>col_name = ''id'', dataType = ''text'', nullable = False, defaultValue = Some [], isPrimaryKey = True\<rparr>,
       \<lparr>col_name = ''v'', dataType = ''text'', nullable = True, defaultValue = Some [], isPrimaryKey = False\<rparr>]"
proof -
  have "parsePsqlCsv (''n,t,f,d,k'' @ [LF] @ ''id,text,f,,t'' @ [LF] @ ''v,text,t,,f'' @ [LF]) =
    \<lparr>rs_columns = [''n'', ''t'', ''f'', ''d'', ''k''],
     rs_rows = [[Some ''id'', Some ''text'', Some ''f'', Some [], Some ''t''], [Some ''v'', Some ''text'', Some ''t'', Some [], Some ''f'']]\<rparr>"
    by code_simp
  moreover have "IDENT ''notes''" by code_simp
  moreover have "\<not> starts_with ''SQL=UPDATE'' (''SQL='' @ columns_sql PostgresSql a b)" for a b
    by (simp add: columns_sql_def starts_with_def)
  ultimately show ?thesis
    by (simp add: table_columns_def demo_sql is_redis_def dialect_of_def assertIdentifier_def
        is_true_cell_def cell_opt_def cell_text_def cell_at_def) (simp add: demo_pg_def is_redis_def dialect_of_def)
qed

lemma demo_update: "updateRow demo_engine demo_pg ''notes'' demo_edit = Inr ''Row updated''"
proof -
  have pg: "engine demo_pg = Postgres" "\<not> is_redis demo_pg" "dialect_of Postgres = PostgresSql"
    by (simp_all add: demo_pg_def is_redis_def dialect_of_def)
  have "tableRef ''notes'' (Some ''public'') PostgresSql = Inr (quoteIdent ''public'' PostgresSql @ ''.'' @ quoteIdent ''notes'' PostgresSql)"
    by code_simp
  moreover have "command_tag_count (case rs_columns (parsePsqlCsv (''UPDATE 1'' @ [LF])) of [] \<Rightarrow> [] | c # _ \<Rightarrow> c) = Some 1" by code_simp
  moreover have "starts_with ''SQL=UPDATE'' (''SQL='' @ update_statement z d PostgresSql)" for z d
    by (simp add: update_statement_def starts_with_def)
  ultimately show ?thesis
    by (simp add: updateRow_def pg demo_edit_def demo_columns assertRowTarget_def writeRowStatement_def demo_sql)
qed

text \<open>
  C18: editing a row.  When \<open>updateRow\<close> reports success, the statement it ran, read with the lexical rules of the
  engine, is an \<open>UPDATE\<close> of the requested table that assigns exactly the requested cells under exactly the requested
  condition, whatever quotes, backslashes or comments the values hold; the condition fixes every column of the
  table's primary key (and no other column), no key column is assigned, every assigned column exists, and so the
  condition holds for at most one row of a table with that key.  The engine reported one row.
\<close>

theorem update_row_hits_one_row:
  assumes "updateRow io db tbl dto = Inr msg"
  shows "\<exists>cols src. table_columns io db tbl (re_schema dto) (re_db dto) = Inr cols \<and>
      writeRowStatement io db (update_statement src dto (dialect_of (engine db))) (dialect_of (engine db)) (re_db dto) = Inr (Some 1) \<and>
      read_update (dialect_of (engine db)) (update_statement src dto (dialect_of (engine db)))
        = Some (table_name (re_schema dto) tbl, re_set dto, re_where dto) \<and>
      set (primary_key cols) \<subseteq> fst ` set (re_where dto) \<and>
      (distinct (map col_name cols) \<longrightarrow> fst ` set (re_where dto) = set (primary_key cols)) \<and>
      fst ` set (re_set dto) \<subseteq> col_name ` set cols - set (primary_key cols) \<and>
      (\<forall>rs r r'. is_key (primary_key cols) rs \<longrightarrow> r \<in> rs \<longrightarrow> r' \<in> rs \<longrightarrow>
         row_matches (re_where dto) r \<longrightarrow> row_matches (re_where dto) r' \<longrightarrow> r = r')"
proof -
  let ?e = "dialect_of (engine db)"
  obtain cols pk src where c: "table_columns io db tbl (re_schema dto) (re_db dto) = Inr cols"
    and t: "assertRowTarget cols (re_where dto) (re_set dto) = Inr pk" and ref: "tableRef tbl (re_schema dto) ?e = Inr src"
    and w: "writeRowStatement io db (update_statement src dto ?e) ?e (re_db dto) = Inr (Some 1)" and st: "re_set dto \<noteq> []"
    using assms by (auto simp: updateRow_def Let_def split: if_splits)
  note target = assertRowTarget_InrD [OF t]
  have "set pk \<subseteq> fst ` set (re_where dto)" by (rule target(4))
  moreover have "fst ` set (re_where dto) = set pk" if "distinct (map col_name cols)"
    using exact_key [OF _ target(3,4)] distinct_primary_key [OF that] target(1) by simp
  moreover have "fst ` set (re_set dto) \<subseteq> col_name ` set cols - set pk" using target(6) by blast
  moreover have "r = r'" if "is_key pk rs" "r \<in> rs" "r' \<in> rs" "row_matches (re_where dto) r" "row_matches (re_where dto) r'" for rs r r'
    using key_match_unique [OF that(1) target(4) that(2-5)] .
  ultimately show ?thesis using c w read_update_statement [OF ref st target(2)] unfolding target(1) by blast
qed

theorem update_row_hits_one_row_witness:
  "updateRow demo_engine demo_pg ''notes'' demo_edit = Inr ''Row updated'' \<and>
   (\<exists>cols src. table_columns demo_engine demo_pg ''notes'' (Some ''public'') None = Inr cols \<and>
      read_update PostgresSql (update_statement src demo_edit PostgresSql)
        = Some ((Some ''public'', ''notes''), [(''v'', None)], [(''id'', Some (''x'' @ [SQ] @ '' OR 1=1 -- ''))]))"
proof
  show ok: "updateRow demo_engine demo_pg ''notes'' demo_edit = Inr ''Row updated''" by (rule demo_update)
  show "\<exists>cols src. table_columns demo_engine demo_pg ''notes'' (Some ''public'') None = Inr cols \<and>
      read_update PostgresSql (update_statement src demo_edit PostgresSql)
        = Some ((Some ''public'', ''notes''), [(''v'', None)], [(''id'', Some (''x'' @ [SQ] @ '' OR 1=1 -- ''))])"
    using update_row_hits_one_row [OF ok] by (auto simp: demo_edit_def demo_pg_def dialect_of_def table_name_def)
qed

section \<open>Exported tables read back\<close>

text \<open>What a cell comes back as: CSV has no \<open>NULL\<close>, and an unquoted \<open>\N\<close> stands for it in what \<open>psql\<close> prints.\<close>

definition csv_back :: "string option \<Rightarrow> string option" where
  "csv_back v = (case v of None \<Rightarrow> Some [] | Some s \<Rightarrow> if s = PSQL_NULL then None else Some s)"

lemma csv_loop_plain:
  "\<not> csv_needs_quoting v \<Longrightarrow> csv_loop rs row f q False (v @ r) = csv_loop rs row (f @ v) q False r"
  by (induction v arbitrary: f) (auto simp: csv_needs_quoting_def)

lemma csv_loop_body:
  "r = [] \<or> hd r \<noteq> DQ \<Longrightarrow> csv_loop rs row f q True (double_char DQ v @ DQ # r) = csv_loop rs row (f @ v) q False r"
  by (induction v arbitrary: f) auto

lemma PSQL_NULL_plain: "\<not> csv_needs_quoting PSQL_NULL"
  by code_simp

text \<open>One field and the separator after it.\<close>

lemma csv_field:
  assumes "r = [] \<or> hd r \<noteq> DQ"
  shows "\<exists>f q. csv_loop rs row [] False False (csvEscape v @ r) = csv_loop rs row f q False r \<and> csv_cell q f = csv_back v"
proof (cases v)
  case None
  then show ?thesis by (intro exI [of _ "[]"] exI [of _ False]) (simp add: csvEscape_def csv_cell_def csv_back_def PSQL_NULL_def)
next
  case (Some s)
  show ?thesis
  proof (cases "csv_needs_quoting s")
    case True
    then have "s \<noteq> PSQL_NULL" using PSQL_NULL_plain by auto
    moreover have "csv_loop rs row [] False False (csvEscape v @ r) = csv_loop rs row s True False r"
      using True csv_loop_body [OF assms, of rs row "[]" True s] by (simp add: csvEscape_def Some)
    ultimately show ?thesis by (intro exI [of _ s] exI [of _ True]) (simp add: csv_cell_def csv_back_def Some)
  next
    case False
    then have "csv_loop rs row [] False False (csvEscape v @ r) = csv_loop rs row s False False r"
      using csv_loop_plain [OF False, of rs row "[]" False r] by (simp add: csvEscape_def Some)
    then show ?thesis by (intro exI [of _ s] exI [of _ False]) (simp add: csv_cell_def csv_back_def Some)
  qed
qed

lemma csv_line:
  assumes "cs \<noteq> []"
  shows "csv_loop rs row [] False False (join_with '','' (map csvEscape cs) @ CRLF @ r)
    = csv_loop (rs @ [row @ map csv_back cs]) [] [] False False r"
  using assms
proof (induction cs arbitrary: row)
  case (Cons c cs)
  show ?case
  proof (cases cs)
    case Nil
    obtain f q where "csv_loop rs row [] False False (csvEscape c @ CRLF @ r) = csv_loop rs row f q False (CRLF @ r)"
      and "csv_cell q f = csv_back c" using csv_field [of "CRLF @ r" rs row c] by (auto simp: CRLF_def)
    then show ?thesis by (simp add: Nil CRLF_def)
  next
    case (Cons d ds)
    let ?z = "join_with '','' (map csvEscape cs) @ CRLF @ r"
    obtain f q where f: "csv_loop rs row [] False False (csvEscape c @ '','' @ ?z) = csv_loop rs row f q False ('','' @ ?z)"
      and b: "csv_cell q f = csv_back c" using csv_field [of "'','' @ ?z" rs row c] by auto
    have "csv_loop rs row f q False ('','' @ ?z) = csv_loop rs (row @ [csv_back c]) [] False False ?z" using b by simp
    then show ?thesis using f Cons.IH [of "row @ [csv_back c]"] \<open>cs = d # ds\<close> by simp
  qed
qed simp

lemma csv_lines:
  assumes "\<forall>l \<in> set ls. l \<noteq> []"
  shows "csv_loop rs [] [] False False (concat (map (\<lambda>l. join_with '','' (map csvEscape l) @ CRLF) ls)) = rs @ map (map csv_back) ls"
  using assms
proof (induction ls arbitrary: rs)
  case (Cons l ls)
  then show ?case using csv_line [of l rs "[]" "concat (map (\<lambda>l. join_with '','' (map csvEscape l) @ CRLF) ls)"] by simp
qed simp

lemma join_with_end: "xs \<noteq> [] \<Longrightarrow> join_with sep xs @ sep = concat (map (\<lambda>x. x @ sep) xs)"
  by (induction sep xs rule: join_with.induct) auto

text \<open>
  Exported tables read back.  Reading the CSV of an export with the program's own parser gives the columns and
  the rows again, for every content of the cells - commas, quotes, line breaks - except that \<open>NULL\<close> comes back as the
  empty text and the text \<open>\N\<close> as \<open>NULL\<close> (as the empty text in a header).
\<close>

theorem csv_roundtrip:
  assumes "cols \<noteq> []" and "\<forall>row \<in> set rs. row \<noteq> []"
  shows "parsePsqlCsv (toCsv cols rs) = \<lparr>rs_columns = map (or_empty \<circ> csv_back \<circ> Some) cols, rs_rows = map (map csv_back) rs\<rparr>"
proof -
  have "toCsv cols rs = concat (map (\<lambda>l. join_with '','' (map csvEscape l) @ CRLF) (map Some cols # rs))"
    unfolding toCsv_def by (subst join_with_end) (simp_all add: comp_def)
  then have "csv_loop [] [] [] False False (toCsv cols rs) = map csv_back (map Some cols) # map (map csv_back) rs"
    using csv_lines [of "map Some cols # rs" "[]"] assms by simp
  then show ?thesis by (simp add: parsePsqlCsv_def)
qed

theorem csv_roundtrip_witness:
  "parsePsqlCsv (toCsv [''id'', ''a,b''] [[Some (''x'' @ [DQ, CR, LF]), None]])
    = \<lparr>rs_columns = [''id'', ''a,b''], rs_rows = [[Some (''x'' @ [DQ, CR, LF]), Some []]]\<rparr>"
  by (subst csv_roundtrip) (simp_all add: csv_back_def or_empty_def PSQL_NULL_def)

section \<open>Arguments of a shell command\<close>

text \<open>
  A word as POSIX \<open>sh\<close> reads it: text in single quotes is literal, a backslash quotes the next character, and a
  blank ends the word; any other character that may mean something to the shell is refused here.
\<close>

definition sh_plain :: "char \<Rightarrow> bool" where
  "sh_plain c \<longleftrightarrow> is_alpha c \<or> is_digit c \<or> c \<in> set ''_-./:,@%+''"

fun read_word :: "bool \<Rightarrow> string \<Rightarrow> (string \<times> string) option" where
  "read_word inq [] = (if inq then None else Some ([], []))"
| "read_word inq (c # r) =
     (if inq then (if c = SQ then read_word False r else map_option (\<lambda>(w, z). (c # w, z)) (read_word True r))
      else if c = SQ then read_word True r
      else if c = CHR '' '' then Some ([], c # r)
      else if c = BSL \<and> r \<noteq> [] then map_option (\<lambda>(w, z). (hd r # w, z)) (read_word False (tl r))
      else if sh_plain c then map_option (\<lambda>(w, z). (c # w, z)) (read_word False r)
      else None)"

definition word_end :: "string \<Rightarrow> bool" where
  "word_end r \<longleftrightarrow> r = [] \<or> hd r = CHR '' ''"

lemma read_word_quoted:
  assumes "word_end r"
  shows "read_word True (concat (map (\<lambda>c. if c = SQ then [SQ, BSL, SQ, SQ] else [c]) s) @ SQ # r) = Some (s, r)"
proof (induction s)
  case Nil
  then show ?case using assms by (cases r) (auto simp: word_end_def)
qed auto

interpretation shell_word: quoted shellQuote "read_word False" word_end
  by unfold_locales (simp add: shellQuote_def read_word_quoted)

text \<open>
  No shell injection.  The arguments of a Redis command reach the client exactly as typed: read by the shell,
  the quoted argument list of the script is the list of arguments again, whatever quotes, blanks, dollar signs or
  line breaks they hold.
\<close>

theorem shell_arguments_verbatim:
  "args \<noteq> [] \<Longrightarrow> read_sep (read_word False) '' '' (length args) (join_with '' '' (map shellQuote args)) = Some (args, [])"
  using shell_word.read_joined [of args "'' ''" "[]" "length args"] by (simp add: word_end_def starts_with_def)

theorem shell_arguments_verbatim_witness:
  "read_sep (read_word False) '' '' 2 (join_with '' '' (map shellQuote [''GET'', [SQ] @ ''; reboot $(x)'']))
    = Some ([''GET'', [SQ] @ ''; reboot $(x)''], [])"
  using shell_arguments_verbatim [of "[''GET'', [SQ] @ ''; reboot $(x)'']"] by (simp add: numeral_2_eq_2)

section \<open>Sessions of members\<close>

text \<open>The container of one statement in a read-only session.\<close>

definition read_only_container :: "engine_io \<Rightarrow> managed_database \<Rightarrow> string option \<Rightarrow> string \<Rightarrow> helper_spec" where
  "read_only_container io db database st =
     helper_container io db (sql_script (engine db) True) ((''SQL='' @ st) # db_override database) []"

lemma sql_read_only_cong:
  "docker_run io (read_only_container io db database st) = docker_run io' (read_only_container io' db database st)
   \<Longrightarrow> sql io db st True database = sql io' db st True database"
  by (simp add: sql_def runInEngine_def read_only_container_def)

lemma sql_result_bounded: "length (q_rows (sql_result rs)) \<le> MAX_ROWS"
  by (simp add: sql_result_def Let_def)

lemma sql_plan_member:
  assumes "sql_plan db input role = Inr (st, ro)" and "role \<notin> set WRITE_ROLES"
  shows "ro" and "isReadStatement (normalizeSql input)" and "\<not> hasMultipleStatements (normalizeSql input)"
  using assms by (auto simp: sql_plan_def Let_def split: if_splits)

lemma sql_plan_trace:
  assumes "\<not> is_redis db" and "engine db \<noteq> Mongodb" and "runQuery io db input role database = Inr res"
  obtains st ro rs where "sql_plan db input role = Inr (st, ro)" and "sql io db st ro database = Inr rs" and "res = sql_result rs"
  using assms by (auto simp: runQuery_def)


text \<open>An engine that answers a writing session differently.\<close>

definition demo_writer :: engine_io where
  "demo_writer = demo_engine\<lparr>docker_run := (\<lambda>h. if h = read_only_container demo_engine demo_pg None (drop 4 (h_env h ! 5))
     then docker_run demo_engine h else Inl TypeErr)\<rparr>"


text \<open>
  The statements of a script as MySQL separates them: inside a string a backslash takes the next character with it.
\<close>

fun mysql_split :: "char option \<Rightarrow> string \<Rightarrow> string list" where
  "mysql_split q [] = [[]]"
| "mysql_split None (c # r) =
     (if c = CHR '';'' then [] # mysql_split None r
      else (case mysql_split (if c \<in> {SQ, DQ, TICK} then Some c else None) r of [] \<Rightarrow> [[c]] | l # ls \<Rightarrow> (c # l) # ls))"
| "mysql_split (Some q) (c # r) =
     (if c = BSL \<and> q \<noteq> TICK \<and> r \<noteq> [] then
        (case mysql_split (Some q) (tl r) of [] \<Rightarrow> [[c, hd r]] | l # ls \<Rightarrow> (c # hd r # l) # ls)
      else (case mysql_split (if c = q then None else Some q) r of [] \<Rightarrow> [[c]] | l # ls \<Rightarrow> (c # l) # ls))"

definition smuggled :: string where
  "smuggled = ''SELECT '' @ [SQ, BSL, SQ, SQ] @ '' LIMIT 1; SET SESSION TRANSACTION READ WRITE; DELETE FROM t''"

definition demo_mysql :: managed_database where
  "demo_mysql = demo_pg\<lparr>engine := Mysql\<rparr>"


text \<open>Comments are stripped inside string literals too: two dashes in a value cut the statement short.\<close>

lemma dashes_in_literal_cut: "normalizeSql (''SELECT '' @ [SQ] @ ''a--b'' @ [SQ]) = ''SELECT '' @ [SQ] @ ''a''"
  by code_simp

section \<open>Query history\<close>

definition history_wf :: "string \<Rightarrow> string \<Rightarrow> query_history_entry list \<Rightarrow> bool" where
  "history_wf did uid rs \<longleftrightarrow> distinct rs \<and> length (filter (history_of did uid) rs) \<le> QUERY_HISTORY_KEEP + 100"

lemma prune_history_remove_beyond:
  "history_wf did uid rs \<Longrightarrow> prune_history did uid rs = remove_beyond (history_of did uid) qh_createdAt QUERY_HISTORY_KEEP rs"
proof -
  assume "history_wf did uid rs"
  then have "take 100 (drop QUERY_HISTORY_KEEP (newest_by qh_createdAt (filter (history_of did uid) rs)))
    = drop QUERY_HISTORY_KEEP (newest_by qh_createdAt (filter (history_of did uid) rs))"
    by (intro take_all) (auto simp: history_wf_def)
  then show ?thesis by (simp only: prune_history_def remove_beyond_def Let_def)
qed

interpretation query_history: retention "history_wf did uid" "history_of did uid" qh_createdAt QUERY_HISTORY_KEEP "prune_history did uid"
  for did uid
proof
  fix rows :: "query_history_entry list"
  show "history_wf did uid rows \<Longrightarrow> distinct rows" by (simp add: history_wf_def)
  show sub: "set (prune_history did uid rows) \<subseteq> set rows" by (auto simp: prune_history_def Let_def)
  show "r \<in> set rows \<Longrightarrow> \<not> history_of did uid r \<Longrightarrow> r \<in> set (prune_history did uid rows)" for r
    by (auto simp: prune_history_def Let_def dest!: in_set_takeD in_set_dropD)
  show c: "length (filter (history_of did uid) (prune_history did uid rows)) = min QUERY_HISTORY_KEEP (length (filter (history_of did uid) rows))"
    if "history_wf did uid rows"
    using that beyond_laws(1) [of rows] prune_history_remove_beyond [OF that] by (simp add: history_wf_def)
  show "history_wf did uid (prune_history did uid rows)" if "history_wf did uid rows"
    using c [OF that] that by (simp add: history_wf_def prune_history_def Let_def)
  show "qh_createdAt y \<le> qh_createdAt x"
    if "history_wf did uid rows" "x \<in> set (prune_history did uid rows)" "history_of did uid x"
      "y \<in> set rows" "y \<notin> set (prune_history did uid rows)" for x y
    using that beyond_laws(2) [of rows x "history_of did uid" qh_createdAt QUERY_HISTORY_KEEP y]
    by (simp add: prune_history_remove_beyond history_wf_def)
qed

text \<open>In every state the history of each user and database stays within its limit, and recording touches nobody else's.\<close>

definition history_ok :: "query_history_entry list \<Rightarrow> bool" where
  "history_ok rs \<longleftrightarrow> distinct rs \<and> (\<forall>d u. length (filter (history_of d u) rs) \<le> QUERY_HISTORY_KEEP)"

lemma filter_other_pair:
  assumes "(d, u) \<noteq> (did, uid)"
  shows "filter (history_of d u) (prune_history did uid rs) = filter (history_of d u) rs"
proof -
  have "r \<notin> set (take 100 (drop n (newest_by qh_createdAt (filter (history_of did uid) rs))))" if "history_of d u r" for r n
    using assms that by (auto simp: history_of_def dest!: in_set_takeD in_set_dropD)
  then show ?thesis by (auto simp: prune_history_def Let_def intro: filter_cong)
qed

lemma record_query_ok:
  assumes ok: "history_ok rs" and new: "qh_id input \<notin> qh_id ` set rs"
  shows "history_ok (record_query input rs)"
proof -
  let ?d = "qh_databaseId input" and ?u = "qh_userId input"
  define row where "row = input\<lparr>qh_sql := take SQL_MAX_LENGTH (qh_sql input),
                      qh_errorMessage := map_option (take ERROR_MAX_LENGTH) (qh_errorMessage input)\<rparr>"
  have row: "history_of d u row \<longleftrightarrow> d = ?d \<and> u = ?u" for d u by (auto simp: row_def history_of_def)
  have "qh_id row = qh_id input" by (simp add: row_def)
  then have "row \<notin> set rs" using new by (metis image_eqI)
  then have dist: "distinct (rs @ [row])" using ok by (simp add: history_ok_def)
  have few: "length (filter (history_of ?d ?u) rs) \<le> QUERY_HISTORY_KEEP" using ok by (simp add: history_ok_def)
  then have wf: "history_wf ?d ?u (rs @ [row])" using dist by (simp add: history_wf_def)
  have eq: "record_query input rs = prune_history ?d ?u (rs @ [row])" by (simp add: record_query_def row_def)
  have "distinct (record_query input rs)" using dist by (simp add: eq prune_history_def Let_def)
  moreover have "length (filter (history_of d u) (record_query input rs)) \<le> QUERY_HISTORY_KEEP" for d u
  proof (cases "(d, u) = (?d, ?u)")
    case True
    then show ?thesis using query_history.bounded [OF wf] by (simp add: eq)
  next
    case False
    then show ?thesis using ok filter_other_pair [OF False, of "rs @ [row]"] row [of d u] by (auto simp: eq history_ok_def)
  qed
  ultimately show ?thesis by (simp add: history_ok_def)
qed

end
