(* ===== verification/Image_Versions.thy ===== *)
theory Image_Versions
  imports Set_Names "HOL-Library.List_Lexorder" "HOL-Library.Char_ord"
begin

text \<open>
  Versions and references of images: \<open>src/modules/registry/semver.ts\<close> and
  \<open>src/modules/application/image-reference.ts\<close>.

  The three numbers of a version are naturals; the source reads them with \<open>Number\<close>, which is exact below
  \<open>2 ^ 53\<close>.  Strings are compared by code units, as \<open><\<close> on strings does.
\<close>

section \<open>Semantic versions\<close>

record semver =
  major :: nat
  minor :: nat
  patch :: nat
  prerelease :: "string list"

definition is_numeric :: "string \<Rightarrow> bool" where
  "is_numeric i \<longleftrightarrow> i \<noteq> [] \<and> list_all is_digit i"

text \<open>\<open>0|[1-9]\d*\<close>.\<close>

definition number_id :: "string \<Rightarrow> bool" where
  "number_id i \<longleftrightarrow> is_numeric i \<and> (i = ''0'' \<or> hd i \<noteq> CHR ''0'')"

definition id_char :: "char \<Rightarrow> bool" where
  "id_char c \<longleftrightarrow> is_digit c \<or> is_alpha c \<or> c = CHR ''-''"

text \<open>\<open>0|[1-9]\d*|\d*[A-Za-z-][0-9A-Za-z-]*\<close>.\<close>

definition prerelease_id :: "string \<Rightarrow> bool" where
  "prerelease_id i \<longleftrightarrow> number_id i \<or> (list_all id_char i \<and> list_ex (\<lambda>c. \<not> is_digit c) i)"

text \<open>\<open>[0-9A-Za-z-]+\<close>.\<close>

definition build_id :: "string \<Rightarrow> bool" where
  "build_id i \<longleftrightarrow> i \<noteq> [] \<and> list_all id_char i"

text \<open>The digits at the front, and the rest.\<close>

definition digits :: "string \<Rightarrow> string \<times> string" where
  "digits s = (takeWhile is_digit s, dropWhile is_digit s)"

text \<open>
  The part after the patch number: \<open>(?:-(...))?(?:\+...)?$\<close>.  Neither group can hold a plus sign in its first part,
  so the build metadata begins at the first one.
\<close>

definition parse_suffix :: "string \<Rightarrow> string list option" where
  "parse_suffix s =
     (let p = takeWhile (\<lambda>c. c \<noteq> CHR ''+'') s; b = dropWhile (\<lambda>c. c \<noteq> CHR ''+'') s;
          build_ok = (b = [] \<or> list_all build_id (split_on (CHR ''.'') (tl b)));
          ids = split_on (CHR ''.'') (tl p)
      in if \<not> build_ok then None
         else if p = [] then Some []
         else if hd p = CHR ''-'' \<and> list_all prerelease_id ids then Some ids
         else None)"

definition drop_v :: "string \<Rightarrow> string" where
  "drop_v s = (case s of [] \<Rightarrow> [] | c # r \<Rightarrow> if c = CHR ''v'' then r else s)"

definition parseSemver :: "string \<Rightarrow> semver option" where
  "parseSemver input =
     (let (a, r1) = digits (drop_v (trim input)); (b, r2) = digits (tl r1); (c, r3) = digits (tl r2) in
      if number_id a \<and> r1 \<noteq> [] \<and> hd r1 = CHR ''.'' \<and> number_id b \<and> r2 \<noteq> [] \<and> hd r2 = CHR ''.'' \<and> number_id c
      then map_option (\<lambda>pre. \<lparr>major = str_val a, minor = str_val b, patch = str_val c, prerelease = pre\<rparr>) (parse_suffix r3)
      else None)"

definition compareIdentifiers :: "string \<Rightarrow> string \<Rightarrow> int" where
  "compareIdentifiers a b =
     (let an = is_numeric a; bn = is_numeric b; lex = (if a < b then -1 else if b < a then 1 else 0) in
      if an \<and> bn then (if length a \<noteq> length b then (if length a < length b then -1 else 1) else lex)
      else if an then -1
      else if bn then 1
      else lex)"

text \<open>The loop over the shared identifiers, then the lengths.\<close>

fun compare_pre :: "string list \<Rightarrow> string list \<Rightarrow> int" where
  "compare_pre (a # as) (b # bs) = (let c = compareIdentifiers a b in if c \<noteq> 0 then c else compare_pre as bs)"
| "compare_pre as bs = int (length as) - int (length bs)"

definition compareSemver :: "semver \<Rightarrow> semver \<Rightarrow> int" where
  "compareSemver a b =
     (if major a \<noteq> major b then (if major a < major b then -1 else 1)
      else if minor a \<noteq> minor b then (if minor a < minor b then -1 else 1)
      else if patch a \<noteq> patch b then (if patch a < patch b then -1 else 1)
      else if prerelease a = [] \<and> prerelease b = [] then 0
      else if prerelease a = [] then 1
      else if prerelease b = [] then -1
      else compare_pre (prerelease a) (prerelease b))"

text \<open>\<open>if (!best || compareSemver(v, best.v) > 0) best = { tag, v }\<close>, for any comparison.\<close>

definition better :: "('v \<Rightarrow> 'v \<Rightarrow> int) \<Rightarrow> ('t \<times> 'v) option \<Rightarrow> 't \<times> 'v \<Rightarrow> ('t \<times> 'v) option" where
  "better cmp best tv = (case best of
       None \<Rightarrow> Some tv
     | Some (t, v) \<Rightarrow> if 0 < cmp (snd tv) v then Some tv else best)"

definition newest_step :: "bool \<Rightarrow> (string \<times> semver) option \<Rightarrow> string \<Rightarrow> (string \<times> semver) option" where
  "newest_step allowPrerelease best tag =
     (case parseSemver tag of
        None \<Rightarrow> best
      | Some v \<Rightarrow> if prerelease v \<noteq> [] \<and> \<not> allowPrerelease then best else better compareSemver best (tag, v))"

definition newestVersion :: "string list \<Rightarrow> string \<Rightarrow> string option" where
  "newestVersion tags current =
     (let cur = parseSemver current; allowPrerelease = (case cur of None \<Rightarrow> True | Some c \<Rightarrow> prerelease c \<noteq> [])
      in map_option fst (foldl (newest_step allowPrerelease) None tags))"

definition isNewer :: "string \<Rightarrow> string \<Rightarrow> bool" where
  "isNewer latest current =
     (case (parseSemver latest, parseSemver current) of (Some l, Some c) \<Rightarrow> 0 < compareSemver l c | _ \<Rightarrow> False)"

definition CHANNEL_LABELS :: "string list" where
  "CHANNEL_LABELS = [''alpha'', ''beta'', ''rc'', ''pre'', ''preview'', ''dev'', ''canary'', ''next'', ''nightly'', ''snapshot'', ''a'', ''b'']"

definition CHANNEL_LABEL :: "string \<Rightarrow> bool" where
  "CHANNEL_LABEL i \<longleftrightarrow> list_ex (\<lambda>l. starts_with l (toLowerCase i) \<and> list_all is_digit (drop (length l) i)) CHANNEL_LABELS"

definition isVariantSuffix :: "semver \<Rightarrow> bool" where
  "isVariantSuffix v \<longleftrightarrow> prerelease v \<noteq> [] \<and> \<not> CHANNEL_LABEL (hd (prerelease v))"

text \<open>\<open>v.prerelease.join('.')\<close>.\<close>

fun join_dots :: "string list \<Rightarrow> string" where
  "join_dots [] = []"
| "join_dots [x] = x"
| "join_dots (x # xs) = x @ ''.'' @ join_dots xs"

definition variant_of :: "semver \<Rightarrow> string option" where
  "variant_of v = (if isVariantSuffix v then Some (join_dots (prerelease v)) else None)"

definition has_v :: "string \<Rightarrow> bool" where
  "has_v s \<longleftrightarrow> starts_with ''v'' (trim s)"

text \<open>The checks of the loop that end in \<open>continue\<close>.\<close>

definition tag_eligible :: "semver \<Rightarrow> string \<Rightarrow> bool \<Rightarrow> string \<Rightarrow> semver \<Rightarrow> bool" where
  "tag_eligible cur current compatibleOnly tag v \<longleftrightarrow>
     has_v tag = has_v current \<and>
     variant_of v = variant_of cur \<and>
     \<not> (variant_of v = None \<and> prerelease v \<noteq> [] \<and> prerelease cur = []) \<and>
     \<not> compareSemver v cur \<le> 0 \<and>
     (compatibleOnly \<longrightarrow> major v = major cur \<and> \<not> (major cur = 0 \<and> minor v \<noteq> minor cur))"

definition newer_step :: "semver \<Rightarrow> string \<Rightarrow> bool \<Rightarrow> (string \<times> semver) option \<Rightarrow> string \<Rightarrow> (string \<times> semver) option" where
  "newer_step cur current compatibleOnly best tag =
     (case parseSemver tag of
        None \<Rightarrow> best
      | Some v \<Rightarrow> if \<not> tag_eligible cur current compatibleOnly tag v then best else better compareSemver best (tag, v))"

definition newerImageTag :: "string list \<Rightarrow> string \<Rightarrow> bool \<Rightarrow> string option" where
  "newerImageTag tags current compatibleOnly =
     (case parseSemver current of
        None \<Rightarrow> None
      | Some cur \<Rightarrow> map_option fst (foldl (newer_step cur current compatibleOnly) None tags))"

section \<open>Image references\<close>

record image_reference =
  registry :: string
  repository :: string
  ref_tag :: string
  digest :: "string option"

definition DOCKER_HUB :: string where "DOCKER_HUB = ''registry-1.docker.io''"

text \<open>\<open>s.lastIndexOf(c)\<close>, one more than it, so that 0 stands for \<open>-1\<close>.\<close>

fun last_index :: "char \<Rightarrow> string \<Rightarrow> nat" where
  "last_index c [] = 0"
| "last_index c (d # s) = (let i = last_index c s in if i \<noteq> 0 then Suc i else if d = c then 1 else 0)"

text \<open>\<open>const at = rest.indexOf('@')\<close> and the two slices.\<close>

definition cut_digest :: "string \<Rightarrow> string \<times> string option" where
  "cut_digest rest = (case index_of (CHR ''@'') rest of
       Some at \<Rightarrow> (take at rest, Some (drop (at + 1) rest))
     | None \<Rightarrow> (rest, None))"

text \<open>The tag: what follows the last colon when no slash follows it.\<close>

definition cut_tag :: "string \<Rightarrow> string \<times> string option" where
  "cut_tag path =
     (let colon = last_index (CHR '':'') path in
      if last_index (CHR ''/'') path < colon then (take (colon - 1) path, Some (drop colon path)) else (path, None))"

definition parseImageRef :: "string \<Rightarrow> image_reference" where
  "parseImageRef ref =
     (let (rest, dig) = cut_digest (trim ref);
          first = (case index_of (CHR ''/'') rest of Some i \<Rightarrow> take i rest | None \<Rightarrow> []);
          named = (case index_of (CHR ''/'') rest of Some i \<Rightarrow>
              CHR ''.'' \<in> set first \<or> CHR '':'' \<in> set first \<or> first = ''localhost'' | None \<Rightarrow> False);
          reg0 = (if named then first else DOCKER_HUB);
          path0 = (if named then drop (length first + 1) rest else rest);
          reg = (if reg0 = ''docker.io'' \<or> reg0 = ''index.docker.io'' then DOCKER_HUB else reg0);
          (path, tag) = cut_tag path0;
          tag' = (case tag of None \<Rightarrow> ''latest'' | Some t \<Rightarrow> t);
          path' = (if reg = DOCKER_HUB \<and> CHR ''/'' \<notin> set path then ''library/'' @ path else path)
      in \<lparr>registry = reg, repository = path', ref_tag = tag', digest = dig\<rparr>)"

definition withTag :: "string \<Rightarrow> string \<Rightarrow> string" where
  "withTag ref tag = fst (cut_tag (fst (cut_digest (trim ref)))) @ '':'' @ tag"

end
