(* ===== verification/Image_Version_Laws.thy ===== *)
theory Image_Version_Laws
  imports Image_Versions "HOL-Library.Product_Lexorder"
begin

text \<open>
  Precedence of versions and the choice of a tag.  The comparison is a linear order that agrees with the precedence of
  semver.org, and the loops that look for the newest tag return a maximum of the tags they admit.
\<close>

section \<open>Choosing a maximum\<close>

lemma better_simps [simp]:
  "better cmp None tv = Some tv"
  "better cmp (Some (t, v)) tv = (if 0 < cmp (snd tv) v then Some tv else Some (t, v))"
  by (simp_all add: better_def)

text \<open>What the loops rely on: the sign of the comparison is a total preorder.\<close>

locale precedence =
  fixes cmp :: "'v \<Rightarrow> 'v \<Rightarrow> int"
  assumes swap: "cmp a b < 0 \<longleftrightarrow> 0 < cmp b a"
    and trans: "cmp a b \<le> 0 \<Longrightarrow> cmp b c \<le> 0 \<Longrightarrow> cmp a c \<le> 0"
begin

lemma same: "cmp a a = 0"
  using swap [of a a] by linarith

lemma above: "\<not> 0 < cmp a b \<Longrightarrow> cmp a b \<le> 0"
  by linarith

lemma fold_from:
  assumes "foldl (better cmp) (Some (t0, v0)) tvs = b"
  shows "\<exists>t v. b = Some (t, v) \<and> (t, v) \<in> set ((t0, v0) # tvs) \<and> (\<forall>(t', v') \<in> set ((t0, v0) # tvs). cmp v' v \<le> 0)"
  using assms
proof (induction tvs arbitrary: t0 v0)
  case Nil
  then show ?case by (auto simp: same)
next
  case (Cons x tvs)
  obtain t1 v1 where x: "x = (t1, v1)" by (cases x)
  show ?case
  proof (cases "0 < cmp v1 v0")
    case True
    then have "foldl (better cmp) (Some (t1, v1)) tvs = b" using Cons.prems by (simp add: x)
    from Cons.IH [OF this] obtain t v where b: "b = Some (t, v)" "(t, v) \<in> set ((t1, v1) # tvs)"
      "\<forall>(t', v') \<in> set ((t1, v1) # tvs). cmp v' v \<le> 0" by blast
    have "cmp v0 v1 \<le> 0" using swap [of v0 v1] True by simp
    then have "cmp v0 v \<le> 0" using trans b(3) by force
    then show ?thesis using b x by auto
  next
    case False
    then have "foldl (better cmp) (Some (t0, v0)) tvs = b" using Cons.prems by (simp add: x)
    from Cons.IH [OF this] obtain t v where b: "b = Some (t, v)" "(t, v) \<in> set ((t0, v0) # tvs)"
      "\<forall>(t', v') \<in> set ((t0, v0) # tvs). cmp v' v \<le> 0" by blast
    have "cmp v1 v \<le> 0" using trans [OF above [OF False]] b(3) by force
    then show ?thesis using b x by auto
  qed
qed

lemma fold_best:
  "foldl (better cmp) None tvs = Some (t, v) \<Longrightarrow> (t, v) \<in> set tvs \<and> (\<forall>(t', v') \<in> set tvs. cmp v' v \<le> 0)"
  by (cases tvs) (auto dest!: fold_from)

lemma fold_None: "foldl (better cmp) None tvs = None \<longleftrightarrow> tvs = []"
proof (cases tvs)
  case (Cons x xs)
  then show ?thesis using fold_from [of "fst x" "snd x" xs, OF refl] by auto
qed simp

end

section \<open>The comparison as an order\<close>

text \<open>The sort key of an identifier as the code compares it, and as semver.org does (numbers by their value).\<close>

definition id_key :: "string \<Rightarrow> nat \<times> nat \<times> string" where
  "id_key i = (if is_numeric i then (0, length i, i) else (1, 0, i))"

definition spec_id :: "string \<Rightarrow> nat \<times> nat \<times> string" where
  "spec_id i = (if is_numeric i then (0, str_val i, []) else (1, 0, i))"

text \<open>A release outranks its pre-releases; a longer list of identifiers outranks its prefix.\<close>

definition semver_key :: "(string \<Rightarrow> 'k) \<Rightarrow> semver \<Rightarrow> nat \<times> nat \<times> nat \<times> bool \<times> 'k list" where
  "semver_key k v = (major v, minor v, patch v, prerelease v = [], map k (prerelease v))"

lemma id_key_inj: "id_key a = id_key b \<longleftrightarrow> a = b"
  by (auto simp: id_key_def split: if_splits)

lemma compareIdentifiers_key:
  "compareIdentifiers a b < 0 \<longleftrightarrow> id_key a < id_key b" "compareIdentifiers a b = 0 \<longleftrightarrow> a = b"
  by (auto simp: compareIdentifiers_def id_key_def Let_def less_prod_simp)

lemma Nil_less_map [simp]: "[] < map f xs \<longleftrightarrow> xs \<noteq> []"
  by (cases xs) simp_all

lemma compare_pre_key:
  "(compare_pre as bs < 0 \<longleftrightarrow> map id_key as < map id_key bs) \<and> (compare_pre as bs = 0 \<longleftrightarrow> as = bs)"
proof (induction as bs rule: compare_pre.induct)
  case (1 a as b bs)
  then show ?case using compareIdentifiers_key [of a b] by (auto simp: Let_def id_key_inj)
qed auto

lemma compareSemver_key:
  "compareSemver a b < 0 \<longleftrightarrow> semver_key id_key a < semver_key id_key b"
  by (auto simp: compareSemver_def semver_key_def compare_pre_key less_prod_simp)

lemma compareSemver_zero: "compareSemver a b = 0 \<longleftrightarrow> a = b"
  by (cases a; cases b) (auto simp: compareSemver_def compare_pre_key)

interpretation semver_order: precedence compareSemver
proof
  fix a b c
  have z: "compareSemver x y = 0 \<longleftrightarrow> semver_key id_key x = semver_key id_key y" for x y
    using compareSemver_key [of x y] compareSemver_key [of y x]
    by (cases x; cases y) (auto simp: compareSemver_zero semver_key_def id_key_inj inj_map_eq_map inj_on_def)
  have le: "compareSemver x y \<le> 0 \<longleftrightarrow> semver_key id_key x \<le> semver_key id_key y" for x y
    using compareSemver_key [of x y] z [of x y] by (simp add: order_le_less le_less)
  show "compareSemver a b \<le> 0 \<Longrightarrow> compareSemver b c \<le> 0 \<Longrightarrow> compareSemver a c \<le> 0" by (simp add: le)
  have "0 < compareSemver b a \<longleftrightarrow> \<not> semver_key id_key b \<le> semver_key id_key a" using le [of b a] by linarith
  then show "compareSemver a b < 0 \<longleftrightarrow> 0 < compareSemver b a" by (simp add: compareSemver_key not_le)
qed

section \<open>Numeric identifiers\<close>

lemma foldl_digits: "foldl (\<lambda>a c. a * 10 + (of_char c - 48)) n s = n * 10 ^ length s + (str_val s :: nat)"
proof (induction s arbitrary: n)
  case (Cons c s)
  have "foldl (\<lambda>a c. a * 10 + (of_char c - 48)) n (c # s) = (n * 10 + (of_char c - 48)) * 10 ^ length s + str_val s"
    using Cons [of "n * 10 + (of_char c - 48)"] by simp
  moreover have "str_val (c # s) = (of_char c - 48) * 10 ^ length s + str_val s"
    using Cons [of "of_char c - 48"] by (simp add: str_val_def)
  ultimately show ?case by (simp only: add_mult_distrib add_mult_distrib2 length_Cons power_Suc ac_simps)
qed (simp add: str_val_def)

lemma str_val_Cons: "str_val (c # s) = (of_char c - 48) * 10 ^ length s + str_val s"
  using foldl_digits [of "of_char c - 48" s] by (simp add: str_val_def)

lemma str_val_bound: "list_all is_digit s \<Longrightarrow> str_val s < 10 ^ length s"
proof (induction s)
  case (Cons c s)
  then have "of_char c - 48 \<le> (9 :: nat)" "str_val s < 10 ^ length s" by (auto simp: is_digit_def)
  then have "(of_char c - 48) * 10 ^ length s + str_val s < 9 * (10 ^ length s :: nat) + 10 ^ length s"
    by (intro add_le_less_mono mult_right_mono) simp_all
  then show ?case by (simp only: str_val_Cons length_Cons power_Suc)
qed (simp add: str_val_def)

text \<open>Digit strings of the same length: the code units compare as the numbers do.\<close>

lemma str_val_lex:
  "list_all is_digit a \<Longrightarrow> list_all is_digit b \<Longrightarrow> length a = length b \<Longrightarrow> a < b \<longleftrightarrow> str_val a < str_val b"
proof (induction a b rule: list_induct2')
  case (4 c a d b)
  let ?x = "of_char c - 48 :: nat" and ?y = "of_char d - 48 :: nat" and ?p = "10 ^ length a :: nat"
  have len: "length a = length b" and dig: "list_all is_digit a" "list_all is_digit b" using "4.prems" by auto
  have va: "str_val a < ?p" and vb: "str_val b < ?p" using str_val_bound dig len by metis+
  have cd: "c < d \<longleftrightarrow> ?x < ?y" "c = d \<longleftrightarrow> ?x = ?y" using "4.prems"
    by (auto simp: less_char_def is_digit_def) (metis of_char_eq_iff le_antisym eq_diff_iff)+
  have "?x * ?p + str_val a < ?y * ?p + str_val b" if "?x < ?y"
  proof -
    have "?x * ?p + str_val a < (?x + 1) * ?p" using va by (simp add: algebra_simps)
    also have "\<dots> \<le> ?y * ?p" using that by (intro mult_right_mono) simp_all
    finally show ?thesis by simp
  qed
  moreover have "\<not> ?x * ?p + str_val a < ?y * ?p + str_val b" if "?y < ?x"
  proof -
    have "?y * ?p + str_val b < (?y + 1) * ?p" using vb by (simp add: algebra_simps)
    also have "\<dots> \<le> ?x * ?p" using that by (intro mult_right_mono) simp_all
    finally show ?thesis by simp
  qed
  ultimately show ?case using "4.IH" [OF dig len] len cd by (auto simp: str_val_Cons)
qed auto

lemma str_val_digits: "number_id i \<Longrightarrow> i \<noteq> ''0'' \<Longrightarrow> 10 ^ (length i - 1) \<le> str_val i"
proof (cases i)
  case (Cons c s)
  assume "number_id i" and "i \<noteq> ''0''"
  then have "is_digit c" "c \<noteq> CHR ''0''" by (auto simp: number_id_def is_numeric_def Cons)
  moreover have "of_char c = (48 :: nat) \<longleftrightarrow> c = CHR ''0''" using of_char_eq_iff [of c "CHR ''0''", where 'a = nat] by simp
  ultimately have "1 \<le> (of_char c - 48 :: nat)" by (auto simp: is_digit_def)
  then have "1 * 10 ^ length s \<le> (of_char c - 48) * (10 ^ length s :: nat)" by (intro mult_right_mono) simp_all
  then have "10 ^ length s \<le> (of_char c - 48) * 10 ^ length s + str_val s" by linarith
  then show ?thesis by (simp only: Cons str_val_Cons length_Cons diff_Suc_1)
qed (simp add: number_id_def is_numeric_def)

lemma number_id_less:
  assumes "number_id a" and "number_id b"
  shows "(length a, a) < (length b, b) \<longleftrightarrow> str_val a < str_val b"
proof -
  have shorter: "str_val x < str_val y" if "number_id x" "number_id y" "length x < length y" for x y
  proof -
    have "x \<noteq> []" "list_all is_digit x" using that(1) by (auto simp: number_id_def is_numeric_def)
    then have "y \<noteq> ''0''" using that(3) by (auto simp: length_Suc_conv)
    have "str_val x < 10 ^ length x" using \<open>list_all is_digit x\<close> by (rule str_val_bound)
    also have "\<dots> \<le> 10 ^ (length y - 1)" using that(3) by (intro power_increasing) simp_all
    also have "\<dots> \<le> str_val y" using str_val_digits [OF that(2) \<open>y \<noteq> ''0''\<close>] .
    finally show ?thesis .
  qed
  consider "length a < length b" | "length b < length a" | "length a = length b" by linarith
  then show ?thesis
  proof cases
    case 1
    then show ?thesis using shorter [OF assms 1] by (simp add: less_prod_simp)
  next
    case 2
    then show ?thesis using shorter [OF assms(2,1) 2] by (simp add: less_prod_simp)
  next
    case 3
    then show ?thesis using str_val_lex [of a b] assms by (simp add: less_prod_simp number_id_def is_numeric_def)
  qed
qed

section \<open>The precedence of semver.org\<close>

definition canonical :: "semver \<Rightarrow> bool" where
  "canonical v \<longleftrightarrow> list_all prerelease_id (prerelease v)"

lemma parseSemver_canonical: "parseSemver s = Some v \<Longrightarrow> canonical v"
  by (auto simp: parseSemver_def parse_suffix_def canonical_def Let_def split: if_splits prod.splits)

lemma spec_id_less:
  assumes "prerelease_id a" and "prerelease_id b"
  shows "id_key a < id_key b \<longleftrightarrow> spec_id a < spec_id b" and "spec_id a = spec_id b \<longleftrightarrow> a = b"
proof -
  have num: "number_id i \<longleftrightarrow> is_numeric i" if "prerelease_id i" for i
    using that by (auto simp: prerelease_id_def number_id_def is_numeric_def list_ex_iff list_all_iff)
  note ids = num [OF assms(1)] num [OF assms(2)]
  show lt: "id_key a < id_key b \<longleftrightarrow> spec_id a < spec_id b"
    using number_id_less [of a b] ids by (auto simp: id_key_def spec_id_def less_prod_simp)
  show "spec_id a = spec_id b \<longleftrightarrow> a = b"
  proof
    assume eq: "spec_id a = spec_id b"
    then have "\<not> (length a, a) < (length b, b)" "\<not> (length b, b) < (length a, a)" if "is_numeric a"
      using that number_id_less [of a b] number_id_less [of b a] ids by (auto simp: spec_id_def split: if_splits)
    then show "a = b" using eq by (cases "is_numeric a") (auto simp: spec_id_def not_less_iff_gr_or_eq split: if_splits)
  qed simp
qed

lemma spec_ids_less:
  "list_all prerelease_id as \<Longrightarrow> list_all prerelease_id bs \<Longrightarrow> map id_key as < map id_key bs \<longleftrightarrow> map spec_id as < map spec_id bs"
  by (induction as bs rule: list_induct2') (auto simp: spec_id_less id_key_inj)



section \<open>The tag that is offered\<close>

text \<open>The pairs of tag and version a loop admits, in order.\<close>

definition admitted :: "(string \<Rightarrow> semver \<Rightarrow> bool) \<Rightarrow> string list \<Rightarrow> (string \<times> semver) list" where
  "admitted P tags = concat (map (\<lambda>t. case parseSemver t of None \<Rightarrow> [] | Some v \<Rightarrow> if P t v then [(t, v)] else []) tags)"

lemma in_admitted: "(t, v) \<in> set (admitted P tags) \<longleftrightarrow> t \<in> set tags \<and> parseSemver t = Some v \<and> P t v"
  by (auto simp: admitted_def split: option.splits)

lemma foldl_newer: "foldl (newer_step cur current co) b tags = foldl (better compareSemver) b (admitted (tag_eligible cur current co) tags)"
  by (induction tags arbitrary: b) (auto simp: admitted_def newer_step_def split: option.split)

lemma foldl_newest: "foldl (newest_step pre) b tags = foldl (better compareSemver) b (admitted (\<lambda>t v. prerelease v = [] \<or> pre) tags)"
  by (induction tags arbitrary: b) (auto simp: admitted_def newest_step_def split: option.split)

lemma admitted_best:
  assumes "foldl (better compareSemver) None (admitted P tags) = Some (t, v)"
  shows "t \<in> set tags" and "parseSemver t = Some v" and "P t v"
    and "\<And>t' v'. t' \<in> set tags \<Longrightarrow> parseSemver t' = Some v' \<Longrightarrow> P t' v' \<Longrightarrow> compareSemver v' v \<le> 0"
proof -
  have "(t, v) \<in> set (admitted P tags)" and max: "\<forall>(t', v') \<in> set (admitted P tags). compareSemver v' v \<le> 0"
    using semver_order.fold_best [OF assms] by blast+
  then show "t \<in> set tags" "parseSemver t = Some v" "P t v" by (auto simp: in_admitted)
  fix t' v' assume "t' \<in> set tags" "parseSemver t' = Some v'" "P t' v'"
  then have "(t', v') \<in> set (admitted P tags)" by (simp add: in_admitted)
  then show "compareSemver v' v \<le> 0" using max by blast
qed

lemma newerImageTag_SomeD:
  assumes "newerImageTag tags current co = Some t"
  obtains cur v where "parseSemver current = Some cur" and "parseSemver t = Some v" and "t \<in> set tags"
    and "tag_eligible cur current co t v"
    and "\<And>t' v'. t' \<in> set tags \<Longrightarrow> parseSemver t' = Some v' \<Longrightarrow> tag_eligible cur current co t' v' \<Longrightarrow> compareSemver v' v \<le> 0"
proof -
  obtain cur where cur: "parseSemver current = Some cur" using assms by (cases "parseSemver current") (auto simp: newerImageTag_def)
  then obtain v where "foldl (better compareSemver) None (admitted (tag_eligible cur current co) tags) = Some (t, v)"
    using assms by (auto simp: newerImageTag_def foldl_newer)
  from admitted_best [OF this] show ?thesis using that [OF cur] by blast
qed

lemma newerImageTag_None:
  assumes "newerImageTag tags current co = None" and "parseSemver current = Some cur"
    and "t \<in> set tags" and "parseSemver t = Some v"
  shows "\<not> tag_eligible cur current co t v"
proof -
  have "admitted (tag_eligible cur current co) tags = []" using assms(1,2)
    by (simp add: newerImageTag_def foldl_newer semver_order.fold_None)
  then show ?thesis using in_admitted [of t v "tag_eligible cur current co" tags] assms(3,4) by auto
qed

lemma newestVersion_max:
  assumes "newestVersion tags current = Some t"
  obtains v where "t \<in> set tags" and "parseSemver t = Some v"
    and "\<And>cur. parseSemver current = Some cur \<Longrightarrow> prerelease cur = [] \<Longrightarrow> prerelease v = []"
    and "\<And>t' v'. t' \<in> set tags \<Longrightarrow> parseSemver t' = Some v' \<Longrightarrow> prerelease v' = [] \<Longrightarrow> compareSemver v' v \<le> 0"
proof -
  define pre where "pre \<longleftrightarrow> (case parseSemver current of None \<Rightarrow> True | Some c \<Rightarrow> prerelease c \<noteq> [])"
  have "\<exists>v. foldl (better compareSemver) None (admitted (\<lambda>t v. prerelease v = [] \<or> pre) tags) = Some (t, v)"
    using assms by (auto simp: newestVersion_def foldl_newest pre_def)
  then obtain v where "foldl (better compareSemver) None (admitted (\<lambda>t v. prerelease v = [] \<or> pre) tags) = Some (t, v)" ..
  note best = admitted_best [OF this]
  show ?thesis
  proof (rule that [OF best(1,2)])
    show "parseSemver current = Some cur \<Longrightarrow> prerelease cur = [] \<Longrightarrow> prerelease v = []" for cur
      using best(3) by (simp add: pre_def)
    show "t' \<in> set tags \<Longrightarrow> parseSemver t' = Some v' \<Longrightarrow> prerelease v' = [] \<Longrightarrow> compareSemver v' v \<le> 0" for t' v'
      using best(4) by blast
  qed
qed

text \<open>
  The version offered for a deployed image.  \<open>newerImageTag\<close> answers with a tag exactly when the repository has a
  tag that is strictly newer, spelled with or without a leading \<open>v\<close> like the current one, of the same variant
  (\<open>-alpine\<close>), not a pre-release of a stable installation and - when asked for - on the same compatible line; the
  answer is such a tag, and no other such tag is newer.
\<close>

theorem newerImageTag_spec:
  assumes "parseSemver current = Some cur"
  shows "case newerImageTag tags current co of
      Some t \<Rightarrow> (\<exists>v. t \<in> set tags \<and> parseSemver t = Some v \<and> 0 < compareSemver v cur \<and>
        has_v t = has_v current \<and> variant_of v = variant_of cur \<and>
        (prerelease cur = [] \<longrightarrow> prerelease v = []) \<and>
        (co \<longrightarrow> major v = major cur \<and> (major cur = 0 \<longrightarrow> minor v = minor cur)) \<and>
        (\<forall>t' \<in> set tags. \<forall>v'. parseSemver t' = Some v' \<longrightarrow> tag_eligible cur current co t' v' \<longrightarrow> compareSemver v' v \<le> 0))
    | None \<Rightarrow> (\<forall>t \<in> set tags. \<forall>v. parseSemver t = Some v \<longrightarrow> \<not> tag_eligible cur current co t v)"
proof (cases "newerImageTag tags current co")
  case None
  then show ?thesis using newerImageTag_None [OF None assms] by auto
next
  case (Some t)
  have pre: "prerelease v = []" if "prerelease cur = []" "tag_eligible cur current co t v" for v
    using that by (auto simp: tag_eligible_def variant_of_def isVariantSuffix_def split: if_splits)
  obtain v where v: "parseSemver t = Some v" "t \<in> set tags" "tag_eligible cur current co t v"
    and max: "\<And>t' v'. t' \<in> set tags \<Longrightarrow> parseSemver t' = Some v' \<Longrightarrow> tag_eligible cur current co t' v' \<Longrightarrow> compareSemver v' v \<le> 0"
    using newerImageTag_SomeD [OF Some] assms by (metis option.inject)
  have "0 < compareSemver v cur" "has_v t = has_v current" "variant_of v = variant_of cur"
    "co \<longrightarrow> major v = major cur \<and> (major cur = 0 \<longrightarrow> minor v = minor cur)"
    using v(3) by (auto simp: tag_eligible_def not_le)
  then have "t \<in> set tags \<and> parseSemver t = Some v \<and> 0 < compareSemver v cur \<and> has_v t = has_v current \<and>
      variant_of v = variant_of cur \<and> (prerelease cur = [] \<longrightarrow> prerelease v = []) \<and>
      (co \<longrightarrow> major v = major cur \<and> (major cur = 0 \<longrightarrow> minor v = minor cur)) \<and>
      (\<forall>t' \<in> set tags. \<forall>v'. parseSemver t' = Some v' \<longrightarrow> tag_eligible cur current co t' v' \<longrightarrow> compareSemver v' v \<le> 0)"
    using v pre max by simp
  then show ?thesis unfolding Some option.case by (rule exI)
qed

theorem newerImageTag_spec_witness:
  "\<exists>cur. parseSemver ''1.27.0-alpine'' = Some cur \<and>
    (\<exists>v. newerImageTag [''1.27.1'', ''1.28.0-alpine'', ''2.0.0-alpine'', ''latest''] ''1.27.0-alpine'' True = Some ''1.28.0-alpine'' \<and>
      parseSemver ''1.28.0-alpine'' = Some v \<and> major v = major cur)"
proof -
  let ?c = "\<lparr>major = 1, minor = 27, patch = 0, prerelease = [''alpine'']\<rparr>"
  have p: "parseSemver ''1.27.0-alpine'' = Some ?c" by code_simp
  have n: "newerImageTag [''1.27.1'', ''1.28.0-alpine'', ''2.0.0-alpine'', ''latest''] ''1.27.0-alpine'' True = Some ''1.28.0-alpine''" by code_simp
  show ?thesis using newerImageTag_spec [OF p, of "[''1.27.1'', ''1.28.0-alpine'', ''2.0.0-alpine'', ''latest'']" True] p n by auto
qed

section \<open>Replacing the tag of a reference\<close>

lemma last_index_pos: "0 < last_index c t \<longleftrightarrow> c \<in> set t"
  by (induction t) (auto simp: Let_def)

lemma last_index_append: "last_index c (s @ t) = (if c \<in> set t then length s + last_index c t else last_index c s)"
  using last_index_pos [of c t] by (induction s) (auto simp: Let_def)

lemma last_index_0: "c \<notin> set t \<Longrightarrow> last_index c t = 0"
  by (induction t) auto

lemma last_index_le: "last_index c s \<le> length s"
  by (induction s) (auto simp: Let_def)

definition plain_tag :: "string \<Rightarrow> bool" where
  "plain_tag t \<longleftrightarrow> CHR ''/'' \<notin> set t \<and> CHR '':'' \<notin> set t"

lemma cut_tag_tagged: "plain_tag t \<Longrightarrow> cut_tag (p @ CHR '':'' # t) = (p, Some t)"
proof -
  assume "plain_tag t"
  then have "last_index (CHR '':'') (p @ CHR '':'' # t) = length p + 1" "last_index (CHR ''/'') (p @ CHR '':'' # t) \<le> length p"
    using last_index_le [of "CHR ''/''" p] by (simp_all add: last_index_append plain_tag_def last_index_0)
  then show ?thesis by (simp add: cut_tag_def Let_def)
qed

lemma last_index_split: "c \<in> set s \<Longrightarrow> \<exists>p t. s = p @ c # t \<and> c \<notin> set t"
  by (rule split_list_last)

lemma cut_tag_cases:
  obtains (tagged) p t where "s = p @ CHR '':'' # t" and "plain_tag t" and "cut_tag s = (p, Some t)"
  | (untagged) "\<And>p t. s = p @ CHR '':'' # t \<Longrightarrow> CHR ''/'' \<in> set t" and "cut_tag s = (s, None)"
proof (cases "\<exists>p t. s = p @ CHR '':'' # t \<and> plain_tag t")
  case True
  then show ?thesis using tagged cut_tag_tagged by blast
next
  case False
  have slash: "CHR ''/'' \<in> set t" if "s = p @ CHR '':'' # t" for p t
  proof (rule ccontr)
    assume no: "CHR ''/'' \<notin> set t"
    obtain q u where u: "CHR '':'' # t = q @ CHR '':'' # u" "CHR '':'' \<notin> set u" using split_list_last [of "CHR '':''" "CHR '':'' # t"] by auto
    then have "set u \<subseteq> set t" by (cases q) auto
    then have "plain_tag u" using no u(2) by (auto simp: plain_tag_def)
    then show False using False u(1) that by (metis append.assoc)
  qed
  have "last_index (CHR '':'') s \<le> last_index (CHR ''/'') s"
  proof (cases "CHR '':'' \<in> set s")
    case True
    then obtain p t where s: "s = p @ CHR '':'' # t" "CHR '':'' \<notin> set t" using split_list_last by metis
    then show ?thesis using slash [OF s(1)] last_index_pos [of "CHR ''/''" t] by (simp add: last_index_append last_index_0 Let_def)
  qed (simp add: last_index_0)
  then have "cut_tag s = (s, None)" by (simp add: cut_tag_def)
  then show ?thesis using untagged slash by blast
qed

text \<open>The registry part does not move the tag.\<close>

lemma cut_tag_behind_slash: "cut_tag (f @ CHR ''/'' # q) = (f @ CHR ''/'' # fst (cut_tag q), snd (cut_tag q))"
proof (cases rule: cut_tag_cases [of q])
  case (tagged p t)
  then show ?thesis using cut_tag_tagged [of t "f @ CHR ''/'' # p"] by simp
next
  case untagged
  show ?thesis
  proof (cases rule: cut_tag_cases [of "f @ CHR ''/'' # q"])
    case (tagged p t)
    then have "\<exists>p'. q = p' @ CHR '':'' # t"
      by (auto simp: append_eq_append_conv2 append_eq_Cons_conv Cons_eq_append_conv plain_tag_def)
    then show ?thesis using untagged(1) tagged(2) by (auto simp: plain_tag_def)
  next
    case u: untagged
    then show ?thesis using untagged by simp
  qed
qed

definition host_part :: "string \<Rightarrow> string option" where
  "host_part rest = (case index_of (CHR ''/'') rest of
       Some i \<Rightarrow> if CHR ''.'' \<in> set (take i rest) \<or> CHR '':'' \<in> set (take i rest) \<or> take i rest = ''localhost'' then Some (take i rest) else None
     | None \<Rightarrow> None)"

definition registry_of :: "string option \<Rightarrow> string" where
  "registry_of h = (case h of None \<Rightarrow> DOCKER_HUB | Some r \<Rightarrow> if r = ''docker.io'' \<or> r = ''index.docker.io'' then DOCKER_HUB else r)"

definition official :: "string \<Rightarrow> string \<Rightarrow> string" where
  "official reg path = (if reg = DOCKER_HUB \<and> CHR ''/'' \<notin> set path then ''library/'' @ path else path)"

text \<open>Parsing in terms of the part before the tag.\<close>

lemma parseImageRef_alt:
  "parseImageRef ref = (let (rest, dig) = cut_digest (trim ref); h = host_part rest;
       path = (case h of None \<Rightarrow> rest | Some f \<Rightarrow> drop (length f + 1) rest)
     in \<lparr>registry = registry_of h, repository = official (registry_of h) (fst (cut_tag path)),
         ref_tag = (case snd (cut_tag path) of None \<Rightarrow> ''latest'' | Some t \<Rightarrow> t), digest = dig\<rparr>)"
proof -
  obtain rest dig where c: "cut_digest (trim ref) = (rest, dig)" by (cases "cut_digest (trim ref)")
  show ?thesis
  proof (cases "host_part rest")
    case None
    then show ?thesis
      by (cases "index_of (CHR ''/'') rest"; cases "cut_tag rest")
        (simp_all add: parseImageRef_def c host_part_def registry_of_def official_def DOCKER_HUB_def split: if_splits)
  next
    case (Some f)
    then obtain i where i: "index_of (CHR ''/'') rest = Some i" "f = take i rest"
      "CHR ''.'' \<in> set f \<or> CHR '':'' \<in> set f \<or> f = ''localhost''"
      by (auto simp: host_part_def split: option.splits if_splits)
    have "parseImageRef ref = (let reg = registry_of (Some f); (path, tag) = cut_tag (drop (length f + 1) rest)
        in \<lparr>registry = reg, repository = official reg path, ref_tag = (case tag of None \<Rightarrow> ''latest'' | Some t \<Rightarrow> t), digest = dig\<rparr>)"
      unfolding parseImageRef_def c prod.case Let_def i(1) option.case i(2) [symmetric] registry_of_def official_def using i(3) by simp
    then show ?thesis by (simp add: c Some Let_def split: prod.splits)
  qed
qed

lemma index_of_take: "index_of c s = Some i \<Longrightarrow> s = take i s @ c # drop (i + 1) s \<and> c \<notin> set (take i s) \<and> i < length s"
  by (induction s arbitrary: i) (auto split: if_splits)

lemma host_part_append: "CHR ''/'' \<notin> set x \<Longrightarrow> host_part (b @ x) = host_part b"
proof (cases "index_of (CHR ''/'') b")
  case None
  assume "CHR ''/'' \<notin> set x"
  then have "index_of (CHR ''/'') (b @ x) = None" using None by (simp add: index_of_None_iff)
  then show ?thesis using None by (simp add: host_part_def)
next
  case (Some i)
  then have "index_of (CHR ''/'') (b @ x) = Some i" "i < length b" using index_of_take [OF Some] by (auto simp: index_of_append)
  then show ?thesis using Some by (simp add: host_part_def)
qed

lemma cut_tag_prefix: "\<exists>x. s = fst (cut_tag s) @ x \<and> CHR ''/'' \<notin> set x"
  by (cases rule: cut_tag_cases [of s]) (auto simp: plain_tag_def)

lemma cut_digest_prefix: "\<exists>x. s = fst (cut_digest s) @ x" and cut_digest_clean: "CHR ''@'' \<notin> set (fst (cut_digest s))"
proof -
  show "\<exists>x. s = fst (cut_digest s) @ x"
    by (cases "index_of (CHR ''@'') s") (auto simp: cut_digest_def intro: append_take_drop_id [symmetric])
  show "CHR ''@'' \<notin> set (fst (cut_digest s))"
  proof (cases "index_of (CHR ''@'') s")
    case None
    then show ?thesis using index_of_None_iff [of "CHR ''@''" s] by (simp add: cut_digest_def)
  next
    case (Some i)
    then show ?thesis using index_of_take [OF Some] by (simp add: cut_digest_def)
  qed
qed

lemma host_part_split: "host_part r = Some f \<Longrightarrow> r = f @ CHR ''/'' # drop (length f + 1) r"
proof -
  assume "host_part r = Some f"
  then obtain i where i: "index_of (CHR ''/'') r = Some i" "f = take i r"
    by (cases "index_of (CHR ''/'') r") (auto simp: host_part_def split: if_splits)
  then have "length f = i" using index_of_take [OF i(1)] by simp
  then show ?thesis using index_of_take [OF i(1)] i(2) by simp
qed

definition tag_ok :: "string \<Rightarrow> bool" where
  "tag_ok t \<longleftrightarrow> t \<noteq> [] \<and> plain_tag t \<and> CHR ''@'' \<notin> set t \<and> (\<forall>c \<in> set t. \<not> js_ws c)"

lemma withTag_parse:
  assumes "tag_ok t"
  shows "parseImageRef (withTag ref t) = (parseImageRef ref)\<lparr>ref_tag := t, digest := None\<rparr>"
proof -
  define r where "r = fst (cut_digest (trim ref))"
  define b where "b = fst (cut_tag r)"
  obtain x where x: "r = b @ x" "CHR ''/'' \<notin> set x" using cut_tag_prefix b_def by blast
  let ?w = "b @ CHR '':'' # t"
  have w: "withTag ref t = ?w" by (simp add: withTag_def b_def r_def)
  have plain: "plain_tag t" "t \<noteq> []" using assms by (auto simp: tag_ok_def)
  obtain y where y: "trim ref = b @ y" using cut_digest_prefix [of "trim ref"] x(1) r_def by auto
  have "\<not> js_ws (hd ?w)" using trim_hd [of ref] y by (cases b) (auto simp: js_ws_def)
  moreover have "last ?w = last t" "last t \<in> set t" using plain by simp_all
  ultimately have "trim ?w = ?w" using assms by (simp add: trim_id_iff tag_ok_def)
  moreover have "CHR ''@'' \<notin> set ?w" using cut_digest_clean [of "trim ref"] x(1) assms by (auto simp: r_def [symmetric] tag_ok_def)
  ultimately have d: "cut_digest (trim ?w) = (?w, None)" by (simp add: cut_digest_def index_of_None_iff [THEN iffD2])
  have h: "host_part r = host_part b" "host_part ?w = host_part b"
    using host_part_append [OF x(2), of b] x(1) host_part_append [of "CHR '':'' # t" b] plain by (auto simp: plain_tag_def)
  show ?thesis
  proof (cases "host_part b")
    case None
    then show ?thesis using h d cut_tag_tagged [OF plain(1), of b]
      by (simp add: parseImageRef_alt w Let_def r_def [symmetric] b_def [symmetric] split: prod.splits) (auto simp: r_def b_def)
  next
    case (Some f)
    let ?q = "drop (length f + 1) r"
    have r: "r = f @ CHR ''/'' # ?q" using host_part_split h Some by simp
    then have b: "b = f @ CHR ''/'' # fst (cut_tag ?q)" using cut_tag_behind_slash [of f ?q] b_def by simp
    have "drop (length f + 1) ?w = fst (cut_tag ?q) @ CHR '':'' # t" by (simp add: b)
    then have "cut_tag (drop (length f + 1) ?w) = (fst (cut_tag ?q), Some t)" using cut_tag_tagged [OF plain(1)] by simp
    then show ?thesis using h d Some
      by (simp add: parseImageRef_alt w Let_def split: prod.splits) (auto simp: r_def)
  qed
qed

end
