(* ===== verification/Image_Watcher.thy ===== *)
theory Image_Watcher
  imports Image_Version_Laws
begin

text \<open>
  The automatic update of applications that run a published image:
  \<open>src/modules/application/image-update-watcher.service.ts\<close>, \<open>follow-revert.ts\<close>, the queue of
  \<open>deploy-application/deploy-application.service.ts\<close> and the outcomes \<open>deployment-runner.service.ts\<close> records.

  The state holds the rows of the applications and of the deployments; deployments are never removed and their number
  is their id.  An operation gets the copy of the row its caller loaded, which other requests may have outdated since,
  and works on the state it finds.  The answers of the registry (tags, digest) are arguments; where the code awaits the
  database between two of its own writes, what others do meanwhile is an argument \<open>mid\<close>.
\<close>

section \<open>State\<close>

datatype application_status = Idle | Running | Stopped | Errored

record watched_app =
  wa_id :: string
  wa_isImage :: bool
  wa_status :: application_status
  wa_imageRef :: "string option"
  wa_autoUpdate :: bool
  wa_intervalMinutes :: nat
  wa_followTags :: bool
  wa_lastTag :: "string option"
  wa_imageDigest :: "string option"
  wa_checkedAt :: "int option"
  wa_currentImage :: "string option"

record follow_revert =
  followedRef :: string
  previousRef :: string
  previousDigest :: "string option"

datatype run_status = DQueued | DBuilding | DPushing | DStarting | DSuccess | DFailed

record watch_deployment =
  dep_app :: string
  dep_status :: run_status
  dep_message :: "string option"
  dep_ref :: "string option"
  dep_revert :: "follow_revert option"

record watch_state =
  wapps :: "watched_app list"
  deps :: "watch_deployment list"

datatype watch_reason = InProgress | NoImageReference | RegistryDown string

type_synonym 'a wres = "(watch_reason, 'a) res"

definition in_flight :: "run_status \<Rightarrow> bool" where
  "in_flight st \<longleftrightarrow> st \<in> {DQueued, DBuilding, DPushing, DStarting}"

definition active_count :: "watch_state \<Rightarrow> string \<Rightarrow> nat" where
  "active_count s aid = length (filter (\<lambda>d. dep_app d = aid \<and> in_flight (dep_status d)) (deps s))"

text \<open>\<open>repo.update(criteria, patch)\<close>: the new state and \<open>affected\<close>.\<close>

definition update_apps :: "(watched_app \<Rightarrow> bool) \<Rightarrow> (watched_app \<Rightarrow> watched_app) \<Rightarrow> watch_state \<Rightarrow> watch_state \<times> nat" where
  "update_apps P f s = (s\<lparr>wapps := map (\<lambda>a. if P a then f a else a) (wapps s)\<rparr>, length (filter P (wapps s)))"

definition app_is :: "string \<Rightarrow> watched_app \<Rightarrow> bool" where
  "app_is aid a \<longleftrightarrow> wa_id a = aid"

definition app_with_ref :: "string \<Rightarrow> string \<Rightarrow> watched_app \<Rightarrow> bool" where
  "app_with_ref aid ref a \<longleftrightarrow> wa_id a = aid \<and> wa_imageRef a = Some ref"

section \<open>The queue\<close>

text \<open>The id is the position of the new row; the runner is handed \<open>app\<close>, whose reference it will pull.\<close>

definition queue :: "watched_app \<Rightarrow> string option \<Rightarrow> follow_revert option \<Rightarrow> watch_state \<Rightarrow> (nat \<times> watch_state) wres" where
  "queue app message revert s =
     (if 0 < active_count s (wa_id app) then Inl (Conflict InProgress)
      else Inr (length (deps s), s\<lparr>deps := deps s @
        [\<lparr>dep_app = wa_id app, dep_status = DQueued, dep_message = message, dep_ref = wa_imageRef app, dep_revert = revert\<rparr>]\<rparr>))"

section \<open>Following a newer tag\<close>

text \<open>The patch written while \<open>imageRef\<close> is still what was read.\<close>

definition follow_patch :: "watched_app \<Rightarrow> string \<Rightarrow> watched_app \<Rightarrow> watched_app" where
  "follow_patch app newTag a = a\<lparr>wa_imageRef := Some (withTag (the (wa_imageRef app)) newTag), wa_imageDigest := None,
     wa_lastTag := Some newTag, wa_checkedAt := wa_checkedAt app\<rparr>"

definition followTag ::
  "(watch_state \<Rightarrow> watch_state) \<Rightarrow> watched_app \<Rightarrow> string \<Rightarrow> watch_state \<Rightarrow> nat option wres \<times> watch_state" where
  "followTag mid app newTag s =
     (if 0 < active_count s (wa_id app) then (Inr None, s)
      else
        let oldRef = the (wa_imageRef app); oldTag = ref_tag (parseImageRef oldRef); newRef = withTag oldRef newTag;
            oldDigest = wa_imageDigest app;
            (s1, affected) = update_apps (app_with_ref (wa_id app) oldRef) (follow_patch app newTag) s
        in
        if affected = 0 then (Inr None, s)
        else
          let app' = follow_patch app newTag app; s2 = mid s1 in
          case queue app' (Some (''to '' @ newTag @ '' (was '' @ oldTag @ '')''))
                 (Some \<lparr>followedRef = newRef, previousRef = oldRef, previousDigest = oldDigest\<rparr>) s2 of
            Inr (d, s3) \<Rightarrow> (Inr (Some d), s3)
          | Inl e \<Rightarrow>
              (if e = Conflict InProgress then Inr None else Inl e,
               fst (update_apps (app_with_ref (wa_id app) newRef) (\<lambda>a. a\<lparr>wa_imageRef := Some oldRef, wa_imageDigest := None\<rparr>) s2)))"

section \<open>One check\<close>

record image_check_result =
  ck_tag :: string
  ck_remoteDigest :: "string option"
  ck_previousDigest :: "string option"
  ck_changed :: bool
  ck_deploymentId :: "nat option"
  ck_baseline :: bool
  ck_newerTag :: "string option"
  ck_newerImageRef :: "string option"
  ck_tagError :: "string option"
  ck_switchedTo :: "string option"

definition text_given :: "string option \<Rightarrow> bool" where
  "text_given v \<longleftrightarrow> (case v of None \<Rightarrow> False | Some s \<Rightarrow> s \<noteq> [])"

definition shortError :: "string \<Rightarrow> string" where
  "shortError msg = (if 160 < length msg then take 157 msg @ ''...'' else msg)"

text \<open>The tag of the reference and whether the repository's tags are looked up.\<close>

definition current_tag :: "watched_app \<Rightarrow> string" where
  "current_tag app = (if text_given (wa_imageRef app) then ref_tag (parseImageRef (the (wa_imageRef app))) else [])"

definition lookupTags :: "watched_app \<Rightarrow> bool" where
  "lookupTags app \<longleftrightarrow> text_given (wa_imageRef app) \<and> \<not> text_given (digest (parseImageRef (the (wa_imageRef app)))) \<and>
     parseSemver (current_tag app) \<noteq> None"

definition compatible_tag :: "watched_app \<Rightarrow> bool \<Rightarrow> string + string list \<Rightarrow> string option" where
  "compatible_tag app follow tags =
     (case tags of
        Inl _ \<Rightarrow> None
      | Inr ts \<Rightarrow>
          if lookupTags app \<and> follow then
            (let c = newerImageTag ts (current_tag app) True in if text_given c \<and> c = wa_lastTag app then None else c)
          else None)"

text \<open>\<open>null\<close> when the reference pins a digest, otherwise what the registry says.\<close>

definition remoteDigest :: "watched_app \<Rightarrow> string option wres \<Rightarrow> string option wres" where
  "remoteDigest app served =
     (if \<not> text_given (wa_imageRef app) then Inl (ServerError NoImageReference)
      else if text_given (digest (parseImageRef (the (wa_imageRef app)))) then Inr None else served)"

definition tag_info :: "watched_app \<Rightarrow> string + string list \<Rightarrow> image_check_result" where
  "tag_info app tags =
     (let newer = (case tags of Inr ts \<Rightarrow> if lookupTags app then newerImageTag ts (current_tag app) False else None | Inl _ \<Rightarrow> None)
      in \<lparr>ck_tag = current_tag app, ck_remoteDigest = None, ck_previousDigest = wa_imageDigest app, ck_changed = False,
          ck_deploymentId = None, ck_baseline = False, ck_newerTag = newer,
          ck_newerImageRef = (if text_given newer \<and> text_given (wa_imageRef app) then Some (withTag (the (wa_imageRef app)) (the newer)) else None),
          ck_tagError = (case tags of Inl e \<Rightarrow> if lookupTags app then Some (shortError e) else None | Inr _ \<Rightarrow> None),
          ck_switchedTo = None\<rparr>)"

definition stamp_check :: "watched_app \<Rightarrow> watched_app \<Rightarrow> watched_app" where
  "stamp_check app a = a\<lparr>wa_checkedAt := wa_checkedAt app\<rparr>"

definition check_digest ::
  "watched_app \<Rightarrow> bool \<Rightarrow> string + string list \<Rightarrow> string option wres \<Rightarrow> watch_state \<Rightarrow> image_check_result wres \<times> watch_state" where
  "check_digest app deploy tags served s =
     (case remoteDigest app served of
        Inl e \<Rightarrow> (Inl e, fst (update_apps (app_is (wa_id app)) (stamp_check app) s))
      | Inr remote \<Rightarrow>
          let baseline = (\<not> text_given (wa_imageDigest app) \<and> text_given remote);
              changed = (text_given remote \<and> text_given (wa_imageDigest app) \<and> remote \<noteq> wa_imageDigest app);
              s1 = fst (update_apps (app_is (wa_id app))
                     (\<lambda>a. if baseline then (stamp_check app a)\<lparr>wa_imageDigest := remote\<rparr> else stamp_check app a) s);
              res = (tag_info app tags)\<lparr>ck_remoteDigest := remote, ck_changed := changed, ck_baseline := baseline\<rparr>
          in if changed \<and> deploy then
               (case queue app None None s1 of
                  Inr (d, s2) \<Rightarrow> (Inr (res\<lparr>ck_deploymentId := Some d\<rparr>), s2)
                | Inl e \<Rightarrow> if e = Conflict InProgress then (Inr res, s1) else (Inl e, s1))
             else (Inr res, s1))"

definition check_image ::
  "(watch_state \<Rightarrow> watch_state) \<Rightarrow> watched_app \<Rightarrow> bool \<Rightarrow> bool \<Rightarrow> int \<Rightarrow> string + string list \<Rightarrow> string option wres \<Rightarrow>
   watch_state \<Rightarrow> image_check_result wres \<times> watch_state" where
  "check_image mid app0 deploy follow now tags served s =
     (let app = app0\<lparr>wa_checkedAt := Some now\<rparr>; compat = compatible_tag app follow tags in
      if deploy \<and> follow \<and> text_given compat \<and> text_given (wa_imageRef app) then
        (case followTag mid app (the compat) s of
           (Inr (Some d), s1) \<Rightarrow>
             (Inr ((tag_info app tags)\<lparr>ck_changed := True, ck_deploymentId := Some d, ck_switchedTo := compat\<rparr>), s1)
         | (Inr None, s1) \<Rightarrow> (Inr (tag_info app tags), fst (update_apps (app_is (wa_id app)) (stamp_check app) s1))
         | (Inl e, s1) \<Rightarrow> (Inl e, s1))
      else check_digest app deploy tags served s)"

section \<open>The tick\<close>

definition watched :: "watched_app \<Rightarrow> bool" where
  "watched a \<longleftrightarrow> wa_isImage a \<and> wa_autoUpdate a \<and> wa_status a = Running"

definition due :: "int \<Rightarrow> watched_app \<Rightarrow> bool" where
  "due now a \<longleftrightarrow> (case wa_checkedAt a of None \<Rightarrow> True | Some t \<Rightarrow> now - t \<ge> int (wa_intervalMinutes a) * 60000)"

text \<open>An exception of one application is logged and does not keep the others from being checked.\<close>

fun tick_loop ::
  "(string \<Rightarrow> string + string list) \<Rightarrow> (string \<Rightarrow> string option wres) \<Rightarrow> int \<Rightarrow> watched_app list \<Rightarrow> watch_state \<Rightarrow> watch_state" where
  "tick_loop tags served now [] s = s"
| "tick_loop tags served now (a # as) s =
     tick_loop tags served now as
       (if due now a then snd (check_image id a True (wa_followTags a) now (tags (wa_id a)) (served (wa_id a)) s) else s)"

definition tick :: "(string \<Rightarrow> string + string list) \<Rightarrow> (string \<Rightarrow> string option wres) \<Rightarrow> int \<Rightarrow> watch_state \<Rightarrow> watch_state" where
  "tick tags served now s = tick_loop tags served now (filter watched (wapps s)) s"

section \<open>Outcomes of a deployment\<close>

record digest_baseline =
  bl_imageRef :: string
  bl_imageDigest :: "string option"
  bl_checkedAt :: int

definition persistOutcome ::
  "string \<Rightarrow> application_status \<Rightarrow> string option \<Rightarrow> digest_baseline option \<Rightarrow> watch_state \<Rightarrow> watch_state" where
  "persistOutcome aid st img baseline s =
     (let s1 = fst (update_apps (app_is aid)
          (\<lambda>a. (a\<lparr>wa_status := st\<rparr>)\<lparr>wa_currentImage := (case img of None \<Rightarrow> wa_currentImage a | Some i \<Rightarrow> Some i)\<rparr>) s)
      in case baseline of
           None \<Rightarrow> s1
         | Some b \<Rightarrow> fst (update_apps (app_with_ref aid (bl_imageRef b))
             (\<lambda>a. a\<lparr>wa_imageDigest := bl_imageDigest b, wa_checkedAt := Some (bl_checkedAt b)\<rparr>) s1))"

definition revertFollowedTag :: "string \<Rightarrow> follow_revert \<Rightarrow> watch_state \<Rightarrow> watch_state \<times> bool" where
  "revertFollowedTag aid rv s =
     (let (s1, n) = update_apps (app_with_ref aid (followedRef rv)) (\<lambda>a. a\<lparr>wa_imageRef := Some (previousRef rv), wa_imageDigest := previousDigest rv\<rparr>) s
      in (s1, n \<noteq> 0))"

definition set_dep_status :: "nat \<Rightarrow> run_status \<Rightarrow> watch_state \<Rightarrow> watch_state" where
  "set_dep_status d st s = s\<lparr>deps := (deps s)[d := (deps s ! d)\<lparr>dep_status := st\<rparr>]\<rparr>"

text \<open>
  The end of \<open>run\<close> for an image source.  On success the status, the image and the baseline of the pulled reference are
  stored.  A failure while starting stores the status the daemon reports; a followed tag is put back.
\<close>

definition run_succeeded :: "nat \<Rightarrow> string option \<Rightarrow> int \<Rightarrow> watch_state \<Rightarrow> watch_state" where
  "run_succeeded d dig now s =
     (let dep = deps s ! d; ref = the (dep_ref dep) in
      set_dep_status d DSuccess
        (persistOutcome (dep_app dep) Running (Some ref) (Some \<lparr>bl_imageRef = ref, bl_imageDigest = dig, bl_checkedAt = now\<rparr>) s))"

definition run_failed :: "nat \<Rightarrow> (application_status \<times> digest_baseline option) option \<Rightarrow> watch_state \<Rightarrow> watch_state" where
  "run_failed d starting s =
     (let dep = deps s ! d;
          s1 = (case starting of None \<Rightarrow> s | Some (st, b) \<Rightarrow> persistOutcome (dep_app dep) st None b s);
          s2 = (case dep_revert dep of None \<Rightarrow> s1 | Some rv \<Rightarrow> fst (revertFollowedTag (dep_app dep) rv s1))
      in set_dep_status d DFailed s2)"

end
