(* ===== verification/Image_Watcher_Laws.thy ===== *)
theory Image_Watcher_Laws
  imports Image_Watcher
begin

text \<open>
  What automatic updates guarantee: they stay on the image and on its compatible line, a failed update is taken back,
  and a fixed set of published tags leads to at most one attempt.  One interleaving loses an update.
\<close>

section \<open>Following\<close>

lemma compatible_tag_checked [simp]: "compatible_tag (app\<lparr>wa_checkedAt := c\<rparr>) f tags = compatible_tag app f tags"
  by (simp add: compatible_tag_def lookupTags_def current_tag_def split: sum.splits)

lemma compatible_tag_SomeD:
  assumes "compatible_tag app f tags = Some t"
  obtains ts where "tags = Inr ts" and "lookupTags app" and "f" and "newerImageTag ts (current_tag app) True = Some t"
    and "t \<noteq> [] \<Longrightarrow> wa_lastTag app \<noteq> Some t"
  using assms by (auto simp: compatible_tag_def Let_def text_given_def split: sum.splits if_splits)

lemma update_apps_simps [simp]:
  "wapps (fst (update_apps P f s)) = map (\<lambda>a. if P a then f a else a) (wapps s)"
  "deps (fst (update_apps P f s)) = deps s"
  "snd (update_apps P f s) = length (filter P (wapps s))"
  by (simp_all add: update_apps_def)

lemma followTag_SomeD:
  assumes "followTag mid app newTag s = (Inr (Some d), s')"
  shows "active_count s (wa_id app) = 0" and "d < length (deps s')" and "deps s' ! d =
      \<lparr>dep_app = wa_id app, dep_status = DQueued,
       dep_message = Some (''to '' @ newTag @ '' (was '' @ ref_tag (parseImageRef (the (wa_imageRef app))) @ '')''),
       dep_ref = Some (withTag (the (wa_imageRef app)) newTag),
       dep_revert = Some \<lparr>followedRef = withTag (the (wa_imageRef app)) newTag, previousRef = the (wa_imageRef app), previousDigest = wa_imageDigest app\<rparr>\<rparr>"
    and "wapps s' = wapps (mid (fst (update_apps (app_with_ref (wa_id app) (the (wa_imageRef app))) (follow_patch app newTag) s)))"
    and "\<exists>a \<in> set (wapps s). wa_id a = wa_id app \<and> wa_imageRef a = Some (the (wa_imageRef app))"
  using assms
  by (auto simp: followTag_def Let_def queue_def follow_patch_def app_with_ref_def filter_empty_conv
      split: if_splits prod.splits sum.splits dest!: arg_cong [where f = snd] simp: update_apps_def)

lemma check_switched:
  assumes "check_image mid app deploy follow now tags served s = (Inr r, s')" and "ck_switchedTo r = Some t"
  obtains d where "compatible_tag app follow tags = Some t" and "t \<noteq> []" and "text_given (wa_imageRef app)"
    and "followTag mid (app\<lparr>wa_checkedAt := Some now\<rparr>) t s = (Inr (Some d), s')" and "ck_deploymentId r = Some d"
proof -
  have no: "ck_switchedTo (tag_info a tags) = None" for a by (simp add: tag_info_def Let_def)
  have dig: "check_digest a deploy tags served s = (Inr r, s') \<Longrightarrow> ck_switchedTo r = None" for a
    using no [of a] by (auto simp: check_digest_def Let_def split: sum.splits if_splits)
  let ?a = "app\<lparr>wa_checkedAt := Some now\<rparr>" and ?c = "compatible_tag app follow tags"
  have go: "deploy \<and> follow \<and> text_given ?c \<and> text_given (wa_imageRef app)"
    using assms dig [of ?a] by (auto simp: check_image_def Let_def split: if_splits)
  obtain q s1 where f: "followTag mid ?a (the ?c) s = (q, s1)" by (cases "followTag mid ?a (the ?c) s")
  have "\<exists>d. q = Inr (Some d) \<and> s1 = s' \<and> ?c = Some t \<and> ck_deploymentId r = Some d"
    using assms go f no [of ?a] by (auto simp: check_image_def Let_def split: sum.splits option.splits)
  then show ?thesis using that go f by (auto simp: text_given_def)
qed

definition docker_tag :: "string \<Rightarrow> bool" where
  "docker_tag t \<longleftrightarrow> t \<noteq> [] \<and> list_all (\<lambda>c. is_alpha c \<or> is_digit c \<or> c \<in> set ''_.-'') t"

lemma docker_tag_ok: "docker_tag t \<Longrightarrow> tag_ok t"
  by (auto simp: docker_tag_def tag_ok_def plain_tag_def list_all_iff is_alpha_def is_lower_def is_upper_def is_digit_def js_ws_def)

definition demo_watched :: watched_app where
  "demo_watched = \<lparr>wa_id = ''a'', wa_isImage = True, wa_status = Running, wa_imageRef = Some ''ghcr.io/org/app:1.2.0'', wa_autoUpdate = True,
     wa_intervalMinutes = 60, wa_followTags = True, wa_lastTag = None, wa_imageDigest = Some ''sha256:1'', wa_checkedAt = None,
     wa_currentImage = Some ''ghcr.io/org/app:1.2.0''\<rparr>"

definition demo_registry :: "string list" where
  "demo_registry = [''1.2.0'', ''1.3.0'', ''2.0.0'', ''latest'']"

definition demo_watch :: watch_state where
  "demo_watch = \<lparr>wapps = [demo_watched], deps = []\<rparr>"

lemma eligible_facts:
  assumes "tag_eligible cur c True t v"
  shows "0 < compareSemver v cur" "variant_of v = variant_of cur" "major v = major cur" "major cur = 0 \<Longrightarrow> minor v = minor cur"
    "prerelease cur = [] \<Longrightarrow> prerelease v = []" "has_v t = has_v c"
  using assms by (auto simp: tag_eligible_def variant_of_def isVariantSuffix_def split: if_splits)



section \<open>A lost race\<close>

text \<open>The loser's own two writes, on its row.\<close>

lemma follow_lost:
  assumes "active_count s (wa_id app) = 0" and "app' \<in> set (wapps s)" and "wa_id app' = wa_id app" and "wa_imageRef app' = Some ref"
    and "wa_imageRef app = Some ref" and "\<And>x. wapps (mid x) = wapps x" and "\<And>x. 0 < active_count (mid x) (wa_id app)"
  shows "fst (followTag mid app t s) = Inr None"
    and "app'\<lparr>wa_imageDigest := None, wa_lastTag := Some t, wa_checkedAt := wa_checkedAt app\<rparr> \<in> set (wapps (snd (followTag mid app t s)))"
proof -
  let ?P = "app_with_ref (wa_id app) ref" and ?f = "follow_patch app t"
  have P: "?P app'" using assms by (simp add: app_with_ref_def)
  then have "filter ?P (wapps s) \<noteq> []" using assms(2) by (auto simp: filter_empty_conv)
  then have n: "length (filter ?P (wapps s)) \<noteq> 0" by simp
  have q: "queue a m rv (mid x) = Inl (Conflict InProgress)" if "wa_id a = wa_id app" for a m rv x
    using assms(7) [of x] that by (simp add: queue_def)
  have f: "followTag mid app t s = (Inr None, fst (update_apps (app_with_ref (wa_id app) (withTag ref t))
      (\<lambda>a. a\<lparr>wa_imageRef := Some ref, wa_imageDigest := None\<rparr>) (mid (fst (update_apps ?P ?f s)))))"
    using assms(1,5) n q by (auto simp: followTag_def Let_def follow_patch_def split: prod.splits sum.splits dest!: arg_cong [where f = snd])
  show "fst (followTag mid app t s) = Inr None" by (simp add: f)
  have "?f app' \<in> set (wapps (mid (fst (update_apps ?P ?f s))))" using assms(2,6) P by (force simp: image_iff)
  moreover have "app_with_ref (wa_id app) (withTag ref t) (?f app')" using assms(3,5) by (simp add: app_with_ref_def follow_patch_def)
  moreover have "(?f app')\<lparr>wa_imageRef := Some ref, wa_imageDigest := None\<rparr> = app'\<lparr>wa_imageDigest := None, wa_lastTag := Some t, wa_checkedAt := wa_checkedAt app\<rparr>"
    using assms(4,5) by (simp add: follow_patch_def)
  ultimately show "app'\<lparr>wa_imageDigest := None, wa_lastTag := Some t, wa_checkedAt := wa_checkedAt app\<rparr> \<in> set (wapps (snd (followTag mid app t s)))"
    unfolding f by (auto simp: image_iff intro!: bexI [of _ "?f app'"])
qed

lemma compatible_tag_tried:
  assumes "compatible_tag app f (Inr ts) = Some t" and "t \<noteq> []" and "wa_imageRef a = wa_imageRef app" and "wa_lastTag a = Some t"
  shows "compatible_tag a f (Inr ts) = None"
proof -
  have "lookupTags a = lookupTags app" "current_tag a = current_tag app" using assms(3) by (simp_all add: lookupTags_def current_tag_def)
  then show ?thesis using assms by (auto simp: compatible_tag_def Let_def text_given_def split: if_splits)
qed

text \<open>Somebody else's deployment takes the slot between the two writes.\<close>

definition steal_slot :: "watch_state \<Rightarrow> watch_state" where
  "steal_slot s = s\<lparr>deps := deps s @ [\<lparr>dep_app = ''a'', dep_status = DQueued, dep_message = None, dep_ref = None, dep_revert = None\<rparr>]\<rparr>"

text \<open>
  C37: an update lost to a race is lost for good.  When another deployment takes the slot between the watcher's write of
  the new reference and its request for a deployment, the reference is put back and nothing is queued - but the row
  keeps the tag as the one tried last, although it never ran, and forgets the digest of what is deployed.  From then on
  the watcher skips this tag for ever, and the next check records whatever the registry serves as the baseline.
\<close>

theorem lost_race_gives_up:
  assumes "compatible_tag app True (Inr ts) = Some t" and "t \<noteq> []" and "wa_imageRef app = Some ref" and "ref \<noteq> []"
    and "active_count s (wa_id app) = 0" and "app \<in> set (wapps s)"
    and "\<forall>x. wapps (mid x) = wapps x" and "\<forall>x. 0 < active_count (mid x) (wa_id app)"
  shows "\<exists>r s' a. check_image mid app True True now (Inr ts) served s = (Inr r, s') \<and> ck_deploymentId r = None \<and> ck_switchedTo r = None \<and>
    a \<in> set (wapps s') \<and> wa_id a = wa_id app \<and> wa_imageRef a = Some ref \<and> wa_imageDigest a = None \<and> wa_lastTag a = Some t \<and>
    compatible_tag a True (Inr ts) = None"
proof -
  define app1 where "app1 = app\<lparr>wa_checkedAt := Some now\<rparr>"
  have a1: "wa_id app1 = wa_id app" "wa_imageRef app1 = Some ref" "wa_checkedAt app1 = Some now" using assms(3) by (simp_all add: app1_def)
  define b where "b = app\<lparr>wa_imageDigest := None, wa_lastTag := Some t, wa_checkedAt := Some now\<rparr>"
  have b: "wa_id b = wa_id app" "wa_imageRef b = Some ref" "wa_imageDigest b = None" "wa_lastTag b = Some t" "stamp_check app1 b = b"
    using assms(3) a1(3) by (simp_all add: b_def stamp_check_def)
  have c1: "compatible_tag app1 True (Inr ts) = Some t" using assms(1) by (simp add: app1_def)
  note lost = follow_lost [of s app1 app ref mid t, unfolded a1, OF assms(5,6) refl assms(3) refl]
  obtain s1 where f: "followTag mid app1 t s = (Inr None, s1)" using lost(1) assms(7,8) by (cases "followTag mid app1 t s") auto
  have "b \<in> set (wapps s1)" using lost(2) assms(7,8) f by (simp add: b_def)
  then have "b \<in> set (wapps (fst (update_apps (app_is (wa_id app1)) (stamp_check app1) s1)))"
    using b(5) by (force simp: image_iff)
  moreover have "check_image mid app True True now (Inr ts) served s =
      (Inr (tag_info app1 (Inr ts)), fst (update_apps (app_is (wa_id app1)) (stamp_check app1) s1))"
    using assms(1-4) f c1 by (simp add: check_image_def app1_def [symmetric] text_given_def a1)
  moreover have "ck_deploymentId (tag_info app1 (Inr ts)) = None" "ck_switchedTo (tag_info app1 (Inr ts)) = None"
    by (simp_all add: tag_info_def Let_def)
  moreover have "compatible_tag b True (Inr ts) = None"
    using compatible_tag_tried [OF assms(1,2) _ b(4)] b(2) assms(3) by simp
  ultimately show ?thesis using b(1-4) by blast
qed

theorem lost_race_gives_up_witness:
  "\<exists>r s' a. check_image steal_slot demo_watched True True 7 (Inr demo_registry) (Inr None) demo_watch = (Inr r, s') \<and> ck_deploymentId r = None \<and>
     a \<in> set (wapps s') \<and> wa_imageRef a = Some ''ghcr.io/org/app:1.2.0'' \<and> wa_lastTag a = Some ''1.3.0''"
proof -
  have "compatible_tag demo_watched True (Inr demo_registry) = Some ''1.3.0''" by code_simp
  moreover have "wa_imageRef demo_watched = Some ''ghcr.io/org/app:1.2.0''" "demo_watched \<in> set (wapps demo_watch)"
    "active_count demo_watch (wa_id demo_watched) = 0" by (simp_all add: demo_watched_def demo_watch_def active_count_def)
  moreover have "\<forall>x. wapps (steal_slot x) = wapps x" "\<forall>x. 0 < active_count (steal_slot x) (wa_id demo_watched)"
    by (simp_all add: steal_slot_def active_count_def demo_watched_def in_flight_def)
  ultimately show ?thesis
    using lost_race_gives_up [of demo_watched demo_registry "''1.3.0''" "''ghcr.io/org/app:1.2.0''" demo_watch steal_slot 7 "Inr None"] by blast
qed

section \<open>A failed update is taken back\<close>

lemma persistOutcome_map:
  "\<exists>f. wapps (persistOutcome aid st img b s) = map f (wapps s) \<and>
     (\<forall>a. wa_id (f a) = wa_id a \<and> wa_imageRef (f a) = wa_imageRef a \<and> wa_lastTag (f a) = wa_lastTag a) \<and>
     deps (persistOutcome aid st img b s) = deps s"
proof (cases b)
  case None
  then show ?thesis
    by (intro exI [of _ "\<lambda>a. if app_is aid a then (a\<lparr>wa_status := st\<rparr>)\<lparr>wa_currentImage := (case img of None \<Rightarrow> wa_currentImage a | Some i \<Rightarrow> Some i)\<rparr> else a"])
      (simp add: persistOutcome_def)
next
  case (Some x)
  let ?g = "\<lambda>a. if app_is aid a then (a\<lparr>wa_status := st\<rparr>)\<lparr>wa_currentImage := (case img of None \<Rightarrow> wa_currentImage a | Some i \<Rightarrow> Some i)\<rparr> else a"
  let ?h = "\<lambda>a. if app_with_ref aid (bl_imageRef x) a then a\<lparr>wa_imageDigest := bl_imageDigest x, wa_checkedAt := Some (bl_checkedAt x)\<rparr> else a"
  show ?thesis using Some by (intro exI [of _ "?h \<circ> ?g"]) (simp add: persistOutcome_def)
qed

text \<open>The effect of the end of a run on the rows: nothing but a revert changes a reference.\<close>

definition reverted :: "watch_deployment \<Rightarrow> watched_app \<Rightarrow> watched_app \<Rightarrow> bool" where
  "reverted dep a a' \<longleftrightarrow> wa_id a' = wa_id a \<and> wa_lastTag a' = wa_lastTag a \<and>
     (case dep_revert dep of
        Some rv \<Rightarrow> if app_with_ref (dep_app dep) (followedRef rv) a
            then wa_imageRef a' = Some (previousRef rv) \<and> wa_imageDigest a' = previousDigest rv
            else wa_imageRef a' = wa_imageRef a
      | None \<Rightarrow> wa_imageRef a' = wa_imageRef a)"

lemma run_failed_rows: "\<exists>f. wapps (run_failed d starting s) = map f (wapps s) \<and> (\<forall>a. reverted (deps s ! d) a (f a))"
proof -
  let ?s1 = "case starting of None \<Rightarrow> s | Some (st, b) \<Rightarrow> persistOutcome (dep_app (deps s ! d)) st None b s"
  have "\<exists>f. wapps ?s1 = map f (wapps s) \<and> (\<forall>a. wa_id (f a) = wa_id a \<and> wa_imageRef (f a) = wa_imageRef a \<and> wa_lastTag (f a) = wa_lastTag a)"
  proof (cases starting)
    case None
    then show ?thesis by (intro exI [of _ id]) simp
  next
    case (Some p)
    then show ?thesis using persistOutcome_map [of "dep_app (deps s ! d)" "fst p" None "snd p" s] by (cases p) auto
  qed
  then obtain f where f: "wapps ?s1 = map f (wapps s)"
    "\<And>a. wa_id (f a) = wa_id a \<and> wa_imageRef (f a) = wa_imageRef a \<and> wa_lastTag (f a) = wa_lastTag a" by blast
  show ?thesis
  proof (cases "dep_revert (deps s ! d)")
    case None
    then show ?thesis using f by (intro exI [of _ f]) (auto simp: run_failed_def set_dep_status_def reverted_def Let_def)
  next
    case (Some rv)
    let ?g = "\<lambda>a. if app_with_ref (dep_app (deps s ! d)) (followedRef rv) a then a\<lparr>wa_imageRef := Some (previousRef rv), wa_imageDigest := previousDigest rv\<rparr> else a"
    have "wapps (run_failed d starting s) = map (?g \<circ> f) (wapps s)"
      using Some f(1) by (simp add: run_failed_def set_dep_status_def Let_def revertFollowedTag_def case_prod_beta)
    moreover have "reverted (deps s ! d) a ((?g \<circ> f) a)" for a
      using Some f(2) [of a] by (simp add: reverted_def app_with_ref_def)
    ultimately show ?thesis by blast
  qed
qed

text \<open>
  A failed automatic update is taken back, unless the user intervened.  After the deployment the watcher queued for a
  new tag failed - while pulling or while starting - every row of the application that still has the followed reference
  has the reference and the digest it had before, a row with another reference keeps it, and the tag stays remembered
  as tried.
\<close>

theorem failed_follow_restores:
  assumes "check_image mid app deploy follow now (Inr ts) served s = (Inr r, s')" and "ck_switchedTo r = Some t"
    and "ck_deploymentId r = Some d" and "wa_imageRef app = Some ref"
    and "deps s2 ! d = (deps s' ! d)\<lparr>dep_status := DStarting\<rparr>"
  shows "\<exists>f. wapps (run_failed d starting s2) = map f (wapps s2) \<and>
    (\<forall>a. wa_id a = wa_id app \<longrightarrow> wa_lastTag (f a) = wa_lastTag a \<and>
      (if wa_imageRef a = Some (withTag ref t) then wa_imageRef (f a) = Some ref \<and> wa_imageDigest (f a) = wa_imageDigest app
       else wa_imageRef (f a) = wa_imageRef a))"
proof -
  obtain d' where f: "followTag mid (app\<lparr>wa_checkedAt := Some now\<rparr>) t s = (Inr (Some d'), s')" and "ck_deploymentId r = Some d'"
    by (rule check_switched [OF assms(1,2)])
  then have "d' = d" using assms(3) by simp
  then have "dep_revert (deps s2 ! d) = Some \<lparr>followedRef = withTag ref t, previousRef = ref, previousDigest = wa_imageDigest app\<rparr>"
    "dep_app (deps s2 ! d) = wa_id app"
    using followTag_SomeD(3) [OF f] assms(4,5) by simp_all
  then show ?thesis using run_failed_rows [of d starting s2] by (auto simp: reverted_def app_with_ref_def)
qed

theorem failed_follow_restores_witness:
  "\<exists>s' f. snd (check_image id demo_watched True True 7 (Inr demo_registry) (Inr None) demo_watch) = s' \<and>
     wapps (run_failed 0 None (set_dep_status 0 DStarting s')) = map f (wapps s') \<and>
     (\<forall>a. wa_id a = ''a'' \<longrightarrow> wa_imageRef a = Some (withTag ''ghcr.io/org/app:1.2.0'' ''1.3.0'') \<longrightarrow>
        wa_imageRef (f a) = Some ''ghcr.io/org/app:1.2.0'' \<and> wa_imageDigest (f a) = Some ''sha256:1'')"
proof -
  have sw: "(case check_image id demo_watched True True 7 (Inr demo_registry) (Inr None) demo_watch of
      (Inr x, s') \<Rightarrow> Some (ck_switchedTo x, ck_deploymentId x, length (deps s')) | _ \<Rightarrow> None) = Some (Some ''1.3.0'', Some 0, 1)" by code_simp
  obtain x s' where x: "check_image id demo_watched True True 7 (Inr demo_registry) (Inr None) demo_watch = (Inr x, s')"
    "ck_switchedTo x = Some ''1.3.0''" "ck_deploymentId x = Some 0" "length (deps s') = 1"
    using sw by (cases "check_image id demo_watched True True 7 (Inr demo_registry) (Inr None) demo_watch") (auto split: sum.splits)
  have "deps (set_dep_status 0 DStarting s') ! 0 = (deps s' ! 0)\<lparr>dep_status := DStarting\<rparr>" "wapps (set_dep_status 0 DStarting s') = wapps s'"
    using x(4) by (simp_all add: set_dep_status_def)
  then show ?thesis
    using failed_follow_restores [OF x(1-3), of "''ghcr.io/org/app:1.2.0''" "set_dep_status 0 DStarting s'" None] x(1)
    by (auto simp: demo_watched_def)
qed

section \<open>No update loop\<close>

text \<open>With the tags of the repository fixed: ticks of the watcher and ends of deployments, in any order.\<close>

inductive wstep :: "string list \<Rightarrow> watch_state \<Rightarrow> watch_state \<Rightarrow> bool" for ts where
  wtick: "wstep ts s (tick (\<lambda>_. Inr ts) served now s)"
| wsuccess: "d < length (deps s) \<Longrightarrow> in_flight (dep_status (deps s ! d)) \<Longrightarrow> wstep ts s (run_succeeded d dig now s)"
| wfailure: "d < length (deps s) \<Longrightarrow> in_flight (dep_status (deps s ! d)) \<Longrightarrow> wstep ts s (run_failed d starting s)"

definition reverts :: "watch_state \<Rightarrow> follow_revert list" where
  "reverts s = concat (map (\<lambda>d. case dep_revert d of None \<Rightarrow> [] | Some rv \<Rightarrow> [rv]) (deps s))"

text \<open>A newest compatible tag has no newer compatible one.\<close>

lemma newer_stops:
  assumes "newerImageTag ts c True = Some t"
  shows "newerImageTag ts t True = None"
proof (rule ccontr)
  assume "newerImageTag ts t True \<noteq> None"
  then obtain u where u: "newerImageTag ts t True = Some u" by blast
  obtain cur v where c: "parseSemver c = Some cur" "parseSemver t = Some v" "tag_eligible cur c True t v"
    and max: "\<And>t' v'. t' \<in> set ts \<Longrightarrow> parseSemver t' = Some v' \<Longrightarrow> tag_eligible cur c True t' v' \<Longrightarrow> compareSemver v' v \<le> 0"
    by (rule newerImageTag_SomeD [OF assms]) blast
  obtain w where w: "parseSemver u = Some w" "u \<in> set ts" "tag_eligible v t True u w"
    using newerImageTag_SomeD [OF u] c(2) by (metis option.inject)
  note e1 = eligible_facts [OF c(3)] and e2 = eligible_facts [OF w(3)]
  have "\<not> compareSemver w cur \<le> 0"
  proof
    assume "compareSemver w cur \<le> 0"
    moreover have "compareSemver cur v \<le> 0" using e1(1) semver_order.swap [of cur v] by simp
    ultimately show False using semver_order.trans e2(1) by fastforce
  qed
  then have "tag_eligible cur c True u w" using e1 e2 by (auto simp: tag_eligible_def)
  then show False using max [OF w(2,1)] e2(1) by simp
qed

definition follow_done :: "string list \<Rightarrow> watched_app \<Rightarrow> follow_revert \<Rightarrow> bool" where
  "follow_done ts a rv \<longleftrightarrow> (\<exists>t. wa_lastTag a = Some t \<and> tag_ok t \<and> followedRef rv = withTag (previousRef rv) t \<and>
     newerImageTag ts (ref_tag (parseImageRef (previousRef rv))) True = Some t \<and>
     (wa_imageRef a = Some (previousRef rv) \<or> wa_imageRef a = Some (followedRef rv)))"

lemma follow_done_quiet: "follow_done ts a rv \<Longrightarrow> compatible_tag a f (Inr ts) = None"
proof -
  assume "follow_done ts a rv"
  then obtain t where t: "wa_lastTag a = Some t" "tag_ok t" "followedRef rv = withTag (previousRef rv) t"
    "newerImageTag ts (ref_tag (parseImageRef (previousRef rv))) True = Some t"
    "wa_imageRef a = Some (previousRef rv) \<or> wa_imageRef a = Some (followedRef rv)" by (auto simp: follow_done_def)
  have ne: "t \<noteq> []" "withTag (previousRef rv) t \<noteq> []" using t(2) by (auto simp: tag_ok_def withTag_def)
  have "ref_tag (parseImageRef (withTag (previousRef rv) t)) = t" using withTag_parse [OF t(2)] by simp
  then show ?thesis using t ne newer_stops [OF t(4)]
    by (auto simp: compatible_tag_def current_tag_def lookupTags_def text_given_def Let_def)
qed

lemma follow_done_same: "follow_done ts a rv \<Longrightarrow> wa_imageRef a' = wa_imageRef a \<Longrightarrow> wa_lastTag a' = wa_lastTag a \<Longrightarrow> follow_done ts a' rv"
  by (simp add: follow_done_def)

definition follow_inv :: "string list \<Rightarrow> watch_state \<Rightarrow> bool" where
  "follow_inv ts s \<longleftrightarrow> (\<exists>a. wapps s = [a] \<and> (reverts s = [] \<or> (\<exists>rv. reverts s = [rv] \<and> follow_done ts a rv)))"

lemma follow_inv_frame:
  assumes "follow_inv ts s" and "wapps s' = map f (wapps s)" and "\<And>a. wa_imageRef (f a) = wa_imageRef a \<and> wa_lastTag (f a) = wa_lastTag a"
    and "reverts s' = reverts s"
  shows "follow_inv ts s'"
proof -
  obtain a where a: "wapps s = [a]" "reverts s = [] \<or> (\<exists>rv. reverts s = [rv] \<and> follow_done ts a rv)"
    using assms(1) by (auto simp: follow_inv_def)
  then show ?thesis using assms(2-4) follow_done_same [of ts a _ "f a"] by (auto simp: follow_inv_def)
qed

lemma queue_reverts: "queue app m None s = Inr (d, s') \<Longrightarrow> wapps s' = wapps s \<and> reverts s' = reverts s"
  by (auto simp: queue_def reverts_def split: if_splits)

lemma reverts_update [simp]: "reverts (fst (update_apps P f s)) = reverts s"
  by (simp add: reverts_def)

lemma queue_outcome:
  "wapps (snd (if c then (case queue app None None s1 of Inr (d, s2) \<Rightarrow> (Inr (rd d), s2)
      | Inl e \<Rightarrow> if e = Conflict InProgress then (Inr r0, s1) else (Inl e, s1)) else (Inr r0, s1))) = wapps s1 \<and>
   reverts (snd (if c then (case queue app None None s1 of Inr (d, s2) \<Rightarrow> (Inr (rd d), s2)
      | Inl e \<Rightarrow> if e = Conflict InProgress then (Inr r0, s1) else (Inl e, s1)) else (Inr r0, s1))) = reverts s1"
proof (cases "queue app None None s1")
  case (Inr p)
  then show ?thesis using queue_reverts [of app None s1 "fst p" "snd p"] by (cases p) simp
qed simp

lemma check_digest_frame:
  "\<exists>f. wapps (snd (check_digest app dp tags served s)) = map f (wapps s) \<and>
     (\<forall>a. wa_imageRef (f a) = wa_imageRef a \<and> wa_lastTag (f a) = wa_lastTag a) \<and>
     reverts (snd (check_digest app dp tags served s)) = reverts s"
proof (cases "remoteDigest app served")
  case (Inl e)
  then show ?thesis
    by (intro exI [of _ "\<lambda>a. if app_is (wa_id app) a then stamp_check app a else a"]) (simp add: check_digest_def stamp_check_def)
next
  case (Inr remote)
  let ?b = "\<not> text_given (wa_imageDigest app) \<and> text_given remote"
  let ?g = "\<lambda>a. if app_is (wa_id app) a then (if ?b then (stamp_check app a)\<lparr>wa_imageDigest := remote\<rparr> else stamp_check app a) else a"
  let ?s1 = "fst (update_apps (app_is (wa_id app)) (\<lambda>a. if ?b then (stamp_check app a)\<lparr>wa_imageDigest := remote\<rparr> else stamp_check app a) s)"
  have "wapps (snd (check_digest app dp tags served s)) = wapps ?s1 \<and> reverts (snd (check_digest app dp tags served s)) = reverts ?s1"
    unfolding check_digest_def Inr sum.case Let_def by (rule queue_outcome)
  then show ?thesis by (intro exI [of _ ?g]) (simp add: stamp_check_def)
qed

lemma follow_starts:
  assumes "wapps s = [a]" and "wa_id app = wa_id a" "wa_imageRef app = Some r0" "wa_imageRef a = Some r0"
    and "active_count s (wa_id app) = 0"
  shows "\<exists>d s' rv. followTag id app t s = (Inr (Some d), s') \<and> wapps s' = [follow_patch app t a] \<and> reverts s' = reverts s @ [rv] \<and>
    followedRef rv = withTag r0 t \<and> previousRef rv = r0"
proof -
  define s1 where "s1 = s\<lparr>wapps := [follow_patch app t a]\<rparr>"
  define rv where "rv = \<lparr>followedRef = withTag r0 t, previousRef = r0, previousDigest = wa_imageDigest app\<rparr>"
  have u: "update_apps (app_with_ref (wa_id app) r0) (follow_patch app t) s = (s1, 1)"
    using assms by (simp add: update_apps_def app_with_ref_def s1_def)
  have q: "active_count s1 (wa_id app) = 0" using assms(5) by (simp add: active_count_def s1_def)
  have "followTag id app t s = (Inr (Some (length (deps s1))), s1\<lparr>deps := deps s1 @
      [\<lparr>dep_app = wa_id app, dep_status = DQueued, dep_message = Some (''to '' @ t @ '' (was '' @ ref_tag (parseImageRef r0) @ '')''),
        dep_ref = Some (withTag r0 t), dep_revert = Some rv\<rparr>]\<rparr>)"
    using assms(3,5) q by (simp add: followTag_def u queue_def follow_patch_def rv_def)
  then show ?thesis by (auto simp: reverts_def s1_def rv_def)
qed

lemma check_inv:
  assumes "follow_inv ts s" and "wapps s = [a]" and "\<forall>x \<in> set ts. docker_tag x"
  shows "follow_inv ts (snd (check_image id a True fl now (Inr ts) served s))"
proof -
  define app where "app = a\<lparr>wa_checkedAt := Some now\<rparr>"
  have app: "wa_id app = wa_id a" "wa_imageRef app = wa_imageRef a" "compatible_tag app fl (Inr ts) = compatible_tag a fl (Inr ts)"
    by (simp_all add: app_def)
  show ?thesis
  proof (cases "fl \<and> text_given (compatible_tag a fl (Inr ts)) \<and> text_given (wa_imageRef a)")
    case False
    then have "check_image id a True fl now (Inr ts) served s = check_digest app True (Inr ts) served s"
      using app by (auto simp: check_image_def app_def [symmetric])
    then show ?thesis using check_digest_frame [of app True "Inr ts" served s] follow_inv_frame [OF assms(1)] by metis
  next
    case True
    then obtain t r0 where t: "compatible_tag a fl (Inr ts) = Some t" "t \<noteq> []" and r0: "wa_imageRef a = Some r0" "r0 \<noteq> []"
      by (auto simp: text_given_def split: option.splits)
    have cond: "fl \<and> text_given (compatible_tag app fl (Inr ts)) \<and> text_given (wa_imageRef app)" "the (compatible_tag app fl (Inr ts)) = t"
      using True t app by simp_all
    have none: "reverts s = []" using assms(1,2) t(1) follow_done_quiet [of ts a _ fl] by (auto simp: follow_inv_def)
    have "current_tag a = ref_tag (parseImageRef r0)" using r0 by (simp add: current_tag_def text_given_def)
    then have n: "newerImageTag ts (ref_tag (parseImageRef r0)) True = Some t" by (cases rule: compatible_tag_SomeD [OF t(1)]) simp
    then have "t \<in> set ts" by (rule newerImageTag_SomeD)
    then have ok: "tag_ok t" using assms(3) docker_tag_ok by blast
    show ?thesis
    proof (cases "active_count s (wa_id app) = 0")
      case True
      obtain d s' rv where f: "followTag id app t s = (Inr (Some d), s')" "wapps s' = [follow_patch app t a]" "reverts s' = [rv]"
        "followedRef rv = withTag r0 t" "previousRef rv = r0"
        using follow_starts [OF assms(2) app(1) _ r0(1) True, of t] app(2) r0(1) none by auto
      have "follow_done ts (follow_patch app t a) rv"
        using f(4,5) n ok app(2) r0(1) by (auto simp: follow_done_def follow_patch_def)
      moreover have "snd (check_image id a True fl now (Inr ts) served s) = s'"
        using cond f(1) by (auto simp: check_image_def app_def [symmetric] Let_def)
      ultimately show ?thesis using f(2,3) by (auto simp: follow_inv_def)
    next
      case False
      then have "followTag id app t s = (Inr None, s)" by (simp add: followTag_def)
      then have "snd (check_image id a True fl now (Inr ts) served s) = fst (update_apps (app_is (wa_id app)) (stamp_check app) s)"
        using cond by (auto simp: check_image_def app_def [symmetric] Let_def)
      then show ?thesis using follow_inv_frame [OF assms(1), of _ "\<lambda>x. if app_is (wa_id app) x then stamp_check app x else x"]
        by (simp add: stamp_check_def)
    qed
  qed
qed

lemma reverts_status: "d < length (deps s) \<Longrightarrow> reverts (set_dep_status d st s) = reverts s"
proof -
  assume d: "d < length (deps s)"
  have "map dep_revert ((deps s)[d := (deps s ! d)\<lparr>dep_status := st\<rparr>]) = map dep_revert (deps s)"
    using d by (simp add: map_update list_update_same_conv)
  then have "map (\<lambda>x. case x of None \<Rightarrow> [] | Some rv \<Rightarrow> [rv]) (map dep_revert ((deps s)[d := (deps s ! d)\<lparr>dep_status := st\<rparr>])) =
    map (\<lambda>x. case x of None \<Rightarrow> [] | Some rv \<Rightarrow> [rv]) (map dep_revert (deps s))" by (rule arg_cong)
  then show ?thesis by (simp add: reverts_def set_dep_status_def comp_def)
qed

lemma wstep_inv:
  assumes "wstep ts s s'" and "follow_inv ts s" and "\<forall>x \<in> set ts. docker_tag x"
  shows "follow_inv ts s'"
  using assms(1)
proof cases
  case (wtick served now)
  obtain a where a: "wapps s = [a]" using assms(2) by (auto simp: follow_inv_def)
  then show ?thesis using wtick assms(2) check_inv [OF assms(2) a assms(3)] by (simp add: tick_def)
next
  case (wsuccess d dig now)
  let ?x = "persistOutcome (dep_app (deps s ! d)) Running (Some (the (dep_ref (deps s ! d))))
    (Some \<lparr>bl_imageRef = the (dep_ref (deps s ! d)), bl_imageDigest = dig, bl_checkedAt = now\<rparr>) s"
  obtain f where f: "wapps ?x = map f (wapps s)" "\<And>a. wa_imageRef (f a) = wa_imageRef a \<and> wa_lastTag (f a) = wa_lastTag a" "deps ?x = deps s"
    using persistOutcome_map by metis
  have "wapps s' = map f (wapps s)" "reverts s' = reverts s"
    using wsuccess f(1,3) reverts_status [of d ?x DSuccess] by (simp_all add: run_succeeded_def Let_def set_dep_status_def) (simp add: reverts_def)
  then show ?thesis using follow_inv_frame [OF assms(2)] f(2) by metis
next
  case (wfailure d starting)
  have "deps (case starting of None \<Rightarrow> s | Some (st, b) \<Rightarrow> persistOutcome aid st None b s) = deps s" for aid
    using persistOutcome_map by (cases starting) (auto, metis)
  then have r: "reverts s' = reverts s"
    using wfailure reverts_status [of d s DFailed]
    by (simp add: run_failed_def Let_def revertFollowedTag_def case_prod_beta set_dep_status_def reverts_def split: option.split)
  obtain f where f: "wapps s' = map f (wapps s)" "\<And>a. reverted (deps s ! d) a (f a)" using run_failed_rows wfailure(1) by metis
  obtain a where a: "wapps s = [a]" "reverts s = [] \<or> (\<exists>rv. reverts s = [rv] \<and> follow_done ts a rv)"
    using assms(2) by (auto simp: follow_inv_def)
  have mem: "rv \<in> set (reverts s)" if "dep_revert (deps s ! d) = Some rv" for rv
    using that wfailure(2) by (auto simp: reverts_def intro!: bexI [of _ "deps s ! d"])
  have "follow_done ts (f a) rv" if "reverts s = [rv]" "follow_done ts a rv" for rv
    using f(2) [of a] that mem
    by (cases "dep_revert (deps s ! d)") (auto simp: reverted_def follow_done_def split: if_splits)
  then show ?thesis using a f(1) r by (auto simp: follow_inv_def)
qed

text \<open>
  C21: no update loop.  For an application whose repository publishes a fixed list of tags, the watcher queues at most one
  deployment that changes the tag, however often it ticks, whatever digests it sees and whether deployments succeed or
  fail: neither a broken version nor a good one is followed again.
\<close>

theorem at_most_one_follow:
  assumes "(wstep ts)\<^sup>*\<^sup>* s0 s" and "wapps s0 = [a]" and "reverts s0 = []" and "\<forall>x \<in> set ts. docker_tag x"
  shows "length (reverts s) \<le> 1"
proof -
  have "follow_inv ts s0" using assms(2,3) by (simp add: follow_inv_def)
  with assms(1) have "follow_inv ts s" by (induction rule: rtranclp_induct) (auto intro: wstep_inv [OF _ _ assms(4)])
  then show ?thesis by (auto simp: follow_inv_def)
qed

theorem at_most_one_follow_witness:
  "\<exists>s. (wstep demo_registry)\<^sup>*\<^sup>* demo_watch s \<and> length (reverts s) = 1"
proof -
  let ?s = "tick (\<lambda>_. Inr demo_registry) (\<lambda>_. Inr None) 7 demo_watch"
  have r: "(wstep demo_registry)\<^sup>*\<^sup>* demo_watch ?s" by (intro r_into_rtranclp wtick)
  have "\<forall>y \<in> set demo_registry. docker_tag y" by code_simp
  then have "length (reverts ?s) \<le> 1" using at_most_one_follow [OF r] by (simp add: demo_watch_def reverts_def)
  moreover have "length (reverts ?s) \<noteq> 0" by code_simp
  ultimately show ?thesis using r by (intro exI [of _ ?s]) linarith
qed

end
