(* ===== verification/Docker_Hygiene.thy ===== *)
theory Docker_Hygiene
  imports Managed_Databases Retention
begin

text \<open>
  What the program may remove from a Docker host, and what it refuses to share: orphaned containers and volumes
  (\<open>src/modules/maintenance\<close>), protected images (\<open>docker-manager/image-protection.ts\<close>), host ports
  (\<open>host-port\<close>) and routed domains (\<open>domain-conflict\<close>).

  The answers of the Docker engine are lists of records; an object of labels is the association list of its
  properties.  \<open>localeCompare\<close> orders by a collation key of the runtime, the argument \<open>collate\<close>.
\<close>

section \<open>Containers\<close>

record docker_container =
  ct_Id :: string
  ct_Names :: "string list"
  ct_Image :: string
  ct_State :: string
  ct_Labels :: "(string \<times> string) list"
  ct_PublicPorts :: "nat option list"

text \<open>\<open>s.replace(/^\//, '')\<close>.\<close>

definition drop_slash :: "string \<Rightarrow> string" where
  "drop_slash s = (case s of [] \<Rightarrow> [] | c # r \<Rightarrow> if c = CHR ''/'' then r else s)"

definition containerName :: "docker_container \<Rightarrow> string" where
  "containerName c = drop_slash (case ct_Names c of n # _ \<Rightarrow> n | [] \<Rightarrow> take 12 (ct_Id c))"

text \<open>A label as a condition: present and not empty.\<close>

definition label :: "docker_container \<Rightarrow> string \<Rightarrow> string" where
  "label c k = (case map_of (ct_Labels c) k of None \<Rightarrow> [] | Some v \<Rightarrow> v)"

datatype orphan_kind = OApplication | ODatabase | OCompanion | OCompose

record container_owner =
  ow_kind :: orphan_kind
  ow_id :: string
  ow_slug :: bool

record known_owners =
  kn_applications :: "string list"
  kn_databases :: "string list"
  kn_composeApps :: "string list"
  kn_composeSlugs :: "string list"

text \<open>\<open>/^[a-z0-9][a-z0-9-]*$/\<close>.\<close>

definition slug_ok :: "string \<Rightarrow> bool" where
  "slug_ok s \<longleftrightarrow> (case s of [] \<Rightarrow> False | c # r \<Rightarrow>
     (is_lower c \<or> is_digit c) \<and> list_all (\<lambda>x. is_lower x \<or> is_digit x \<or> x = CHR ''-'') r)"

definition ownerOf :: "docker_container \<Rightarrow> container_owner option" where
  "ownerOf c =
     (let comp = label c ''aoox.component'' in
      if label c ''com.docker.swarm.service.id'' \<noteq> [] \<or> label c ''com.docker.swarm.task.id'' \<noteq> [] then None
      else if comp = ''application'' \<and> label c ''aoox.application'' \<noteq> []
        then Some \<lparr>ow_kind = OApplication, ow_id = label c ''aoox.application'', ow_slug = False\<rparr>
      else if comp = ''database'' \<and> label c ''aoox.database'' \<noteq> []
        then Some \<lparr>ow_kind = ODatabase, ow_id = label c ''aoox.database'', ow_slug = False\<rparr>
      else if comp = ''companion'' \<and> label c ''aoox.companion'' \<noteq> []
        then Some \<lparr>ow_kind = OCompanion, ow_id = label c ''aoox.companion'', ow_slug = False\<rparr>
      else if comp = ''compose'' \<and> label c ''aoox.compose'' \<noteq> []
        then Some \<lparr>ow_kind = OCompose, ow_id = label c ''aoox.compose'', ow_slug = False\<rparr>
      else if comp \<noteq> [] then None
      else
        let project = label c ''com.docker.compose.project''; slug = drop 5 project;
            dir = label c ''com.docker.compose.project.working_dir'' in
        if \<not> starts_with ''aoox-'' project then None
        else if \<not> slug_ok slug then None
        else if \<not> str_includes dir (''/aoox_compose_'' @ slug @ ''/_data'') then None
        else Some \<lparr>ow_kind = OCompose, ow_id = slug, ow_slug = True\<rparr>)"

definition owner_exists :: "known_owners \<Rightarrow> container_owner \<Rightarrow> bool" where
  "owner_exists kn ow =
     (case ow_kind ow of
        OApplication \<Rightarrow> ow_id ow \<in> set (kn_applications kn)
      | ODatabase \<Rightarrow> ow_id ow \<in> set (kn_databases kn)
      | OCompanion \<Rightarrow> ow_id ow \<in> set (kn_databases kn)
      | OCompose \<Rightarrow> if ow_slug ow then ow_id ow \<in> set (kn_composeSlugs kn) else ow_id ow \<in> set (kn_composeApps kn))"

record orphan_container =
  oc_id :: string
  oc_name :: string
  oc_kind :: orphan_kind
  oc_image :: string
  oc_state :: string
  oc_ownerId :: string

fun orphan_loop :: "known_owners \<Rightarrow> docker_container list \<Rightarrow> orphan_container list" where
  "orphan_loop kn [] = []"
| "orphan_loop kn (c # cs) =
     (case ownerOf c of
        None \<Rightarrow> orphan_loop kn cs
      | Some ow \<Rightarrow>
          if owner_exists kn ow then orphan_loop kn cs
          else \<lparr>oc_id = ct_Id c, oc_name = containerName c, oc_kind = ow_kind ow, oc_image = ct_Image c, oc_state = ct_State c,
                oc_ownerId = ow_id ow\<rparr> # orphan_loop kn cs)"

definition orphanedContainers :: "(string \<Rightarrow> 'k :: linorder) \<Rightarrow> docker_container list \<Rightarrow> known_owners \<Rightarrow> orphan_container list" where
  "orphanedContainers collate cs kn = sort_key (collate \<circ> oc_name) (orphan_loop kn cs)"

section \<open>Rows\<close>

datatype mount_type = MVolume | MBind | MFile

record mount_row =
  mt_applicationId :: "string option"
  mt_databaseId :: "string option"
  mt_composeAppId :: "string option"
  mt_type :: mount_type
  mt_name :: "string option"
  mt_service :: "string option"

record app_row =
  ap_id :: string
  ap_appName :: string
  ap_hostPort :: "nat option"
  ap_currentImage :: "string option"
  ap_deploymentKeep :: nat

record stack_row =
  sk_id :: string
  sk_name :: string
  sk_slug :: string
  sk_servicePorts :: "nat list"

record companion_row =
  cp_databaseName :: string
  cp_hostPort :: "nat option"

record platform =
  pf_apps :: "app_row list"
  pf_dbs :: "managed_database list"
  pf_stacks :: "stack_row list"
  pf_mounts :: "mount_row list"
  pf_companions :: "companion_row list"

definition knownOwners :: "platform \<Rightarrow> known_owners" where
  "knownOwners p = \<lparr>kn_applications = map ap_id (pf_apps p), kn_databases = map db_id (pf_dbs p),
     kn_composeApps = map sk_id (pf_stacks p), kn_composeSlugs = map sk_slug (pf_stacks p)\<rparr>"

section \<open>Volumes\<close>

text \<open>\<open>s.replace(/-/g, '_')\<close>.\<close>

definition underscored :: "string \<Rightarrow> string" where
  "underscored s = map (\<lambda>c. if c = CHR ''-'' then CHR ''_'' else c) s"

datatype mount_owner = AppOwner string | DbOwner string | StackOwner string

definition owner_prefix :: "mount_owner \<Rightarrow> string" where
  "owner_prefix ow = ''aoox_'' @ underscored (case ow of AppOwner n \<Rightarrow> ''app_'' @ n | DbOwner s \<Rightarrow> ''db_'' @ s | StackOwner s \<Rightarrow> ''compose_'' @ s)"

definition volumeNameFor :: "mount_owner \<Rightarrow> mount_row \<Rightarrow> string" where
  "volumeNameFor ow m = owner_prefix ow @ ''_'' @
     (case mt_service m of None \<Rightarrow> [] | Some s \<Rightarrow> if s = [] then [] else underscored s @ ''_'') @
     underscored (case mt_name m of None \<Rightarrow> [] | Some n \<Rightarrow> n)"

definition filesVolumeFor :: "mount_owner \<Rightarrow> string" where
  "filesVolumeFor ow = owner_prefix ow @ ''_files''"

definition composeVolumeFor :: "stack_row \<Rightarrow> string" where
  "composeVolumeFor st = ''aoox_compose_'' @ underscored (sk_slug st)"

definition FIXED_VOLUMES :: "string list" where
  "FIXED_VOLUMES = [''aoox_buildkit'', ''aoox_proxy_acme'', ''aoox_proxy_certs'', ''aoox_registry_data'', ''aoox_registry_auth'',
     ''aoox_backups'', ''aoox_maintenance'']"

definition CANDIDATE_PREFIXES :: "string list" where
  "CANDIDATE_PREFIXES = [''aoox_app_'', ''aoox_db_'', ''aoox_compose_'']"

definition isCandidateVolume :: "string \<Rightarrow> bool" where
  "isCandidateVolume name \<longleftrightarrow> name \<in> set FIXED_VOLUMES \<or> list_ex (\<lambda>p. starts_with p name) CANDIDATE_PREFIXES"

definition given :: "string option \<Rightarrow> bool" where
  "given v \<longleftrightarrow> (case v of None \<Rightarrow> False | Some s \<Rightarrow> s \<noteq> [])"

text \<open>A \<open>Map\<close> built from the rows: the last row of an id wins.\<close>

definition row_by :: "('r \<Rightarrow> string) \<Rightarrow> 'r list \<Rightarrow> string \<Rightarrow> 'r option" where
  "row_by key rs k = find (\<lambda>r. key r = k) (rev rs)"

definition ownerFor :: "platform \<Rightarrow> mount_row \<Rightarrow> mount_owner option" where
  "ownerFor p m =
     (if given (mt_applicationId m) then map_option (\<lambda>a. AppOwner (ap_appName a)) (row_by ap_id (pf_apps p) (the (mt_applicationId m)))
      else if given (mt_databaseId m) then map_option (\<lambda>d. DbOwner (db_slug d)) (row_by db_id (pf_dbs p) (the (mt_databaseId m)))
      else if given (mt_composeAppId m) then map_option (\<lambda>c. StackOwner (sk_slug c)) (row_by sk_id (pf_stacks p) (the (mt_composeAppId m)))
      else None)"

definition mount_volumes :: "platform \<Rightarrow> mount_row \<Rightarrow> string list" where
  "mount_volumes p m =
     (case ownerFor p m of
        None \<Rightarrow> []
      | Some ow \<Rightarrow> (case mt_type m of MVolume \<Rightarrow> [volumeNameFor ow m] | MFile \<Rightarrow> [filesVolumeFor ow] | MBind \<Rightarrow> []))"

definition expectedVolumes :: "platform \<Rightarrow> string list" where
  "expectedVolumes p = FIXED_VOLUMES @ map volumeNameForDb (pf_dbs p) @ map composeVolumeFor (pf_stacks p) @ concat (map (mount_volumes p) (pf_mounts p))"

definition orphanedVolumes :: "string list \<Rightarrow> string list \<Rightarrow> string list" where
  "orphanedVolumes actual expected = filter (\<lambda>n. isCandidateVolume n \<and> n \<notin> set expected) actual"

record docker_volume =
  dv_Name :: string
  dv_Labels :: "(string \<times> string) list"
  dv_RefCount :: "int option"
  dv_Size :: "int option"

text \<open>\<open>/^aoox-([a-z0-9][a-z0-9_-]*)$/\<close>: the slug.\<close>

definition stack_project :: "string \<Rightarrow> string option" where
  "stack_project s = (if starts_with ''aoox-'' s then
       (case drop 5 s of [] \<Rightarrow> None
        | c # r \<Rightarrow> if (is_lower c \<or> is_digit c) \<and> list_all (\<lambda>x. is_lower x \<or> is_digit x \<or> x = CHR ''_'' \<or> x = CHR ''-'') r
            then Some (c # r) else None)
     else None)"

definition plain_volume_name :: "string \<Rightarrow> bool" where
  "plain_volume_name s \<longleftrightarrow> (case s of [] \<Rightarrow> False | c # r \<Rightarrow>
     (is_alpha c \<or> is_digit c) \<and> list_all (\<lambda>x. is_alpha x \<or> is_digit x \<or> x \<in> set ''_.-'') r)"

definition volume_label :: "docker_volume \<Rightarrow> string \<Rightarrow> string" where
  "volume_label v k = (case map_of (dv_Labels v) k of None \<Rightarrow> [] | Some x \<Rightarrow> x)"

definition orphan_compose_volume :: "string list \<Rightarrow> docker_volume \<Rightarrow> (string \<times> string) option" where
  "orphan_compose_volume liveSlugs v =
     (if volume_label v ''com.docker.compose.volume'' = [] then None
      else case stack_project (volume_label v ''com.docker.compose.project'') of
        None \<Rightarrow> None
      | Some stack \<Rightarrow>
          if stack \<in> set liveSlugs \<or> dv_RefCount v \<noteq> Some 0 \<or> \<not> plain_volume_name (dv_Name v) then None
          else Some (dv_Name v, stack))"

definition orphanedComposeVolumes :: "(string \<Rightarrow> 'k :: linorder) \<Rightarrow> docker_volume list \<Rightarrow> string list \<Rightarrow> (string \<times> string) list" where
  "orphanedComposeVolumes collate vs liveSlugs = sort_key (collate \<circ> fst) (List.map_filter (orphan_compose_volume liveSlugs) vs)"

definition anonymous_name :: "string \<Rightarrow> bool" where
  "anonymous_name s \<longleftrightarrow> length s = 64 \<and> list_all (\<lambda>c. is_digit c \<or> c \<in> set ''abcdef'') s"

definition danglingAnonymousVolumes :: "docker_volume list \<Rightarrow> nat \<times> int" where
  "danglingAnonymousVolumes vs =
     (let hit = filter (\<lambda>v. anonymous_name (dv_Name v) \<and> dv_RefCount v = Some 0) vs
      in (length hit, sum_list (map (\<lambda>v. max 0 (case dv_Size v of None \<Rightarrow> 0 | Some n \<Rightarrow> n)) hit)))"

section \<open>Clean-up\<close>

record deployment_row =
  dr_id :: string
  dr_applicationId :: string
  dr_success :: bool
  dr_imageRef :: "string option"
  dr_createdAt :: int

text \<open>The rows with an image of their own, newest first; those beyond the retention of the application.\<close>

definition prunableDeployments :: "app_row \<Rightarrow> deployment_row list \<Rightarrow> deployment_row list" where
  "prunableDeployments app rs =
     drop (max (ap_deploymentKeep app) 1)
       (filter (\<lambda>d. given (dr_imageRef d) \<and> dr_imageRef d \<noteq> ap_currentImage app)
         (newest_by dr_createdAt (filter (\<lambda>d. dr_applicationId d = ap_id app \<and> dr_success d) rs)))"

definition clear_image :: "string \<Rightarrow> deployment_row list \<Rightarrow> deployment_row list" where
  "clear_image did rs = map (\<lambda>d. if dr_id d = did then d\<lparr>dr_imageRef := None\<rparr> else d) rs"

text \<open>
  The loop of \<open>pruneApp\<close>: \<open>removed\<close> is its set, in order.  An image stays while a deployment of the application outside
  the pruned ones refers to it.
\<close>

fun prune_loop :: "app_row \<Rightarrow> string list \<Rightarrow> deployment_row list \<Rightarrow> string list \<Rightarrow> deployment_row list \<Rightarrow> string list \<times> deployment_row list" where
  "prune_loop app oldIds [] gone rs = (gone, rs)"
| "prune_loop app oldIds (d # ds) gone rs =
     (let ref = the (dr_imageRef d) in
      if ref \<in> set gone then prune_loop app oldIds ds gone (clear_image (dr_id d) rs)
      else
        let stillUsed = list_ex (\<lambda>r. dr_applicationId r = ap_id app \<and> dr_imageRef r = Some ref \<and> dr_id r \<notin> set oldIds) rs
        in prune_loop app oldIds ds (if stillUsed then gone else gone @ [ref]) (clear_image (dr_id d) rs))"

definition pruneApp :: "app_row \<Rightarrow> deployment_row list \<Rightarrow> string list \<times> deployment_row list" where
  "pruneApp app rs = (let old = prunableDeployments app rs in prune_loop app (map dr_id old) old [] rs)"

definition orphanVolumeNames :: "docker_volume list \<Rightarrow> platform \<Rightarrow> string list" where
  "orphanVolumeNames vs p = orphanedVolumes (map dv_Name vs) (expectedVolumes p)"

definition orphanContainerList :: "(string \<Rightarrow> 'k :: linorder) \<Rightarrow> docker_container list \<Rightarrow> platform \<Rightarrow> orphan_container list" where
  "orphanContainerList collate cs p = orphanedContainers collate cs (knownOwners p)"

record daemon =
  dm_containers :: "docker_container list"
  dm_volumes :: "docker_volume list"

text \<open>
  The parts of \<open>cleanup\<close> that remove volumes and containers; \<open>fails\<close> are the names whose removal throws, which are
  reported and skipped.
\<close>

definition cleanup_daemon ::
  "(string \<Rightarrow> 'k :: linorder) \<Rightarrow> (string \<Rightarrow> bool) \<Rightarrow> bool \<Rightarrow> bool \<Rightarrow> platform \<Rightarrow> daemon \<Rightarrow> daemon" where
  "cleanup_daemon collate fails pruneVolumes pruneContainers p dm =
     (let goneV = (if pruneVolumes then filter (\<lambda>n. \<not> fails n) (orphanVolumeNames (dm_volumes dm) p) else []);
          goneC = (if pruneContainers then map oc_id (filter (\<lambda>c. \<not> fails (oc_name c)) (orphanContainerList collate (dm_containers dm) p)) else [])
      in \<lparr>dm_containers = filter (\<lambda>c. ct_Id c \<notin> set goneC) (dm_containers dm),
          dm_volumes = filter (\<lambda>v. dv_Name v \<notin> set goneV) (dm_volumes dm)\<rparr>)"

definition removeOrphanContainer ::
  "(string \<Rightarrow> 'k :: linorder) \<Rightarrow> string \<Rightarrow> platform \<Rightarrow> daemon \<Rightarrow> (string, orphan_container \<times> daemon) res" where
  "removeOrphanContainer collate cid p dm =
     (let wanted = toLowerCase cid in
      case find (\<lambda>c. oc_id c = wanted \<or> (12 \<le> length wanted \<and> starts_with wanted (oc_id c))) (orphanContainerList collate (dm_containers dm) p) of
        None \<Rightarrow> Inl (NotFound ''No such orphan container'')
      | Some m \<Rightarrow> Inr (m, dm\<lparr>dm_containers := filter (\<lambda>c. ct_Id c \<noteq> oc_id m) (dm_containers dm)\<rparr>))"

end
