(* ===== verification/Docker_Sharing.thy ===== *)
theory Docker_Sharing
  imports Docker_Hygiene
begin

text \<open>
  What must not be shared or taken away: host ports (\<open>src/modules/host-port\<close>), routed domains
  (\<open>domain-conflict\<close>) and images still needed (\<open>docker-manager/image-protection.ts\<close> and its service).
\<close>

section \<open>Host ports\<close>

record port_options =
  excludeApplicationId :: "string option"
  excludeComposeAppId :: "string option"
  isOwnContainer :: "docker_container \<Rightarrow> bool"

definition no_options :: port_options where
  "no_options = \<lparr>excludeApplicationId = None, excludeComposeAppId = None, isOwnContainer = (\<lambda>_. False)\<rparr>"

record port_data =
  pd_apps :: "(string \<times> string \<times> nat) list"
  pd_dbs :: "(string \<times> nat) list"
  pd_stacks :: "stack_row list"
  pd_containers :: "docker_container list"
  pd_companions :: "(string \<times> nat) list"

text \<open>\<open>`${port} (${kind} ${name})`\<close>.\<close>

definition taken_by :: "nat \<Rightarrow> string \<Rightarrow> string \<Rightarrow> string" where
  "taken_by p kind name = nat_str p @ '' ('' @ kind @ '' '' @ name @ '')''"

definition hostPortConflicts :: "nat list \<Rightarrow> port_data \<Rightarrow> port_options \<Rightarrow> string list" where
  "hostPortConflicts ports data opts =
     (if ports = [] then []
      else nub (
        concat (map (\<lambda>(i, n, p). if Some i = excludeApplicationId opts then [] else if p \<in> set ports then [taken_by p ''application'' n] else []) (pd_apps data)) @
        concat (map (\<lambda>(n, p). if p \<in> set ports then [taken_by p ''database'' n] else []) (pd_dbs data)) @
        concat (map (\<lambda>(n, p). if p \<in> set ports then [taken_by p ''admin database'' n] else []) (pd_companions data)) @
        concat (map (\<lambda>s. if Some (sk_id s) = excludeComposeAppId opts then []
          else concat (map (\<lambda>p. if p \<in> set ports then [taken_by p ''stack'' (sk_name s)] else []) (sk_servicePorts s))) (pd_stacks data)) @
        concat (map (\<lambda>c. if isOwnContainer opts c then []
          else concat (map (\<lambda>q. case q of None \<Rightarrow> [] | Some p \<Rightarrow>
            if p \<noteq> 0 \<and> p \<in> set ports then [taken_by p ''container'' (containerName c)] else []) (ct_PublicPorts c))) (pd_containers data))))"

datatype port_reason = PortsTaken "string list" | PortTwice nat

text \<open>
  \<open>where: uniquePorts.map(...)\<close> selects the rows with one of the ports; a daemon that cannot be reached counts as
  having no containers.
\<close>

definition with_port :: "nat list \<Rightarrow> ('r \<Rightarrow> nat option) \<Rightarrow> 'r list \<Rightarrow> ('r \<times> nat) list" where
  "with_port ports prt rs = List.map_filter (\<lambda>r. case prt r of Some p \<Rightarrow> if p \<in> set ports then Some (r, p) else None | None \<Rightarrow> None) rs"

definition assertFree :: "nat list \<Rightarrow> docker_container list option \<Rightarrow> port_options \<Rightarrow> platform \<Rightarrow> (port_reason, unit) res" where
  "assertFree ports0 containers opts p =
     (let ports = nub ports0;
          conflicts = hostPortConflicts ports
            \<lparr>pd_apps = map (\<lambda>(a, q). (ap_id a, ap_appName a, q)) (with_port ports ap_hostPort (pf_apps p)),
             pd_dbs = map (\<lambda>(d, q). (db_name d, q)) (with_port ports hostPort (pf_dbs p)),
             pd_stacks = pf_stacks p,
             pd_containers = (case containers of None \<Rightarrow> [] | Some cs \<Rightarrow> cs),
             pd_companions = map (\<lambda>(c, q). (cp_databaseName c, q)) (with_port ports cp_hostPort (pf_companions p))\<rparr> opts
      in if ports = [] then Inr ()
         else if conflicts \<noteq> [] then Inl (BadRequest (PortsTaken conflicts)) else Inr ())"

fun first_duplicate :: "nat list \<Rightarrow> nat list \<Rightarrow> nat option" where
  "first_duplicate seen [] = None"
| "first_duplicate seen (x # xs) = (if x \<in> set seen then Some x else first_duplicate (seen @ [x]) xs)"

definition assertHostPortsFree :: "stack_row \<Rightarrow> docker_container list option \<Rightarrow> platform \<Rightarrow> (port_reason, unit) res" where
  "assertHostPortsFree app containers p =
     (case first_duplicate [] (sk_servicePorts app) of
        Some x \<Rightarrow> Inl (BadRequest (PortTwice x))
      | None \<Rightarrow> assertFree (sk_servicePorts app) containers
          (no_options\<lparr>excludeComposeAppId := Some (sk_id app),
             isOwnContainer := (\<lambda>c. map_of (ct_Labels c) ''com.docker.compose.project'' = Some (''aoox-'' @ sk_slug app))\<rparr>) p)"

section \<open>Routed domains\<close>

definition is_quote :: "char \<Rightarrow> bool" where
  "is_quote c \<longleftrightarrow> c \<in> {CHR 0x60, CHR 0x22, CHR 0x27}"

text \<open>One quoted item with its optional comma: the text and the rest.\<close>

definition rule_item :: "string \<Rightarrow> (string \<times> string) option" where
  "rule_item s = (case s of [] \<Rightarrow> None
     | q # r \<Rightarrow>
         if \<not> is_quote q then None
         else let w = takeWhile (\<lambda>c. \<not> is_quote c) r; z = dropWhile (\<lambda>c. \<not> is_quote c) r in
           if z = [] then None
           else let t = dropWhile js_ws (tl z); u = (if t \<noteq> [] \<and> hd t = CHR '','' then tl t else t)
             in Some (w, dropWhile js_ws u))"

lemma rule_item_shorter: "rule_item s = Some (w, r) \<Longrightarrow> length r < length s"
proof (cases s)
  case (Cons q t)
  assume "rule_item s = Some (w, r)"
  then have r: "dropWhile (\<lambda>c. \<not> is_quote c) t \<noteq> []"
    "r = dropWhile js_ws (let u = dropWhile js_ws (tl (dropWhile (\<lambda>c. \<not> is_quote c) t)) in if u \<noteq> [] \<and> hd u = CHR '','' then tl u else u)"
    by (auto simp: rule_item_def Cons Let_def split: if_splits)
  let ?u = "dropWhile js_ws (tl (dropWhile (\<lambda>c. \<not> is_quote c) t))"
  have "length r \<le> length ?u" using r(2) length_dropWhile_le [of js_ws ?u] length_dropWhile_le [of js_ws "tl ?u"]
    by (auto simp: Let_def split: if_splits)
  also have "\<dots> \<le> length (tl (dropWhile (\<lambda>c. \<not> is_quote c) t))" by (rule length_dropWhile_le)
  also have "\<dots> \<le> length t" using length_dropWhile_le [of "\<lambda>c. \<not> is_quote c" t] by simp
  finally show ?thesis by (simp add: Cons)
qed (simp add: rule_item_def)

text \<open>The items of one call, up to the first text that is no item.\<close>

function rule_items :: "string \<Rightarrow> string list \<times> string" where
  "rule_items s = (case rule_item s of None \<Rightarrow> ([], s) | Some (w, r) \<Rightarrow> (let (ws, z) = rule_items r in (w # ws, z)))"
  by pat_completeness auto
termination
  by (relation "measure length") (auto dest: rule_item_shorter)

declare rule_items.simps [simp del]

text \<open>\<open>Host(\s*(items)\)\<close> at the front of the text.\<close>

definition host_call :: "string \<Rightarrow> (string list \<times> string) option" where
  "host_call s =
     (if toLowerCase (take 5 s) = ''host('' then
        (let (ws, z) = rule_items (dropWhile js_ws (drop 5 s)) in
         if ws \<noteq> [] \<and> z \<noteq> [] \<and> hd z = CHR '')'' then Some (ws, tl z) else None)
      else None)"

lemma rule_items_length: "rule_items s = (ws, z) \<Longrightarrow> length z \<le> length s"
proof (induction s arbitrary: ws z rule: rule_items.induct)
  case (1 s)
  then show ?case
    by (fastforce simp: rule_items.simps [of s] split: option.splits prod.splits dest: rule_item_shorter)
qed

lemma host_call_shorter: "host_call s = Some (ws, z) \<Longrightarrow> length z < length s"
proof -
  assume "host_call s = Some (ws, z)"
  then obtain y where y: "toLowerCase (take 5 s) = ''host(''" "rule_items (dropWhile js_ws (drop 5 s)) = (ws, y)" "y \<noteq> []" "z = tl y"
    by (auto simp: host_call_def split: if_splits prod.splits)
  have "s \<noteq> []" using y(1) by (auto simp: toLowerCase_def)
  have "length y \<le> length (dropWhile js_ws (drop 5 s))" using rule_items_length [OF y(2)] .
  also have "\<dots> \<le> length (drop 5 s)" by (rule length_dropWhile_le)
  finally show ?thesis using y(3,4) \<open>s \<noteq> []\<close> by (cases y) auto
qed

function hosts_from :: "string \<Rightarrow> string list" where
  "hosts_from [] = []"
| "hosts_from (c # r) =
     (case host_call (c # r) of
        Some (ws, z) \<Rightarrow> filter (\<lambda>h. h \<noteq> []) (map (\<lambda>w. toLowerCase (trim w)) ws) @ hosts_from z
      | None \<Rightarrow> hosts_from r)"
  by pat_completeness auto
termination
  by (relation "measure length") (auto dest: host_call_shorter)

definition hostsInRule :: "string \<Rightarrow> string list" where
  "hostsInRule rule = hosts_from rule"

text \<open>\<open>/^traefik\.http\.routers\.[^.]+\.rule$/\<close>.\<close>

definition router_rule :: "string \<Rightarrow> bool" where
  "router_rule k \<longleftrightarrow> starts_with ''traefik.http.routers.'' k \<and>
     (let r = drop 21 k; n = takeWhile (\<lambda>c. c \<noteq> CHR ''.'') r in n \<noteq> [] \<and> dropWhile (\<lambda>c. c \<noteq> CHR ''.'') r = ''.rule'')"

definition routedHosts :: "(string \<times> string) list \<Rightarrow> string list" where
  "routedHosts labels = nub (concat (map (\<lambda>(k, v). if router_rule k then hostsInRule v else []) labels))"

definition SERVING :: "string list" where
  "SERVING = [''running'', ''restarting'', ''paused'']"

text \<open>One container against all wanted hosts; a host wanted twice gets it twice.\<close>

definition claim_step :: "string list \<Rightarrow> (docker_container \<Rightarrow> bool) \<Rightarrow> (string, docker_container list) jsmap \<Rightarrow> docker_container \<Rightarrow> (string, docker_container list) jsmap" where
  "claim_step wanted isOwn m c =
     (if ct_State c \<notin> set SERVING \<or> isOwn c then m
      else foldl (\<lambda>m h. if h \<in> set (routedHosts (ct_Labels c)) then AList.update h (the (map_of m h) @ [c]) m else m) m wanted)"

definition claimsOnHosts :: "docker_container list \<Rightarrow> string list \<Rightarrow> (docker_container \<Rightarrow> bool) \<Rightarrow> (string, docker_container list) jsmap" where
  "claimsOnHosts cs hosts isOwn =
     (let wanted = map toLowerCase hosts
      in foldl (claim_step wanted isOwn) (map_of_entries (map (\<lambda>h. (h, [])) wanted)) cs)"

record domain_conflict =
  dc_containerName :: string
  dc_containerId :: string
  dc_orphan :: bool

definition own_container :: "app_row \<Rightarrow> docker_container \<Rightarrow> bool" where
  "own_container app c \<longleftrightarrow> map_of (ct_Labels c) ''aoox.application'' = Some (ap_id app) \<or>
     containerName c = ''aoox-app-'' @ ap_appName app \<or> containerName c = ''aoox-app-'' @ ap_appName app @ ''-next''"

text \<open>\<open>None\<close> is a daemon that cannot be reached.\<close>

definition find_conflicts ::
  "(string \<Rightarrow> 'k :: linorder) \<Rightarrow> docker_container list option \<Rightarrow> app_row \<Rightarrow> string list \<Rightarrow> bool \<Rightarrow> platform \<Rightarrow> (string, domain_conflict list) jsmap" where
  "find_conflicts collate containers app hosts local p =
     (let none = map_of_entries (map (\<lambda>h. (toLowerCase h, [])) hosts) in
      case (hosts, containers) of
        (_ # _, Some cs) \<Rightarrow>
          let claims = claimsOnHosts cs hosts (own_container app);
              orphanIds = (if local \<and> list_ex (\<lambda>(h, l). l \<noteq> []) claims then map oc_id (orphanedContainers collate cs (knownOwners p)) else [])
          in foldl (\<lambda>m (h, l). AList.update h (map (\<lambda>c. \<lparr>dc_containerName = containerName c, dc_containerId = ct_Id c, dc_orphan = (ct_Id c \<in> set orphanIds)\<rparr>) l) m) none claims
      | _ \<Rightarrow> none)"

section \<open>Images still needed\<close>

record parsed_image_ref =
  pi_name :: string
  pi_tag :: "string option"
  pi_digest :: "string option"

record image_like =
  im_Id :: string
  im_RepoTags :: "string list"
  im_RepoDigests :: "string list"

datatype ref_kind = RefApplication | RefDeployment | RefPreview

record protection_sources =
  registryHosts :: "string list"
  prot_refs :: "(string \<times> ref_kind) list"

definition HUB_HOSTS :: "string list" where
  "HUB_HOSTS = [''docker.io'', ''index.docker.io'', ''registry-1.docker.io'']"

definition looksLikeHost :: "string \<Rightarrow> bool" where
  "looksLikeHost part \<longleftrightarrow> CHR ''.'' \<in> set part \<or> CHR '':'' \<in> set part \<or> part = ''localhost''"

fun join_slash :: "string list \<Rightarrow> string" where
  "join_slash [] = []"
| "join_slash [x] = x"
| "join_slash (x # xs) = x @ ''/'' @ join_slash xs"

text \<open>\<open>lastIndexOf(':') > lastIndexOf('/')\<close>: the last of the two characters is a colon.\<close>

definition split_tag :: "string \<Rightarrow> string \<times> string option" where
  "split_tag s =
     (let t = takeWhile (\<lambda>c. c \<noteq> CHR '':'' \<and> c \<noteq> CHR ''/'') (rev s); r = dropWhile (\<lambda>c. c \<noteq> CHR '':'' \<and> c \<noteq> CHR ''/'') (rev s) in
      if r \<noteq> [] \<and> hd r = CHR '':'' then (rev (tl r), Some (rev t)) else (s, None))"

definition parse_image_ref :: "string \<Rightarrow> parsed_image_ref option" where
  "parse_image_ref ref =
     (let rest = trim ref in
      if rest = [] \<or> list_ex js_ws rest then None
      else
        let (rest1, dig) = (case index_of (CHR ''@'') rest of
              Some at \<Rightarrow> (take at rest, Some (toLowerCase (drop (at + 1) rest))) | None \<Rightarrow> (rest, None));
            (rest2, tag) = split_tag rest1
        in if rest2 = [] then None
           else
             let parts = split_on (CHR ''/'') rest2;
                 named = (1 < length parts \<and> looksLikeHost (hd parts));
                 host0 = (if named then toLowerCase (hd parts) else ''docker.io'');
                 host = (if named \<and> host0 \<in> set HUB_HOSTS then ''docker.io'' else host0);
                 parts1 = (if named then tl parts else parts);
                 parts2 = (if host = ''docker.io'' \<and> length parts1 = 1 then ''library'' # parts1 else parts1);
                 tag1 = (if \<not> given tag \<and> \<not> given dig then Some ''latest'' else tag)
             in Some \<lparr>pi_name = host @ ''/'' @ join_slash parts2, pi_tag = tag1, pi_digest = dig\<rparr>)"

definition registryHostOf :: "string \<Rightarrow> string option" where
  "registryHostOf tag =
     (case parse_image_ref tag of
        None \<Rightarrow> None
      | Some q \<Rightarrow> let host = hd (split_on (CHR ''/'') (pi_name q)) in if host = ''docker.io'' then None else Some host)"

text \<open>\<open>/^[a-z]+:\/\//i\<close> and \<open>/\/.*$/\<close> removed, in lower case.\<close>

definition normalizeRegistryHost :: "string \<Rightarrow> string" where
  "normalizeRegistryHost u =
     (let t = trim u; r = dropWhile is_alpha t;
          a = (if r \<noteq> t \<and> starts_with ''://'' r then drop 3 r else t)
      in toLowerCase (takeWhile (\<lambda>c. c \<noteq> CHR ''/'') a))"

definition strip_sha :: "string \<Rightarrow> string" where
  "strip_sha s = (if starts_with ''sha256:'' s then drop 7 s else s)"

definition IMAGE_ID :: "string \<Rightarrow> bool" where
  "IMAGE_ID s \<longleftrightarrow> (let h = strip_sha s in 12 \<le> length h \<and> length h \<le> 64 \<and> list_all (\<lambda>c. is_digit c \<or> c \<in> set ''abcdef'') h)"

definition imageMatchesRef :: "image_like \<Rightarrow> string \<Rightarrow> bool" where
  "imageMatchesRef img ref =
     (if IMAGE_ID ref then starts_with (strip_sha ref) (strip_sha (im_Id img))
      else case parse_image_ref ref of
        None \<Rightarrow> False
      | Some w \<Rightarrow>
          (given (pi_tag w) \<and> list_ex (\<lambda>t. case parse_image_ref t of None \<Rightarrow> False
              | Some h \<Rightarrow> pi_name h = pi_name w \<and> pi_tag h = pi_tag w) (im_RepoTags img)) \<or>
          (given (pi_digest w) \<and> list_ex (\<lambda>d. case parse_image_ref d of None \<Rightarrow> False
              | Some h \<Rightarrow> pi_name h = pi_name w \<and> pi_digest h = pi_digest w) (im_RepoDigests img)))"

datatype protection = LocalRegistry string | StillReferenced ref_kind string

definition protectionReason :: "image_like \<Rightarrow> protection_sources \<Rightarrow> bool \<Rightarrow> protection option" where
  "protectionReason img src localRegistry =
     (case (if localRegistry then List.map_filter (\<lambda>t. case registryHostOf t of
              Some h \<Rightarrow> if h \<noteq> [] \<and> h \<in> set (registryHosts src) then Some h else None | None \<Rightarrow> None) (im_RepoTags img) else []) of
        h # _ \<Rightarrow> Some (LocalRegistry h)
      | [] \<Rightarrow> map_option (\<lambda>(r, k). StillReferenced k r) (find (\<lambda>(r, k). imageMatchesRef img r) (prot_refs src)))"

end
