(* ===== verification/Docker_Laws.thy ===== *)
theory Docker_Laws
  imports Docker_Sharing
begin

text \<open>
  Clean-ups remove nothing a row still needs, a port is granted exactly when nobody has it, and the containers reported
  for a domain are those that route it.
\<close>

section \<open>Orphaned containers\<close>

lemma set_orphan_loop:
  "o1 \<in> set (orphan_loop kn cs) \<longleftrightarrow> (\<exists>c \<in> set cs. \<exists>ow. ownerOf c = Some ow \<and> \<not> owner_exists kn ow \<and>
     o1 = \<lparr>oc_id = ct_Id c, oc_name = containerName c, oc_kind = ow_kind ow, oc_image = ct_Image c, oc_state = ct_State c, oc_ownerId = ow_id ow\<rparr>)"
  by (induction cs) (auto split: option.splits)

definition orphaned :: "platform \<Rightarrow> docker_container \<Rightarrow> bool" where
  "orphaned p c \<longleftrightarrow> (\<exists>ow. ownerOf c = Some ow \<and> \<not> owner_exists (knownOwners p) ow)"

lemma orphan_ids: "x \<in> set (orphanContainerList collate cs p) \<Longrightarrow> \<exists>c \<in> set cs. ct_Id c = oc_id x \<and> orphaned p c"
  by (auto simp: orphanContainerList_def orphanedContainers_def set_orphan_loop orphaned_def)

lemma unique_container: "distinct (map ct_Id cs) \<Longrightarrow> c \<in> set cs \<Longrightarrow> c' \<in> set cs \<Longrightarrow> ct_Id c = ct_Id c' \<Longrightarrow> c = c'"
  by (metis distinct_map inj_onD)

section \<open>Orphaned volumes\<close>

text \<open>A volume some row still needs, and one outside the program's families of names.\<close>

definition needed_volume :: "platform \<Rightarrow> string \<Rightarrow> bool" where
  "needed_volume p n \<longleftrightarrow> n \<in> set FIXED_VOLUMES \<or> (\<exists>d \<in> set (pf_dbs p). n = volumeNameForDb d) \<or>
     (\<exists>s \<in> set (pf_stacks p). n = composeVolumeFor s) \<or>
     (\<exists>m \<in> set (pf_mounts p). \<exists>ow. ownerFor p m = Some ow \<and>
        (mt_type m = MVolume \<and> n = volumeNameFor ow m \<or> mt_type m = MFile \<and> n = filesVolumeFor ow))"

lemma mount_volumes_iff:
  "n \<in> set (mount_volumes p m) \<longleftrightarrow> (\<exists>ow. ownerFor p m = Some ow \<and>
     (mt_type m = MVolume \<and> n = volumeNameFor ow m \<or> mt_type m = MFile \<and> n = filesVolumeFor ow))"
  by (cases "ownerFor p m"; cases "mt_type m") (simp_all add: mount_volumes_def)

lemma expectedVolumes_iff: "n \<in> set (expectedVolumes p) \<longleftrightarrow> needed_volume p n"
  by (simp add: expectedVolumes_def needed_volume_def image_iff mount_volumes_iff)

lemma orphanVolumeNames_iff:
  "n \<in> set (orphanVolumeNames vs p) \<longleftrightarrow> n \<in> dv_Name ` set vs \<and> isCandidateVolume n \<and> \<not> needed_volume p n"
  by (auto simp: orphanVolumeNames_def orphanedVolumes_def expectedVolumes_iff)

lemma panel_volume_no_candidate: "\<not> isCandidateVolume ''aoox_postgres_data''"
  by code_simp


definition demo_container :: "string \<Rightarrow> (string \<times> string) list \<Rightarrow> docker_container" where
  "demo_container i ls = \<lparr>ct_Id = i, ct_Names = [''/'' @ i], ct_Image = ''img'', ct_State = ''running'', ct_Labels = ls, ct_PublicPorts = []\<rparr>"

definition demo_platform :: platform where
  "demo_platform = \<lparr>pf_apps = [\<lparr>ap_id = ''live'', ap_appName = ''shop'', ap_hostPort = Some 80, ap_currentImage = Some ''i3'', ap_deploymentKeep = 1\<rparr>],
     pf_dbs = [], pf_stacks = [], pf_mounts = [], pf_companions = []\<rparr>"

definition demo_daemon :: daemon where
  "demo_daemon = \<lparr>dm_containers = [demo_container ''a'' [(''aoox.component'', ''application''), (''aoox.application'', ''live'')],
       demo_container ''b'' [(''aoox.component'', ''application''), (''aoox.application'', ''gone'')]],
     dm_volumes = [\<lparr>dv_Name = ''aoox_backups'', dv_Labels = [], dv_RefCount = None, dv_Size = None\<rparr>,
       \<lparr>dv_Name = ''aoox_app_gone_data'', dv_Labels = [], dv_RefCount = None, dv_Size = None\<rparr>]\<rparr>"


text \<open>Removing one orphan by its id removes an orphan or nothing.\<close>

lemma removeOrphanContainer_safe:
  assumes "removeOrphanContainer collate cid p dm = Inr (m, dm')" and "distinct (map ct_Id (dm_containers dm))"
  shows "\<exists>c \<in> set (dm_containers dm). orphaned p c \<and> ct_Id c = oc_id m \<and> set (dm_containers dm') = set (dm_containers dm) - {c} \<and>
    dm_volumes dm' = dm_volumes dm"
proof -
  have m: "m \<in> set (orphanContainerList collate (dm_containers dm) p)" and dm': "dm' = dm\<lparr>dm_containers := filter (\<lambda>c. ct_Id c \<noteq> oc_id m) (dm_containers dm)\<rparr>"
    using assms(1) by (auto simp: removeOrphanContainer_def Let_def split: option.splits dest: find_SomeD)
  obtain c where "c \<in> set (dm_containers dm)" "ct_Id c = oc_id m" "orphaned p c" using orphan_ids [OF m] by blast
  then show ?thesis using unique_container [OF assms(2)] by (auto simp: dm' intro!: bexI [of _ c])
qed

text \<open>
  A container of a deleted stack that carries no label of the program is recognised by its working directory, the
  mountpoint of the stack's volume.  The volume is named with underscores but looked for with the slug's own hyphens:
  the container of a stack whose slug has one (every generated slug ends in a hyphen and a suffix) is never recognised.
\<close>

lemma starts_with_set: "starts_with t s \<Longrightarrow> set t \<subseteq> set s"
  by (metis set_take_subset starts_with_def)

lemma str_includes_set: "str_includes s t \<Longrightarrow> set t \<subseteq> set s"
  by (induction s) (use starts_with_set in fastforce)+

lemma str_includes_misses: "x \<notin> set s \<Longrightarrow> x \<in> set t \<Longrightarrow> \<not> str_includes s t"
  using str_includes_set by fast

lemma hyphen_slug_unrecognised:
  assumes "CHR ''-'' \<in> set (sk_slug st)" and "CHR ''-'' \<notin> set root" and "label c ''aoox.component'' = []"
    and "label c ''com.docker.compose.project'' = ''aoox-'' @ sk_slug st"
    and "label c ''com.docker.compose.project.working_dir'' = root @ ''/'' @ composeVolumeFor st @ ''/_data''"
  shows "ownerOf c = None"
proof -
  have "CHR ''-'' \<notin> set (root @ ''/'' @ composeVolumeFor st @ ''/_data'')"
    using assms(2) by (auto simp: composeVolumeFor_def underscored_def)
  then have "\<not> str_includes (root @ ''/'' @ composeVolumeFor st @ ''/_data'') (''/aoox_compose_'' @ sk_slug st @ ''/_data'')"
    by (rule str_includes_misses) (simp add: assms(1))
  then show ?thesis using assms(3-5) by (simp add: ownerOf_def Let_def)
qed

section \<open>Images of old deployments\<close>

lemma prune_loop_rows:
  "snd (prune_loop app ids ds gone rs) = map (\<lambda>d. if dr_id d \<in> dr_id ` set ds then d\<lparr>dr_imageRef := None\<rparr> else d) rs"
  by (induction ds arbitrary: gone rs) (simp_all add: Let_def clear_image_def)

definition kept_user :: "app_row \<Rightarrow> string list \<Rightarrow> string \<Rightarrow> deployment_row \<Rightarrow> bool" where
  "kept_user app ids ref r \<longleftrightarrow> dr_applicationId r = ap_id app \<and> dr_imageRef r = Some ref \<and> dr_id r \<notin> set ids"

lemma kept_user_clear:
  "i \<in> set ids \<Longrightarrow> (\<exists>r \<in> set (clear_image i rs). kept_user app ids ref r) \<longleftrightarrow> (\<exists>r \<in> set rs. kept_user app ids ref r)"
  by (force simp: clear_image_def kept_user_def)

lemma prune_loop_gone:
  "set (map dr_id ds) \<subseteq> set ids \<Longrightarrow> list_all (\<lambda>d. dr_imageRef d \<noteq> None) ds \<Longrightarrow>
   ref \<in> set (fst (prune_loop app ids ds gone rs)) \<Longrightarrow>
   ref \<in> set gone \<or> (\<exists>d \<in> set ds. dr_imageRef d = Some ref) \<and> \<not> (\<exists>r \<in> set rs. kept_user app ids ref r)"
proof (induction ds arbitrary: gone rs)
  case (Cons d ds)
  have user: "list_ex (\<lambda>r. dr_applicationId r = ap_id app \<and> dr_imageRef r = Some x \<and> dr_id r \<notin> set ids) rs \<longleftrightarrow>
      (\<exists>r \<in> set rs. kept_user app ids x r)" for x
    by (simp add: list_ex_iff kept_user_def)
  define g' where "g' = (if the (dr_imageRef d) \<in> set gone \<or> (\<exists>r \<in> set rs. kept_user app ids (the (dr_imageRef d)) r) then gone
    else gone @ [the (dr_imageRef d)])"
  have g': "fst (prune_loop app ids (d # ds) gone rs) = fst (prune_loop app ids ds g' (clear_image (dr_id d) rs))"
    "\<And>x. x \<in> set g' \<Longrightarrow> x \<in> set gone \<or> dr_imageRef d = Some x \<and> \<not> (\<exists>r \<in> set rs. kept_user app ids x r)"
    using Cons.prems(2) by (auto simp: Let_def user g'_def split: if_splits)
  have "ref \<in> set g' \<or> (\<exists>d \<in> set ds. dr_imageRef d = Some ref) \<and> \<not> (\<exists>r \<in> set (clear_image (dr_id d) rs). kept_user app ids ref r)"
    using Cons.prems g'(1) by (intro Cons.IH) auto
  then show ?case using g'(2) [of ref] kept_user_clear [of "dr_id d" ids rs app ref] Cons.prems(1) by auto
qed simp

lemma prunable_props:
  assumes "d \<in> set (prunableDeployments app rs)"
  shows "d \<in> set rs" and "dr_imageRef d \<noteq> None" and "dr_imageRef d \<noteq> ap_currentImage app"
  using in_set_dropD [OF assms [unfolded prunableDeployments_def]] by (auto simp: given_def newest_by_def split: option.splits)


definition demo_rollbacks :: app_row where
  "demo_rollbacks = \<lparr>ap_id = ''a'', ap_appName = ''shop'', ap_hostPort = None, ap_currentImage = Some ''i4'', ap_deploymentKeep = 1\<rparr>"

definition demo_deployments :: "deployment_row list" where
  "demo_deployments = map (\<lambda>(i, img, t). \<lparr>dr_id = i, dr_applicationId = ''a'', dr_success = True, dr_imageRef = Some img, dr_createdAt = t\<rparr>)
     [(''d1'', ''i1'', 1), (''d2'', ''i2'', 2), (''d3'', ''i1'', 3), (''d4'', ''i4'', 4)]"

lemma demo_prune: "fst (pruneApp demo_rollbacks demo_deployments) = [''i2'']"
  by code_simp


section \<open>Host ports\<close>

text \<open>Who has a port: an application, a database, a companion, another stack, or a container that is not its own.\<close>

definition port_taken :: "docker_container list option \<Rightarrow> port_options \<Rightarrow> platform \<Rightarrow> nat \<Rightarrow> bool" where
  "port_taken cs opts p q \<longleftrightarrow>
     (\<exists>a \<in> set (pf_apps p). ap_hostPort a = Some q \<and> Some (ap_id a) \<noteq> excludeApplicationId opts) \<or>
     (\<exists>d \<in> set (pf_dbs p). hostPort d = Some q) \<or>
     (\<exists>c \<in> set (pf_companions p). cp_hostPort c = Some q) \<or>
     (\<exists>s \<in> set (pf_stacks p). q \<in> set (sk_servicePorts s) \<and> Some (sk_id s) \<noteq> excludeComposeAppId opts) \<or>
     (\<exists>l c. cs = Some l \<and> c \<in> set l \<and> Some q \<in> set (ct_PublicPorts c) \<and> q \<noteq> 0 \<and> \<not> isOwnContainer opts c)"

lemma set_with_port: "(r, q) \<in> set (with_port ports prt rs) \<longleftrightarrow> r \<in> set rs \<and> prt r = Some q \<and> q \<in> set ports"
  by (induction rs) (auto simp: with_port_def List.map_filter_simps split: option.splits)

lemma concat_nil: "concat (map f xs) = [] \<longleftrightarrow> (\<forall>x \<in> set xs. f x = [])"
  by (induction xs) auto

lemma nub_nil: "nub xs = [] \<longleftrightarrow> xs = []"
  by (cases xs) auto

lemma with_port_all:
  "(\<forall>x \<in> set (map f (with_port ports prt rs)). P x) \<longleftrightarrow> (\<forall>r \<in> set rs. \<forall>q \<in> set ports. prt r = Some q \<longrightarrow> P (f (r, q)))"
  by (auto simp: set_with_port)

lemma hostPortConflicts_nil:
  assumes "ports \<noteq> []"
  shows "hostPortConflicts ports data opts = [] \<longleftrightarrow>
    (\<forall>(i, n, q) \<in> set (pd_apps data). Some i = excludeApplicationId opts \<or> q \<notin> set ports) \<and>
    (\<forall>(n, q) \<in> set (pd_dbs data). q \<notin> set ports) \<and> (\<forall>(n, q) \<in> set (pd_companions data). q \<notin> set ports) \<and>
    (\<forall>s \<in> set (pd_stacks data). Some (sk_id s) = excludeComposeAppId opts \<or> (\<forall>q \<in> set (sk_servicePorts s). q \<notin> set ports)) \<and>
    (\<forall>c \<in> set (pd_containers data). isOwnContainer opts c \<or> (\<forall>q. Some q \<in> set (ct_PublicPorts c) \<longrightarrow> q = 0 \<or> q \<notin> set ports))"
proof -
  have one: "(if a then [] else if b then [x :: string] else []) = [] \<longleftrightarrow> (b \<longrightarrow> a)" "(if b then [x] else []) = [] \<longleftrightarrow> \<not> b"
    "(if a then [] else ys) = [] \<longleftrightarrow> a \<or> ys = []" for a b x and ys :: "string list"
    by auto
  have opt: "(\<forall>q \<in> set l. (case q of None \<Rightarrow> [] | Some r \<Rightarrow> if r \<noteq> 0 \<and> r \<in> set ports then [f r] else []) = ([] :: string list)) \<longleftrightarrow>
      (\<forall>q. Some q \<in> set l \<longrightarrow> q = 0 \<or> q \<notin> set ports)" for l f
    by (auto split: option.splits)
  show ?thesis
    unfolding hostPortConflicts_def if_not_P [OF assms] nub_nil append_is_Nil_conv concat_nil split_beta one opt by (rule refl)
qed

text \<open>
  C32: ports are granted exactly when nobody else has one of them - no application but the one that asks, no database, no
  companion, no stack but the one that asks, and no container on the host that publishes it and is not its own.  A port
  asked for by nobody else's row but published by a foreign container is refused all the same.
\<close>

theorem ports_free_iff:
  "assertFree ports cs opts p = Inr () \<longleftrightarrow> (\<forall>q \<in> set ports. \<not> port_taken cs opts p q)"
proof (cases "ports = []")
  case False
  then have n: "nub ports \<noteq> []" by (simp add: nub_nil)
  have eq: "(if xs \<noteq> [] then Inl e else Inr ()) = (Inr () :: (port_reason, unit) res) \<longleftrightarrow> xs = []" for xs :: "string list" and e
    by simp
  show ?thesis
    unfolding assertFree_def Let_def if_not_P [OF n] eq hostPortConflicts_nil [OF n] port_data.simps with_port_all set_nub prod.case port_taken_def
    by (cases cs) (simp_all, (metis | blast)+)
qed (simp add: assertFree_def Let_def)

theorem ports_free_iff_witness:
  "assertFree [81] None no_options demo_platform = Inr () \<and> assertFree [80, 81] None no_options demo_platform \<noteq> Inr () \<and>
   assertFree [81] (Some [(demo_container ''x'' [])\<lparr>ct_PublicPorts := [Some 81]\<rparr>]) no_options demo_platform \<noteq> Inr ()"
  unfolding ports_free_iff by (simp add: port_taken_def demo_platform_def no_options_def)

section \<open>Images that may not be removed\<close>

lemma protectionReason_None:
  assumes "protectionReason img src lr = None"
  shows "(r, k) \<in> set (prot_refs src) \<Longrightarrow> \<not> imageMatchesRef img r"
    and "lr \<Longrightarrow> t \<in> set (im_RepoTags img) \<Longrightarrow> registryHostOf t = Some h \<Longrightarrow> h \<noteq> [] \<Longrightarrow> h \<notin> set (registryHosts src)"
proof -
  let ?pick = "\<lambda>t. case registryHostOf t of Some h \<Rightarrow> if h \<noteq> [] \<and> h \<in> set (registryHosts src) then Some h else None | None \<Rightarrow> None"
  have nil: "(if lr then List.map_filter ?pick (im_RepoTags img) else []) = []"
    and refs: "find (\<lambda>(r, k). imageMatchesRef img r) (prot_refs src) = None"
    using assms by (auto simp: protectionReason_def split: list.splits if_splits)
  show "\<not> imageMatchesRef img r" if "(r, k) \<in> set (prot_refs src)" using refs that by (auto simp: find_None_iff)
  show "h \<notin> set (registryHosts src)" if "lr" "t \<in> set (im_RepoTags img)" "registryHostOf t = Some h" "h \<noteq> []"
    using nil that by (auto simp: List.map_filter_def filter_empty_conv)
qed

end
