(* ===== verification/Proxy_Labels.thy ===== *)
theory Proxy_Labels
  imports Docker_Sharing
begin

text \<open>
  The labels that make the reverse proxy route a container (\<open>src/modules/proxy/proxy.service.ts\<close>: \<open>buildLabels\<close>,
  \<open>labelsFor\<close>), the certificate mode of a domain (\<open>application/cert-mode.ts\<close>), references to middlewares
  (\<open>proxy/middleware-ref.ts\<close>) and the read timeout of the proxy (\<open>proxy/read-timeout.ts\<close>).

  \<open>sha8\<close> stands for the first eight hexadecimal digits of a SHA-1 digest.
\<close>

section \<open>Domains\<close>

record routed_domain =
  rd_host :: string
  rd_https :: bool
  rd_customCert :: bool
  rd_dns :: "string option option"
  rd_middlewares :: "string list"

text \<open>\<open>/^[a-z0-9][a-z0-9-]{0,62}@file$/\<close>.\<close>

definition lower_alnum :: "char \<Rightarrow> bool" where
  "lower_alnum c \<longleftrightarrow> is_lower c \<or> is_digit c"

definition MIDDLEWARE_REF :: "string \<Rightarrow> bool" where
  "MIDDLEWARE_REF s \<longleftrightarrow>
     (let n = length s - 5; w = take n s in
      5 < length s \<and> n \<le> 63 \<and> drop n s = ''@file'' \<and> lower_alnum (hd w) \<and> list_all (\<lambda>c. lower_alnum c \<or> c = CHR ''-'') (tl w))"

datatype cert_mode = CertHttp | CertDns | CertDnsWildcard

definition wildcardBase :: "string \<Rightarrow> string option" where
  "wildcardBase host =
     (let labels = split_on (CHR ''.'') (toLowerCase (trim host)) in
      if length labels < 3 then None else Some (join_with ''.'' (tl labels)))"

text \<open>\<open>undefined\<close>, \<open>{}\<close> and \<open>{ main }\<close>; an empty base counts as none.\<close>

definition dnsRouting :: "string \<Rightarrow> cert_mode option \<Rightarrow> string option option" where
  "dnsRouting host mode =
     (case mode of
        Some CertDns \<Rightarrow> Some None
      | Some CertDnsWildcard \<Rightarrow> (case wildcardBase host of None \<Rightarrow> Some None | Some m \<Rightarrow> if m = [] then Some None else Some (Some m))
      | _ \<Rightarrow> None)"

datatype cert_reason = NeedsHttps | HasCertificate | NoParent string | DnsOff

definition assertCertMode :: "cert_mode \<Rightarrow> string \<Rightarrow> bool \<Rightarrow> bool \<Rightarrow> bool \<Rightarrow> (cert_reason, unit) res" where
  "assertCertMode mode host https hasCustomCertificate proxyHasDns =
     (if mode = CertHttp then Inr ()
      else if \<not> https then Inl (BadRequest NeedsHttps)
      else if hasCustomCertificate then Inl (BadRequest HasCertificate)
      else if mode = CertDnsWildcard \<and> \<not> given (wildcardBase host) then Inl (BadRequest (NoParent host))
      else if \<not> proxyHasDns then Inl (BadRequest DnsOff)
      else Inr ())"

section \<open>Routers\<close>

definition CERT_RESOLVER :: string where "CERT_RESOLVER = ''le''"
definition DNS_CERT_RESOLVER :: string where "DNS_CERT_RESOLVER = ''le-dns''"
definition RETRY_ATTEMPTS :: nat where "RETRY_ATTEMPTS = 3"
definition RETRY_INITIAL_INTERVAL :: string where "RETRY_INITIAL_INTERVAL = ''100ms''"

definition middlewaresOf :: "routed_domain \<Rightarrow> string list" where
  "middlewaresOf d = filter MIDDLEWARE_REF (nub (rd_middlewares d))"

record host_group =
  g_suffix :: string
  g_middlewares :: "string list"
  g_hosts :: "string list"

definition group_step :: "(string \<Rightarrow> string) \<Rightarrow> (string, host_group) jsmap \<Rightarrow> routed_domain \<Rightarrow> (string, host_group) jsmap" where
  "group_step sha8 groups d =
     (let middlewares = middlewaresOf d; key = join_with '','' middlewares in
      case map_of groups key of
        None \<Rightarrow> AList.update key \<lparr>g_suffix = (if key = [] then [] else ''-m'' @ sha8 key), g_middlewares = middlewares, g_hosts = [rd_host d]\<rparr> groups
      | Some g \<Rightarrow> AList.update key (g\<lparr>g_hosts := g_hosts g @ [rd_host d]\<rparr>) groups)"

definition byMiddlewares :: "(string \<Rightarrow> string) \<Rightarrow> routed_domain list \<Rightarrow> host_group list" where
  "byMiddlewares sha8 domains = map snd (foldl (group_step sha8) [] domains)"

definition host_rule :: "string list \<Rightarrow> string" where
  "host_rule hosts = join_with '' || '' (map (\<lambda>h. ''Host('' @ [CHR 0x60] @ h @ [CHR 0x60] @ '')'') hosts)"

text \<open>The assignments of one router, in the order of the source.\<close>

record router =
  rt_name :: string
  rt_hosts :: "string list"
  rt_entry :: string
  rt_tls :: bool
  rt_resolver :: "string option"
  rt_main :: string
  rt_chain :: "string list"

definition router_key :: "string \<Rightarrow> string \<Rightarrow> string" where
  "router_key name k = ''traefik.http.routers.'' @ name @ ''.'' @ k"

definition router_labels :: "string \<Rightarrow> router \<Rightarrow> (string \<times> string) list" where
  "router_labels service r =
     (let k = router_key (rt_name r) in
      [(k ''rule'', host_rule (rt_hosts r)), (k ''entrypoints'', rt_entry r), (k ''service'', service)] @
      (if rt_tls r then [(k ''tls'', ''true'')] else []) @
      (case rt_resolver r of None \<Rightarrow> [] | Some c \<Rightarrow> [(k ''tls.certresolver'', c)]) @
      (if rt_main r \<noteq> [] then [(k ''tls.domains[0].main'', rt_main r), (k ''tls.domains[0].sans'', ''*.'' @ rt_main r)] else []) @
      (if rt_chain r \<noteq> [] then [(k ''middlewares'', join_with '','' (rt_chain r))] else []))"

record label_options =
  lo_httpsPort :: nat
  lo_acme :: bool
  lo_dnsResolver :: bool
  lo_retry :: bool

definition custom_domain :: "routed_domain \<Rightarrow> bool" where
  "custom_domain d \<longleftrightarrow> rd_https d \<and> rd_customCert d"

definition secure_domain :: "routed_domain \<Rightarrow> bool" where
  "secure_domain d \<longleftrightarrow> rd_https d \<and> \<not> rd_customCert d"

definition dns_domains :: "label_options \<Rightarrow> routed_domain list \<Rightarrow> routed_domain list" where
  "dns_domains opts domains = (if lo_dnsResolver opts then filter (\<lambda>d. secure_domain d \<and> rd_dns d \<noteq> None) domains else [])"

definition redirect_hosts :: "label_options \<Rightarrow> routed_domain list \<Rightarrow> string list" where
  "redirect_hosts opts domains =
     (if lo_acme opts then map rd_host (filter secure_domain domains) else []) @ map rd_host (filter custom_domain domains)"

definition chain_of :: "string \<Rightarrow> label_options \<Rightarrow> string list \<Rightarrow> string list" where
  "chain_of routerName opts l = (if lo_retry opts then (routerName @ ''-retry'') # l else l)"

text \<open>The DNS-01 hosts by the base of their wildcard certificate, \<open>''\<close> for none.\<close>

definition main_of :: "routed_domain \<Rightarrow> string" where
  "main_of d = (case rd_dns d of Some (Some m) \<Rightarrow> m | _ \<Rightarrow> [])"

definition byMain :: "routed_domain list \<Rightarrow> (string, routed_domain list) jsmap" where
  "byMain ds = foldl (\<lambda>m d. AList.update (main_of d) ((case map_of m (main_of d) of None \<Rightarrow> [] | Some l \<Rightarrow> l) @ [d]) m) [] ds"

definition main_suffix :: "(string \<Rightarrow> string) \<Rightarrow> string \<Rightarrow> string" where
  "main_suffix sha8 main = (if main = [] then ''-dns'' else ''-dns-'' @ sha8 main)"

definition group_router :: "string \<Rightarrow> label_options \<Rightarrow> string \<Rightarrow> string \<Rightarrow> bool \<Rightarrow> string option \<Rightarrow> string \<Rightarrow> host_group \<Rightarrow> router" where
  "group_router routerName opts infx entry tls resolver main g =
     \<lparr>rt_name = routerName @ infx @ g_suffix g, rt_hosts = g_hosts g, rt_entry = entry, rt_tls = tls, rt_resolver = resolver,
      rt_main = main, rt_chain = chain_of routerName opts (g_middlewares g)\<rparr>"

definition plain_routers :: "(string \<Rightarrow> string) \<Rightarrow> string \<Rightarrow> label_options \<Rightarrow> routed_domain list \<Rightarrow> router list" where
  "plain_routers sha8 routerName opts domains =
     map (group_router routerName opts [] ''web'' False None [])
       (byMiddlewares sha8 (filter (\<lambda>d. rd_host d \<notin> set (redirect_hosts opts domains)) domains))"

definition redirect_router :: "string \<Rightarrow> label_options \<Rightarrow> routed_domain list \<Rightarrow> router" where
  "redirect_router routerName opts domains =
     \<lparr>rt_name = routerName @ ''-redirect'', rt_hosts = redirect_hosts opts domains, rt_entry = ''web'', rt_tls = False,
      rt_resolver = None, rt_main = [], rt_chain = [routerName @ ''-https'']\<rparr>"

definition redirect_labels :: "string \<Rightarrow> label_options \<Rightarrow> routed_domain list \<Rightarrow> (string \<times> string) list" where
  "redirect_labels routerName opts domains =
     (let mw = ''traefik.http.middlewares.'' @ routerName @ ''-https.redirectscheme.'' in
      if redirect_hosts opts domains = [] then []
      else router_labels routerName (redirect_router routerName opts domains) @
        [(mw @ ''scheme'', ''https''), (mw @ ''permanent'', ''true''), (mw @ ''port'', nat_str (lo_httpsPort opts))])"

definition secure_routers :: "(string \<Rightarrow> string) \<Rightarrow> string \<Rightarrow> label_options \<Rightarrow> routed_domain list \<Rightarrow> router list" where
  "secure_routers sha8 routerName opts domains =
     (let dnsHosts = map rd_host (dns_domains opts domains) in
      map (group_router routerName opts ''-secure'' ''websecure'' True (Some CERT_RESOLVER) [])
        (byMiddlewares sha8 (filter (\<lambda>d. secure_domain d \<and> rd_host d \<notin> set dnsHosts) domains)))"

definition dns_routers :: "(string \<Rightarrow> string) \<Rightarrow> string \<Rightarrow> label_options \<Rightarrow> routed_domain list \<Rightarrow> router list" where
  "dns_routers sha8 routerName opts domains =
     concat (map (\<lambda>(main, group).
         map (group_router routerName opts (''-secure'' @ main_suffix sha8 main) ''websecure'' True (Some DNS_CERT_RESOLVER) main)
           (byMiddlewares sha8 group))
       (byMain (dns_domains opts domains)))"

definition custom_routers :: "(string \<Rightarrow> string) \<Rightarrow> string \<Rightarrow> label_options \<Rightarrow> routed_domain list \<Rightarrow> router list" where
  "custom_routers sha8 routerName opts domains =
     map (group_router routerName opts ''-secure-custom'' ''websecure'' True None []) (byMiddlewares sha8 (filter custom_domain domains))"

text \<open>\<open>labels[k] = v\<close>, one after the other.\<close>

definition buildLabels :: "(string \<Rightarrow> string) \<Rightarrow> string \<Rightarrow> nat \<Rightarrow> routed_domain list \<Rightarrow> label_options \<Rightarrow> (string \<times> string) list" where
  "buildLabels sha8 routerName containerPort domains opts =
     (let retry = ''traefik.http.middlewares.'' @ routerName @ ''-retry.retry.''; render = (\<lambda>rs. concat (map (router_labels routerName) rs)) in
      if domains = [] then []
      else map_of_entries (
        [(''traefik.enable'', ''true''), (''traefik.http.services.'' @ routerName @ ''.loadbalancer.server.port'', nat_str containerPort)] @
        (if lo_retry opts then [(retry @ ''attempts'', nat_str RETRY_ATTEMPTS), (retry @ ''initialinterval'', RETRY_INITIAL_INTERVAL)] else []) @
        render (plain_routers sha8 routerName opts domains) @
        redirect_labels routerName opts domains @
        render (secure_routers sha8 routerName opts domains) @
        render (dns_routers sha8 routerName opts domains) @
        render (custom_routers sha8 routerName opts domains)))"

record proxy_settings =
  ps_httpsPort :: nat
  ps_acmeEmail :: "string option"
  ps_dnsChallenge :: bool

definition labelsFor :: "(string \<Rightarrow> string) \<Rightarrow> string \<Rightarrow> nat \<Rightarrow> routed_domain list \<Rightarrow> proxy_settings \<Rightarrow> bool \<Rightarrow> (string \<times> string) list" where
  "labelsFor sha8 routerName containerPort domains settings retry =
     buildLabels sha8 routerName containerPort domains
       \<lparr>lo_httpsPort = ps_httpsPort settings, lo_acme = (ps_acmeEmail settings \<noteq> None), lo_dnsResolver = ps_dnsChallenge settings, lo_retry = retry\<rparr>"

section \<open>Read timeout\<close>

definition READ_TIMEOUT_MIN_SECONDS :: nat where "READ_TIMEOUT_MIN_SECONDS = 1"
definition READ_TIMEOUT_MAX_SECONDS :: nat where "READ_TIMEOUT_MAX_SECONDS = 86400"

text \<open>An optional part \<open>(\d+u)?\<close> at the front: its number and the rest.\<close>

definition unit_part :: "char \<Rightarrow> string \<Rightarrow> nat \<times> string" where
  "unit_part u s =
     (let ds = takeWhile is_digit s; r = dropWhile is_digit s in
      if ds \<noteq> [] \<and> r \<noteq> [] \<and> hd r = u then (str_val ds, tl r) else (0, s))"

text \<open>\<open>Number.isSafeInteger\<close> holds for every value within the bounds.\<close>

definition parseReadTimeoutSeconds :: "string \<Rightarrow> nat option" where
  "parseReadTimeoutSeconds raw =
     (let value = trim raw;
          bounded = (\<lambda>n. if READ_TIMEOUT_MIN_SECONDS \<le> n \<and> n \<le> READ_TIMEOUT_MAX_SECONDS then Some n else None);
          (h, r1) = unit_part (CHR ''h'') value; (m, r2) = unit_part (CHR ''m'') r1; (s, r3) = unit_part (CHR ''s'') r2
      in if value \<noteq> [] \<and> list_all is_digit value then bounded (str_val value)
         else if value \<noteq> [] \<and> r3 = [] then bounded (h * 3600 + m * 60 + s)
         else None)"

definition readTimeoutFromEnv :: "string option \<Rightarrow> nat option \<times> bool" where
  "readTimeoutFromEnv raw =
     (let value = (case raw of None \<Rightarrow> [] | Some v \<Rightarrow> trim v) in
      if value = [] then (None, False) else let s = parseReadTimeoutSeconds value in (s, s = None))"

definition timeout_flag :: "string \<Rightarrow> string" where
  "timeout_flag ep = ''--entrypoints.'' @ ep @ ''.transport.respondingtimeouts.readtimeout=''"

definition readTimeoutFlags :: "nat \<Rightarrow> string list" where
  "readTimeoutFlags seconds = map (\<lambda>ep. timeout_flag ep @ nat_str seconds @ ''s'') [''web'', ''websecure'']"

definition readTimeoutOf :: "string list \<Rightarrow> nat option" where
  "readTimeoutOf cmd =
     (case find (starts_with (timeout_flag ''websecure'')) cmd of
        None \<Rightarrow> None
      | Some flag \<Rightarrow> parseReadTimeoutSeconds (drop (case index_of (CHR ''='') flag of Some i \<Rightarrow> i + 1 | None \<Rightarrow> 0) flag))"

end
