(* ===== verification/Proxy_Laws.thy ===== *)
theory Proxy_Laws
  imports Proxy_Labels
begin

text \<open>
  The labels of a container and the reader of such labels agree: the hosts that \<open>routedHosts\<close> finds in what
  \<open>buildLabels\<close> writes are the hosts of the domains.
\<close>

section \<open>Rules\<close>

definition host_char :: "char \<Rightarrow> bool" where
  "host_char c \<longleftrightarrow> is_lower c \<or> is_upper c \<or> is_digit c \<or> c = CHR ''-'' \<or> c = CHR ''.''"

text \<open>What the validation of a domain lets through.\<close>

definition host_name :: "string \<Rightarrow> bool" where
  "host_name h \<longleftrightarrow> h \<noteq> [] \<and> list_all host_char h"

lemma host_char_plain: "host_char c \<Longrightarrow> \<not> is_quote c \<and> \<not> js_ws c"
  by (auto simp: host_char_def is_quote_def js_ws_def is_lower_def is_upper_def is_digit_def)

lemma host_name_plain: "host_name h \<Longrightarrow> c \<in> set h \<Longrightarrow> \<not> is_quote c \<and> \<not> js_ws c"
  using host_char_plain by (auto simp: host_name_def list_all_iff)

lemma trim_host: "host_name h \<Longrightarrow> trim h = h"
  unfolding trim_id_iff using host_name_plain [of h] by (cases "h = []") auto

lemma rule_item_one:
  assumes "host_name h"
  shows "rule_item (CHR 0x60 # h @ CHR 0x60 # CHR '')'' # z) = Some (h, CHR '')'' # z)"
proof -
  have q: "is_quote (CHR 0x60)" by (simp add: is_quote_def)
  have h: "\<not> is_quote c" if "c \<in> set h" for c using host_name_plain [OF assms that] by simp
  have w: "\<not> js_ws (CHR '')'')" by (simp add: js_ws_def)
  have "takeWhile (\<lambda>c. \<not> is_quote c) (h @ CHR 0x60 # CHR '')'' # z) = h" "dropWhile (\<lambda>c. \<not> is_quote c) (h @ CHR 0x60 # CHR '')'' # z) = CHR 0x60 # CHR '')'' # z"
    using h q by (simp_all add: takeWhile_tail dropWhile_append2 takeWhile_append2)
  then show ?thesis using q w by (simp add: rule_item_def)
qed

lemma host_call_one:
  assumes "host_name h"
  shows "host_call (''Host('' @ CHR 0x60 # h @ CHR 0x60 # CHR '')'' # z) = Some ([h], z)"
proof -
  have n: "rule_item (CHR '')'' # z) = None" by (simp add: rule_item_def is_quote_def)
  have i: "rule_items (CHR '')'' # z) = ([], CHR '')'' # z)" by (subst rule_items.simps) (simp add: n)
  have "rule_items (CHR 0x60 # h @ CHR 0x60 # CHR '')'' # z) = ([h], CHR '')'' # z)"
    by (subst rule_items.simps) (simp add: rule_item_one [OF assms] i)
  moreover have "toLowerCase ''Host('' = ''host(''" by code_simp
  ultimately show ?thesis by (simp add: host_call_def js_ws_def)
qed

lemma hosts_from_one:
  assumes "host_name h"
  shows "hosts_from (''Host('' @ CHR 0x60 # h @ CHR 0x60 # CHR '')'' # z) = toLowerCase h # hosts_from z"
proof -
  have "toLowerCase h \<noteq> []" using assms by (simp add: host_name_def toLowerCase_def)
  then show ?thesis using host_call_one [OF assms, of z] trim_host [OF assms] by simp
qed

lemma hosts_from_skip: "toLowerCase (take 5 (c # s)) \<noteq> ''host('' \<Longrightarrow> hosts_from (c # s) = hosts_from s"
  by (simp add: host_call_def)

lemma hosts_from_or: "hosts_from ('' || '' @ ''Host('' @ z) = hosts_from (''Host('' @ z)"
proof -
  have "toLowerCase '' || H'' \<noteq> ''host(''" "toLowerCase ''|| Ho'' \<noteq> ''host(''" "toLowerCase ''| Hos'' \<noteq> ''host(''" "toLowerCase '' Host'' \<noteq> ''host(''"
    by code_simp+
  then show ?thesis by (simp add: hosts_from_skip del: hosts_from.simps)
qed

lemma hosts_rule: "list_all host_name hs \<Longrightarrow> hostsInRule (host_rule hs) = map toLowerCase hs"
  unfolding hostsInRule_def host_rule_def
proof (induction hs)
  case (Cons h hs)
  have h: "host_name h" using Cons.prems by simp
  show ?case
  proof (cases hs)
    case Nil
    then show ?thesis using hosts_from_one [OF h, of "[]"] by simp
  next
    case (Cons k ks)
    obtain z where z: "join_with '' || '' (map (\<lambda>h. ''Host('' @ [CHR 0x60] @ h @ [CHR 0x60] @ '')'') hs) = ''Host('' @ z"
      by (cases ks) (auto simp: Cons)
    have "join_with '' || '' (map (\<lambda>h. ''Host('' @ [CHR 0x60] @ h @ [CHR 0x60] @ '')'') (h # hs)) =
        ''Host('' @ CHR 0x60 # h @ CHR 0x60 # CHR '')'' # '' || '' @ ''Host('' @ z"
      using z by (simp add: Cons)
    then show ?thesis using hosts_from_one [OF h] hosts_from_or [of z] Cons.IH Cons.prems z by (simp del: hosts_from.simps)
  qed
qed simp

section \<open>Entries that survive\<close>

lemma map_of_entries_only:
  assumes "(k, v) \<in> set es" and "\<And>v'. (k, v') \<in> set es \<Longrightarrow> v' = v"
  shows "(k, v) \<in> set (map_of_entries es)"
proof -
  have "k \<in> fst ` set (map_of_entries es)" using assms(1) by (force simp: keys_map_of_entries)
  then obtain v' where "(k, v') \<in> set (map_of_entries es)" by force
  then show ?thesis using assms(2) map_of_entries_subset by blast
qed

section \<open>Groups of domains\<close>

lemma filter_no_key: "f d \<notin> f ` set ds \<Longrightarrow> filter (\<lambda>x. f x = f d) ds = []"
  unfolding filter_empty_conv by (metis imageI)

definition mkey :: "routed_domain \<Rightarrow> string" where
  "mkey d = join_with '','' (middlewaresOf d)"

definition suffix_for :: "(string \<Rightarrow> string) \<Rightarrow> string \<Rightarrow> string" where
  "suffix_for sha8 k = (if k = [] then [] else ''-m'' @ sha8 k)"

lemma group_step_alt:
  "group_step sha8 gs d =
     (case map_of gs (mkey d) of
        None \<Rightarrow> AList.update (mkey d) \<lparr>g_suffix = suffix_for sha8 (mkey d), g_middlewares = middlewaresOf d, g_hosts = [rd_host d]\<rparr> gs
      | Some g \<Rightarrow> AList.update (mkey d) (g\<lparr>g_hosts := g_hosts g @ [rd_host d]\<rparr>) gs)"
  unfolding group_step_def mkey_def suffix_for_def Let_def by (rule refl)

text \<open>The groups as a function of the key.\<close>

lemma groups_spec:
  "distinct (map fst (foldl (group_step sha8) [] ds)) \<and>
   (\<forall>k. if k \<in> mkey ` set ds
     then \<exists>g. map_of (foldl (group_step sha8) [] ds) k = Some g \<and> g_suffix g = suffix_for sha8 k \<and>
       g_hosts g = map rd_host (filter (\<lambda>d. mkey d = k) ds)
     else map_of (foldl (group_step sha8) [] ds) k = None)"
proof (induction ds rule: rev_induct)
  case (snoc d ds)
  let ?G = "foldl (group_step sha8) [] ds"
  have "\<exists>g. group_step sha8 ?G d = AList.update (mkey d) g ?G \<and> g_suffix g = suffix_for sha8 (mkey d) \<and>
      g_hosts g = map rd_host (filter (\<lambda>x. mkey x = mkey d) (ds @ [d]))"
  proof (cases "mkey d \<in> mkey ` set ds")
    case True
    then obtain g where "map_of ?G (mkey d) = Some g" "g_suffix g = suffix_for sha8 (mkey d)"
      "g_hosts g = map rd_host (filter (\<lambda>x. mkey x = mkey d) ds)" using snoc by meson
    then show ?thesis by (intro exI [of _ "g\<lparr>g_hosts := g_hosts g @ [rd_host d]\<rparr>"]) (simp add: group_step_alt)
  next
    case False
    then have "map_of ?G (mkey d) = None" using snoc by meson
    then show ?thesis using filter_no_key [OF False] by (auto simp: group_step_alt)
  qed
  then obtain g where g: "foldl (group_step sha8) [] (ds @ [d]) = AList.update (mkey d) g ?G" "g_suffix g = suffix_for sha8 (mkey d)"
    "g_hosts g = map rd_host (filter (\<lambda>x. mkey x = mkey d) (ds @ [d]))" by auto
  show ?case
  proof (intro conjI allI)
    show "distinct (map fst (foldl (group_step sha8) [] (ds @ [d])))" unfolding g(1) using snoc by (simp add: distinct_update)
    fix k
    show "if k \<in> mkey ` set (ds @ [d])
      then \<exists>g. map_of (foldl (group_step sha8) [] (ds @ [d])) k = Some g \<and> g_suffix g = suffix_for sha8 k \<and>
        g_hosts g = map rd_host (filter (\<lambda>d. mkey d = k) (ds @ [d]))
      else map_of (foldl (group_step sha8) [] (ds @ [d])) k = None"
    proof (cases "k = mkey d")
      case True
      then show ?thesis unfolding g(1) AList.update_conv' using g(2,3) by auto
    next
      case False
      then show ?thesis unfolding g(1) AList.update_conv' using spec [OF conjunct2 [OF snoc], of k] by auto
    qed
  qed
qed simp

lemma byMiddlewares_spec:
  "g \<in> set (byMiddlewares sha8 ds) \<Longrightarrow>
     \<exists>k \<in> mkey ` set ds. g_suffix g = suffix_for sha8 k \<and> g_hosts g = map rd_host (filter (\<lambda>d. mkey d = k) ds)"
  "d \<in> set ds \<Longrightarrow> \<exists>g \<in> set (byMiddlewares sha8 ds). rd_host d \<in> set (g_hosts g)"
proof -
  assume "g \<in> set (byMiddlewares sha8 ds)"
  then obtain k where "(k, g) \<in> set (foldl (group_step sha8) [] ds)" by (auto simp: byMiddlewares_def)
  then have m: "map_of (foldl (group_step sha8) [] ds) k = Some g" using groups_spec [of sha8 ds] by simp
  then have "k \<in> mkey ` set ds" using groups_spec [of sha8 ds] by (metis option.distinct(1))
  then show "\<exists>k \<in> mkey ` set ds. g_suffix g = suffix_for sha8 k \<and> g_hosts g = map rd_host (filter (\<lambda>d. mkey d = k) ds)"
    using groups_spec [of sha8 ds] m by (metis option.inject)
next
  assume d: "d \<in> set ds"
  then obtain g where g: "map_of (foldl (group_step sha8) [] ds) (mkey d) = Some g" "g_hosts g = map rd_host (filter (\<lambda>x. mkey x = mkey d) ds)"
    using groups_spec [of sha8 ds] by (metis imageI)
  have "g \<in> set (byMiddlewares sha8 ds)" using map_of_SomeD [OF g(1)] by (force simp: byMiddlewares_def)
  moreover have "rd_host d \<in> set (g_hosts g)" using d g(2) by auto
  ultimately show "\<exists>g \<in> set (byMiddlewares sha8 ds). rd_host d \<in> set (g_hosts g)" by blast
qed

lemma byMain_spec:
  "distinct (map fst (byMain ds)) \<and>
   (\<forall>m. map_of (byMain ds) m = (if m \<in> main_of ` set ds then Some (filter (\<lambda>d. main_of d = m) ds) else None))"
proof (induction ds rule: rev_induct)
  case (snoc d ds)
  have no: "filter (\<lambda>x. main_of x = main_of d) ds = []" if "main_of d \<notin> main_of ` set ds" using that by (rule filter_no_key)
  have "byMain (ds @ [d]) = AList.update (main_of d) ((case map_of (byMain ds) (main_of d) of None \<Rightarrow> [] | Some l \<Rightarrow> l) @ [d]) (byMain ds)"
    by (simp add: byMain_def)
  then show ?case using snoc no by (auto simp: distinct_update AList.update_conv')
qed (simp add: byMain_def)

section \<open>Names of routers\<close>

definition hex8 :: "string \<Rightarrow> bool" where
  "hex8 h \<longleftrightarrow> length h = 8 \<and> list_all (\<lambda>c. is_digit c \<or> is_lower c \<and> (of_char c :: nat) \<le> 102) h"

text \<open>
  What is used of the hash: it is eight hexadecimal digits, and those of the lists of middlewares and wildcard bases of
  one application differ.
\<close>

definition hash_ok :: "(string \<Rightarrow> string) \<Rightarrow> routed_domain list \<Rightarrow> bool" where
  "hash_ok sha8 ds \<longleftrightarrow> (\<forall>s. hex8 (sha8 s)) \<and> inj_on sha8 (mkey ` set ds \<union> main_of ` set ds)"

lemma hex8_cons: "hex8 h \<Longrightarrow> \<exists>c r. h = c # r \<and> c \<noteq> CHR ''m'' \<and> c \<noteq> CHR ''-''"
  by (cases h) (auto simp: hex8_def is_digit_def is_lower_def)

lemma hex8_no_dot: "hex8 h \<Longrightarrow> CHR ''.'' \<notin> set h"
  by (auto simp: hex8_def list_all_iff is_digit_def is_lower_def)

lemma suffix_for_cases:
  assumes "\<And>s. hex8 (sha8 s)"
  obtains "suffix_for sha8 k = []" | h where "suffix_for sha8 k = ''-m'' @ h" "hex8 h"
  using assms that(1) that(2) [of "sha8 k"] by (cases "k = []") (simp_all add: suffix_for_def)

lemma suffix_for_inj:
  assumes "hash_ok sha8 ds" and "k \<in> mkey ` set ds" "k' \<in> mkey ` set ds" and "suffix_for sha8 k = suffix_for sha8 k'"
  shows "k = k'"
proof (cases "k = [] \<or> k' = []")
  case True
  then show ?thesis using assms(4) by (auto simp: suffix_for_def split: if_splits)
next
  case False
  then have "sha8 k = sha8 k'" using assms(4) by (simp add: suffix_for_def)
  then show ?thesis using assms(1-3) by (auto simp: hash_ok_def inj_on_Un dest: inj_onD)
qed

lemma main_suffix_inj:
  assumes "hash_ok sha8 ds" and "m \<in> main_of ` set ds" "m' \<in> main_of ` set ds"
    and "main_suffix sha8 m @ suffix_for sha8 k = main_suffix sha8 m' @ suffix_for sha8 k'"
  shows "m = m' \<and> suffix_for sha8 k = suffix_for sha8 k'"
proof -
  have h: "\<And>s. hex8 (sha8 s)" and inj: "inj_on sha8 (main_of ` set ds)" using assms(1) by (auto simp: hash_ok_def inj_on_Un)
  obtain c r where c: "sha8 m = c # r" "c \<noteq> CHR ''m''" using hex8_cons [OF h] by metis
  obtain c' r' where c': "sha8 m' = c' # r'" "c' \<noteq> CHR ''m''" using hex8_cons [OF h] by metis
  have l: "length (sha8 m) = length (sha8 m')" using h by (simp add: hex8_def)
  show ?thesis
  proof (cases "m = [] \<or> m' = []")
    case True
    then show ?thesis using assms(4) c c' by (auto simp: main_suffix_def suffix_for_def split: if_splits)
  next
    case False
    then have "sha8 m = sha8 m' \<and> suffix_for sha8 k = suffix_for sha8 k'" using assms(4) l by (simp add: main_suffix_def)
    then show ?thesis using inj assms(2,3) by (auto dest: inj_onD)
  qed
qed

section \<open>All routers of a container\<close>

definition all_routers :: "(string \<Rightarrow> string) \<Rightarrow> string \<Rightarrow> label_options \<Rightarrow> routed_domain list \<Rightarrow> router list" where
  "all_routers sha8 nm opts ds =
     plain_routers sha8 nm opts ds @ (if redirect_hosts opts ds = [] then [] else [redirect_router nm opts ds]) @
     secure_routers sha8 nm opts ds @ dns_routers sha8 nm opts ds @ custom_routers sha8 nm opts ds"

text \<open>A router by the part of its name after the name of the application, and its hosts as a function of that part.\<close>

lemma group_routers:
  assumes "r \<in> set (map (group_router nm opts infx entry tls res mn) (byMiddlewares sha8 ds'))"
  shows "\<exists>k \<in> mkey ` set ds'. rt_name r = nm @ infx @ suffix_for sha8 k \<and> rt_hosts r = map rd_host (filter (\<lambda>d. mkey d = k) ds')"
  using assms byMiddlewares_spec(1) [of _ sha8 ds'] by (fastforce simp: group_router_def)

definition router_at :: "(string \<Rightarrow> string) \<Rightarrow> string \<Rightarrow> routed_domain list \<Rightarrow> string \<Rightarrow> routed_domain list \<Rightarrow> router \<Rightarrow> bool" where
  "router_at sha8 nm ds infx ds' r \<longleftrightarrow>
     (\<exists>k \<in> mkey ` set ds. rt_name r = nm @ infx @ suffix_for sha8 k \<and> rt_hosts r = map rd_host (filter (\<lambda>d. mkey d = k) ds') \<and> rt_hosts r \<noteq> [])"

lemma group_router_at:
  assumes "r \<in> set (map (group_router nm opts infx entry tls res mn) (byMiddlewares sha8 ds'))" and "set ds' \<subseteq> set ds"
  shows "router_at sha8 nm ds infx ds' r"
proof -
  obtain k where "k \<in> mkey ` set ds'" "rt_name r = nm @ infx @ suffix_for sha8 k" "rt_hosts r = map rd_host (filter (\<lambda>d. mkey d = k) ds')"
    using group_routers [OF assms(1)] by blast
  then show ?thesis using assms(2) by (auto simp: router_at_def filter_empty_conv intro!: bexI [of _ k])
qed

definition plain_ds :: "label_options \<Rightarrow> routed_domain list \<Rightarrow> routed_domain list" where
  "plain_ds opts ds = filter (\<lambda>d. rd_host d \<notin> set (redirect_hosts opts ds)) ds"

definition secure_ds :: "label_options \<Rightarrow> routed_domain list \<Rightarrow> routed_domain list" where
  "secure_ds opts ds = filter (\<lambda>d. secure_domain d \<and> rd_host d \<notin> set (map rd_host (dns_domains opts ds))) ds"

lemma all_routers_cases:
  assumes "r \<in> set (all_routers sha8 nm opts ds)"
  obtains (plain) "router_at sha8 nm ds [] (plain_ds opts ds) r"
  | (redirect) "rt_name r = nm @ ''-redirect''" "rt_hosts r = redirect_hosts opts ds"
  | (secure) "router_at sha8 nm ds ''-secure'' (secure_ds opts ds) r"
  | (dns) m where "m \<in> main_of ` set ds"
      "router_at sha8 nm ds (''-secure'' @ main_suffix sha8 m) (filter (\<lambda>d. main_of d = m) (dns_domains opts ds)) r"
  | (custom) "router_at sha8 nm ds ''-secure-custom'' (filter custom_domain ds) r"
proof -
  have dd: "set (dns_domains opts ds) \<subseteq> set ds" by (auto simp: dns_domains_def)
  consider "r \<in> set (plain_routers sha8 nm opts ds)" | "r = redirect_router nm opts ds" | "r \<in> set (secure_routers sha8 nm opts ds)"
    | "r \<in> set (dns_routers sha8 nm opts ds)" | "r \<in> set (custom_routers sha8 nm opts ds)"
    using assms by (auto simp: all_routers_def split: if_splits)
  then show thesis
  proof cases
    case 1 then show thesis using plain group_router_at [of r _ _ _ _ _ _ _ sha8 "plain_ds opts ds" ds] by (auto simp: plain_routers_def plain_ds_def)
  next
    case 2 then show thesis using redirect by (simp add: redirect_router_def)
  next
    case 3 then show thesis using secure group_router_at [of r _ _ _ _ _ _ _ sha8 "secure_ds opts ds" ds] by (auto simp: secure_routers_def secure_ds_def Let_def)
  next
    case 4
    then obtain m g where mg: "(m, g) \<in> set (byMain (dns_domains opts ds))"
      and r: "r \<in> set (map (group_router nm opts (''-secure'' @ main_suffix sha8 m) ''websecure'' True (Some DNS_CERT_RESOLVER) m) (byMiddlewares sha8 g))"
      by (auto simp: dns_routers_def)
    have "map_of (byMain (dns_domains opts ds)) m = Some g" using mg byMain_spec by (metis map_of_is_SomeI)
    then have "m \<in> main_of ` set (dns_domains opts ds)" "g = filter (\<lambda>d. main_of d = m) (dns_domains opts ds)"
      using byMain_spec [of "dns_domains opts ds"] by (auto split: if_splits)
    moreover from this have "set g \<subseteq> set ds" using dd by auto
    ultimately show thesis using dns [of m] group_router_at [OF r] dd by blast
  next
    case 5 then show thesis using custom group_router_at [of r _ _ _ _ _ _ _ sha8 "filter custom_domain ds" ds] by (auto simp: custom_routers_def)
  qed
qed

text \<open>The kind of a router can be read off its name, so that two routers never share one.\<close>

definition router_kind :: "string \<Rightarrow> nat" where
  "router_kind t = (if starts_with ''-secure-custom'' t then 4 else if starts_with ''-secure-dns'' t then 3
     else if starts_with ''-secure'' t then 2 else if starts_with ''-redirect'' t then 1 else 0)"

lemma router_kinds:
  "router_kind (suffix_for sha8 k) = 0" "router_kind ''-redirect'' = 1" "router_kind (''-secure'' @ suffix_for sha8 k) = 2"
  "router_kind (''-secure'' @ main_suffix sha8 m @ suffix_for sha8 k) = 3" "router_kind (''-secure-custom'' @ suffix_for sha8 k) = 4"
  by (simp_all add: router_kind_def suffix_for_def main_suffix_def starts_with_def)

lemma router_at_name:
  assumes "hash_ok sha8 ds" and "router_at sha8 nm ds infx ds' r" "router_at sha8 nm ds infx ds' r'" and "rt_name r = rt_name r'"
  shows "rt_hosts r = rt_hosts r'"
proof -
  obtain k where k: "k \<in> mkey ` set ds" "rt_name r = nm @ infx @ suffix_for sha8 k" "rt_hosts r = map rd_host (filter (\<lambda>d. mkey d = k) ds')"
    using assms(2) unfolding router_at_def by blast
  obtain k' where k': "k' \<in> mkey ` set ds" "rt_name r' = nm @ infx @ suffix_for sha8 k'" "rt_hosts r' = map rd_host (filter (\<lambda>d. mkey d = k') ds')"
    using assms(3) unfolding router_at_def by blast
  have "k = k'" using suffix_for_inj [OF assms(1) k(1) k'(1)] assms(4) k(2) k'(2) by simp
  then show ?thesis using k(3) k'(3) by simp
qed

lemma router_names:
  assumes h: "hash_ok sha8 ds" and r: "r \<in> set (all_routers sha8 nm opts ds)" and r': "r' \<in> set (all_routers sha8 nm opts ds)"
    and n: "rt_name r = rt_name r'"
  shows "rt_hosts r = rt_hosts r'"
proof -
  obtain t where t: "rt_name r = nm @ t" using r by (cases rule: all_routers_cases) (auto simp: router_at_def)
  have t': "rt_name r' = nm @ t" using t n by simp
  note kinds = router_kinds
  show ?thesis using r
  proof (cases rule: all_routers_cases)
    case plain
    then have k: "router_kind t = 0" using t kinds by (auto simp: router_at_def)
    from r' have "router_at sha8 nm ds [] (plain_ds opts ds) r'"
      by (cases rule: all_routers_cases) (use t' k kinds in \<open>auto simp: router_at_def\<close>)
    then show ?thesis using router_at_name [OF h plain] n by blast
  next
    case redirect
    then have k: "router_kind t = 1" using t kinds by simp
    from r' have "rt_hosts r' = redirect_hosts opts ds"
      by (cases rule: all_routers_cases) (use t' k kinds in \<open>auto simp: router_at_def\<close>)
    then show ?thesis using redirect by simp
  next
    case secure
    then have k: "router_kind t = 2" using t kinds by (auto simp: router_at_def)
    from r' have "router_at sha8 nm ds ''-secure'' (secure_ds opts ds) r'"
      by (cases rule: all_routers_cases) (use t' k kinds in \<open>auto simp: router_at_def\<close>)
    then show ?thesis using router_at_name [OF h secure] n by blast
  next
    case (dns m)
    then have k: "router_kind t = 3" using t kinds by (auto simp: router_at_def)
    from r' obtain m' where m': "m' \<in> main_of ` set ds"
      "router_at sha8 nm ds (''-secure'' @ main_suffix sha8 m') (filter (\<lambda>d. main_of d = m') (dns_domains opts ds)) r'"
      by (cases rule: all_routers_cases) (use t' k kinds in \<open>auto simp: router_at_def\<close>)
    obtain k1 k2 where "rt_name r = nm @ (''-secure'' @ main_suffix sha8 m) @ suffix_for sha8 k1"
      "rt_name r' = nm @ (''-secure'' @ main_suffix sha8 m') @ suffix_for sha8 k2" using dns(2) m'(2) unfolding router_at_def by (elim bexE conjE)
    then have "main_suffix sha8 m @ suffix_for sha8 k1 = main_suffix sha8 m' @ suffix_for sha8 k2" using n by simp
    then have "m = m'" using main_suffix_inj [OF h dns(1) m'(1)] by blast
    then show ?thesis using router_at_name [OF h dns(2)] m'(2) n by blast
  next
    case custom
    then have k: "router_kind t = 4" using t kinds by (auto simp: router_at_def)
    from r' have "router_at sha8 nm ds ''-secure-custom'' (filter custom_domain ds) r'"
      by (cases rule: all_routers_cases) (use t' k kinds in \<open>auto simp: router_at_def\<close>)
    then show ?thesis using router_at_name [OF h custom] n by blast
  qed
qed

section \<open>What is routed\<close>

text \<open>Together the routers have the hosts of the domains.\<close>

lemma all_routers_hosts:
  "(\<Union>r \<in> set (all_routers sha8 nm opts ds). set (rt_hosts r)) = rd_host ` set ds"
proof (intro equalityI subsetI)
  fix h assume "h \<in> (\<Union>r \<in> set (all_routers sha8 nm opts ds). set (rt_hosts r))"
  then obtain r where r: "r \<in> set (all_routers sha8 nm opts ds)" "h \<in> set (rt_hosts r)" by blast
  from r(1) show "h \<in> rd_host ` set ds"
    by (cases rule: all_routers_cases)
      (use r(2) in \<open>auto simp: router_at_def plain_ds_def secure_ds_def dns_domains_def redirect_hosts_def split: if_splits\<close>)
next
  fix h assume "h \<in> rd_host ` set ds"
  then obtain d where d: "d \<in> set ds" "h = rd_host d" by blast
  show "h \<in> (\<Union>r \<in> set (all_routers sha8 nm opts ds). set (rt_hosts r))"
  proof (cases "h \<in> set (redirect_hosts opts ds)")
    case True
    then show ?thesis by (auto simp: all_routers_def redirect_router_def)
  next
    case False
    then obtain g where "g \<in> set (byMiddlewares sha8 (plain_ds opts ds))" "h \<in> set (g_hosts g)"
      using byMiddlewares_spec(2) [of d "plain_ds opts ds" sha8] d by (auto simp: plain_ds_def)
    then show ?thesis by (fastforce simp: all_routers_def plain_routers_def plain_ds_def group_router_def)
  qed
qed

text \<open>The labels that are rules of routers.\<close>

lemma router_rule_key:
  assumes "CHR ''.'' \<notin> set n" and "n \<noteq> []"
  shows "router_rule (router_key n k) \<longleftrightarrow> k = ''rule''"
proof -
  have t: "takeWhile (\<lambda>c. c \<noteq> CHR ''.'') (n @ CHR ''.'' # k) = n" "dropWhile (\<lambda>c. c \<noteq> CHR ''.'') (n @ CHR ''.'' # k) = CHR ''.'' # k"
    using assms(1) by (induction n) auto
  have "router_key n k = ''traefik.http.routers.'' @ n @ CHR ''.'' # k" by (simp add: router_key_def)
  then show ?thesis using t assms(2) by (simp add: router_rule_def starts_with_def)
qed

definition router_entry :: "router \<Rightarrow> string \<times> string \<Rightarrow> bool" where
  "router_entry r e \<longleftrightarrow> (\<exists>k. fst e = router_key (rt_name r) k \<and> (k = ''rule'' \<longrightarrow> snd e = host_rule (rt_hosts r)))"

lemma router_entry_key: "router_entry r (router_key (rt_name r) k, v) \<longleftrightarrow> (k = ''rule'' \<longrightarrow> v = host_rule (rt_hosts r))"
  by (auto simp: router_entry_def router_key_def)

lemma router_label_keys: "list_all (router_entry r) (router_labels svc r)"
  unfolding router_labels_def Let_def list_all_append
  by (intro conjI) (simp_all add: router_entry_key split: option.split)

lemma rules_of_router:
  assumes "CHR ''.'' \<notin> set (rt_name r)" and "rt_name r \<noteq> []" and "(k, v) \<in> set (router_labels svc r)" and "router_rule k"
  shows "k = router_key (rt_name r) ''rule'' \<and> v = host_rule (rt_hosts r)"
proof -
  have "router_entry r (k, v)" using router_label_keys [of r svc] assms(3) by (simp add: list_all_iff)
  then obtain k' where k': "k = router_key (rt_name r) k'" "k' = ''rule'' \<longrightarrow> v = host_rule (rt_hosts r)" unfolding router_entry_def fst_conv snd_conv by blast
  then have "k' = ''rule''" using router_rule_key [OF assms(1,2), of k'] assms(4) by blast
  then show ?thesis using k' by blast
qed

lemma not_rules:
  "\<not> router_rule ''traefik.enable''" "\<not> router_rule (''traefik.http.services.'' @ s)" "\<not> router_rule (''traefik.http.middlewares.'' @ s)"
  by (simp_all add: router_rule_def starts_with_def)

lemma all_router_names:
  assumes "r \<in> set (all_routers sha8 nm opts ds)" and "CHR ''.'' \<notin> set nm" and "nm \<noteq> []" and "\<And>s. hex8 (sha8 s)"
  shows "CHR ''.'' \<notin> set (rt_name r) \<and> rt_name r \<noteq> []"
proof -
  have dots: "CHR ''.'' \<notin> set (suffix_for sha8 k)" "CHR ''.'' \<notin> set (main_suffix sha8 m)" for k m
    using hex8_no_dot [OF assms(4)] by (auto simp: suffix_for_def main_suffix_def)
  from assms(1) show ?thesis
    by (cases rule: all_routers_cases) (use assms(2,3) dots in \<open>auto simp: router_at_def\<close>)
qed

text \<open>The entries \<open>buildLabels\<close> assigns, and which of them are rules.\<close>

lemma set_router_entries:
  "(\<exists>r \<in> set (all_routers sha8 nm opts ds). x \<in> set (router_labels nm r)) \<longleftrightarrow>
     x \<in> set (concat (map (router_labels nm) (plain_routers sha8 nm opts ds))) \<or>
     redirect_hosts opts ds \<noteq> [] \<and> x \<in> set (router_labels nm (redirect_router nm opts ds)) \<or>
     x \<in> set (concat (map (router_labels nm) (secure_routers sha8 nm opts ds))) \<or>
     x \<in> set (concat (map (router_labels nm) (dns_routers sha8 nm opts ds))) \<or>
     x \<in> set (concat (map (router_labels nm) (custom_routers sha8 nm opts ds)))"
  unfolding all_routers_def by (auto split: if_splits)

lemma buildLabels_entries:
  assumes "ds \<noteq> []"
  shows "\<exists>es. buildLabels sha8 nm p ds opts = map_of_entries es \<and>
    (\<forall>k v. router_rule k \<longrightarrow> (k, v) \<in> set es \<longleftrightarrow> (\<exists>r \<in> set (all_routers sha8 nm opts ds). (k, v) \<in> set (router_labels nm r)))"
  unfolding buildLabels_def Let_def if_not_P [OF assms] set_router_entries
proof (intro exI conjI, rule refl, intro allI impI)
  fix k v assume k: "router_rule k"
  have no: "k \<noteq> ''traefik.enable''" "k \<noteq> ''traefik.http.services.'' @ s" "k \<noteq> ''traefik.http.middlewares.'' @ s" for s
    using k not_rules by blast+
  show "(k, v) \<in> set ([(''traefik.enable'', ''true''), (''traefik.http.services.'' @ nm @ ''.loadbalancer.server.port'', nat_str p)] @
      (if lo_retry opts then [((''traefik.http.middlewares.'' @ nm @ ''-retry.retry.'') @ ''attempts'', nat_str RETRY_ATTEMPTS),
        ((''traefik.http.middlewares.'' @ nm @ ''-retry.retry.'') @ ''initialinterval'', RETRY_INITIAL_INTERVAL)] else []) @
      concat (map (router_labels nm) (plain_routers sha8 nm opts ds)) @ redirect_labels nm opts ds @
      concat (map (router_labels nm) (secure_routers sha8 nm opts ds)) @ concat (map (router_labels nm) (dns_routers sha8 nm opts ds)) @
      concat (map (router_labels nm) (custom_routers sha8 nm opts ds))) \<longleftrightarrow>
     (k, v) \<in> set (concat (map (router_labels nm) (plain_routers sha8 nm opts ds))) \<or>
     redirect_hosts opts ds \<noteq> [] \<and> (k, v) \<in> set (router_labels nm (redirect_router nm opts ds)) \<or>
     (k, v) \<in> set (concat (map (router_labels nm) (secure_routers sha8 nm opts ds))) \<or>
     (k, v) \<in> set (concat (map (router_labels nm) (dns_routers sha8 nm opts ds))) \<or>
     (k, v) \<in> set (concat (map (router_labels nm) (custom_routers sha8 nm opts ds)))"
    using no by (simp del: set_concat add: redirect_labels_def Let_def)
qed

lemma rule_entries:
  assumes "CHR ''.'' \<notin> set nm" "nm \<noteq> []" "\<And>s. hex8 (sha8 s)"
  shows "router_rule k \<and> (\<exists>r \<in> set (all_routers sha8 nm opts ds). (k, v) \<in> set (router_labels nm r)) \<longleftrightarrow>
    (\<exists>r \<in> set (all_routers sha8 nm opts ds). k = router_key (rt_name r) ''rule'' \<and> v = host_rule (rt_hosts r))"
proof -
  have nn: "CHR ''.'' \<notin> set (rt_name r) \<and> rt_name r \<noteq> []" if "r \<in> set (all_routers sha8 nm opts ds)" for r
    using all_router_names [OF that] assms by blast
  show ?thesis
  proof
  assume "router_rule k \<and> (\<exists>r \<in> set (all_routers sha8 nm opts ds). (k, v) \<in> set (router_labels nm r))"
  then show "\<exists>r \<in> set (all_routers sha8 nm opts ds). k = router_key (rt_name r) ''rule'' \<and> v = host_rule (rt_hosts r)"
    using nn rules_of_router by blast
next
  assume "\<exists>r \<in> set (all_routers sha8 nm opts ds). k = router_key (rt_name r) ''rule'' \<and> v = host_rule (rt_hosts r)"
  then obtain r where r: "r \<in> set (all_routers sha8 nm opts ds)" "k = router_key (rt_name r) ''rule''" "v = host_rule (rt_hosts r)" by blast
  then have "router_rule k" using router_rule_key nn by blast
  moreover have "(k, v) \<in> set (router_labels nm r)" using r(2,3) by (simp add: router_labels_def Let_def)
  ultimately show "router_rule k \<and> (\<exists>r \<in> set (all_routers sha8 nm opts ds). (k, v) \<in> set (router_labels nm r))" using r(1) by blast
  qed
qed

text \<open>
  C34: The reader of labels and the writer of labels agree: whatever the certificates, middlewares and settings, the hosts
  that the check for domain conflicts finds on a container with the labels of an application are exactly the hosts of its
  domains, in lower case.
\<close>

theorem labels_route_domains:
  assumes "list_all (\<lambda>d. host_name (rd_host d)) domains" and "nm \<noteq> []" "CHR ''.'' \<notin> set nm" and "hash_ok sha8 domains"
  shows "set (routedHosts (buildLabels sha8 nm containerPort domains opts)) = (\<lambda>d. toLowerCase (rd_host d)) ` set domains"
proof (cases "domains = []")
  case False
  have hex: "\<And>s. hex8 (sha8 s)" using assms(4) by (simp add: hash_ok_def)
  let ?R = "set (all_routers sha8 nm opts domains)"
  obtain es where es: "buildLabels sha8 nm containerPort domains opts = map_of_entries es"
    "\<And>k v. router_rule k \<Longrightarrow> (k, v) \<in> set es \<longleftrightarrow> (\<exists>r \<in> ?R. (k, v) \<in> set (router_labels nm r))"
    using buildLabels_entries [OF False, of sha8 nm containerPort opts] by blast
  have rule: "router_rule k \<and> (k, v) \<in> set es \<longleftrightarrow> (\<exists>r \<in> ?R. k = router_key (rt_name r) ''rule'' \<and> v = host_rule (rt_hosts r))" for k v
    using es(2) rule_entries [OF assms(3,2), of sha8 k opts domains v] hex by blast
  have same: "v' = v" if k: "router_rule k" and kv: "(k, v) \<in> set es" and kv': "(k, v') \<in> set es" for k v v'
  proof -
    obtain r where r: "r \<in> ?R" "k = router_key (rt_name r) ''rule''" "v = host_rule (rt_hosts r)" using rule [of k v] k kv by blast
    obtain r' where r': "r' \<in> ?R" "k = router_key (rt_name r') ''rule''" "v' = host_rule (rt_hosts r')" using rule [of k v'] k kv' by blast
    have "rt_name r = rt_name r'" using r(2) r'(2) by (simp add: router_key_def)
    then show ?thesis using router_names [OF assms(4) r(1) r'(1)] r(3) r'(3) by simp
  qed
  have survive: "router_rule k \<and> (k, v) \<in> set (map_of_entries es) \<longleftrightarrow> router_rule k \<and> (k, v) \<in> set es" for k v
    using map_of_entries_subset [of es] map_of_entries_only [of k v es] same by blast
  have names: "list_all host_name (rt_hosts r)" if "r \<in> ?R" for r
    unfolding list_all_iff
  proof
    fix h assume "h \<in> set (rt_hosts r)"
    then have "h \<in> rd_host ` set domains" using all_routers_hosts [of sha8 nm opts domains] that by blast
    then show "host_name h" using assms(1) by (auto simp: list_all_iff)
  qed
  have "set (routedHosts (buildLabels sha8 nm containerPort domains opts)) =
      (\<Union>(k, v) \<in> {(k, v). router_rule k \<and> (k, v) \<in> set (map_of_entries es)}. set (hostsInRule v))"
    unfolding routedHosts_def es(1) by (auto split: if_splits)
  also have "\<dots> = (\<Union>r \<in> ?R. set (hostsInRule (host_rule (rt_hosts r))))"
    unfolding survive rule by auto
  also have "\<dots> = (\<Union>r \<in> ?R. toLowerCase ` set (rt_hosts r))"
    using names hosts_rule by simp
  also have "\<dots> = toLowerCase ` (\<Union>r \<in> ?R. set (rt_hosts r))" by blast
  finally show ?thesis unfolding all_routers_hosts by (simp add: image_image)
qed (simp add: buildLabels_def routedHosts_def)

definition demo_sha :: "string \<Rightarrow> string" where
  "demo_sha s = (if s = ''a@file'' then ''0000000a'' else ''00000000'')"

definition demo_domains :: "routed_domain list" where
  "demo_domains = [\<lparr>rd_host = ''A.example.org'', rd_https = True, rd_customCert = False, rd_dns = None, rd_middlewares = [''a@file'']\<rparr>,
     \<lparr>rd_host = ''b.example.org'', rd_https = False, rd_customCert = False, rd_dns = None, rd_middlewares = []\<rparr>]"

theorem labels_route_domains_witness:
  "set (routedHosts (buildLabels demo_sha ''web'' 80 demo_domains \<lparr>lo_httpsPort = 443, lo_acme = True, lo_dnsResolver = False, lo_retry = True\<rparr>)) =
     {''a.example.org'', ''b.example.org''}"
proof -
  have m: "mkey ` set demo_domains = {''a@file'', []}" "main_of ` set demo_domains = {[]}" by code_simp+
  have "hex8 (demo_sha s)" for s by (simp add: demo_sha_def hex8_def is_digit_def is_lower_def)
  moreover have "inj_on demo_sha (mkey ` set demo_domains \<union> main_of ` set demo_domains)" unfolding m by (auto simp: inj_on_def demo_sha_def)
  ultimately have h: "hash_ok demo_sha demo_domains" by (simp add: hash_ok_def)
  have n: "list_all (\<lambda>d. host_name (rd_host d)) demo_domains" by code_simp
  have "(\<lambda>d. toLowerCase (rd_host d)) ` set demo_domains = {''a.example.org'', ''b.example.org''}" by code_simp
  then show ?thesis using labels_route_domains [OF n _ _ h, of "''web''"] by simp
qed

end
