(* ===== verification/Container_Swap.thy ===== *)
theory Container_Swap
  imports Proxy_Labels
begin

text \<open>
  Replacing the container of an application (\<open>src/modules/application/deployment-runner.service.ts\<close>:
  \<open>replaceContainer\<close>, \<open>recoverPrevious\<close>, \<open>waitHealthy\<close>, \<open>statusAfterFailure\<close>, \<open>recordFailure\<close>), with the helpers it
  calls: \<open>docker/start-with-port-retry.ts\<close>, \<open>docker/resource-limits.ts\<close>, \<open>application/mounts.ts\<close>,
  \<open>application/exposed-ports.ts\<close>, \<open>application/healthcheck.ts\<close>.

  The Docker engine and the database are not part of the program.  A call of the engine is an operation of the record
  \<open>docker_ops\<close>: a function from the state \<open>'w\<close> of the host to an exception or a result and the next state.  An action
  of the program is a function of the same shape.  What the rows and the settings say is the record \<open>swap_answers\<close>.
\<close>

section \<open>Actions\<close>

record probe_result_log =
  pr_ExitCode :: int
  pr_Output :: string

text \<open>
  What may be thrown: an answer of the engine with its status, any other error with its message, the two ends of
  \<open>waitHealthy\<close>, \<open>RecoveredDeployError\<close>, and an error put in the set \<open>unrecovered\<close>.
\<close>

datatype deploy_error =
    DockerEngineError nat string
  | PlainError string
  | ContainerExited "int option"
  | HealthCheckFailed bool "probe_result_log option"
  | RecoveredDeployError deploy_error
  | Unrecovered deploy_error

type_synonym ('w, 'a) act = "'w \<Rightarrow> (deploy_error + 'a) \<times> 'w"

definition returnE :: "'a \<Rightarrow> ('w, 'a) act" where
  "returnE a w = (Inr a, w)"

definition throwE :: "deploy_error \<Rightarrow> ('w, 'a) act" where
  "throwE e w = (Inl e, w)"

definition bindE :: "('w, 'a) act \<Rightarrow> ('a \<Rightarrow> ('w, 'b) act) \<Rightarrow> ('w, 'b) act" where
  "bindE m f w = (case m w of (Inl e, w1) \<Rightarrow> (Inl e, w1) | (Inr a, w1) \<Rightarrow> f a w1)"

definition catchE :: "('w, 'a) act \<Rightarrow> (deploy_error \<Rightarrow> ('w, 'a) act) \<Rightarrow> ('w, 'a) act" where
  "catchE m h w = (case m w of (Inl e, w1) \<Rightarrow> h e w1 | (Inr a, w1) \<Rightarrow> (Inr a, w1))"

text \<open>\<open>m.catch(() => undefined)\<close>.\<close>

definition quietly :: "('w, 'a) act \<Rightarrow> ('w, unit) act" where
  "quietly m = catchE (bindE m (\<lambda>_. returnE ())) (\<lambda>_. returnE ())"

definition whenE :: "bool \<Rightarrow> ('w, unit) act \<Rightarrow> ('w, unit) act" where
  "whenE b m = (if b then m else returnE ())"

fun eachE :: "('x \<Rightarrow> ('w, unit) act) \<Rightarrow> 'x list \<Rightarrow> ('w, unit) act" where
  "eachE f [] = returnE ()"
| "eachE f (x # xs) = bindE (f x) (\<lambda>_. eachE f xs)"

section \<open>The engine\<close>

record host_container =
  hc_id :: string
  hc_name :: string
  hc_image :: string
  hc_labels :: "(string \<times> string) list"
  hc_running :: bool
  hc_health :: "string option"

record container_inspect =
  ci_Running :: bool
  ci_ExitCode :: int
  ci_Health :: "string option"
  ci_Log :: "probe_result_log option"

record resource_limits =
  NanoCpus :: nat
  Memory :: nat
  MemorySwap :: nat

record create_body =
  cb_Image :: string
  cb_Env :: "string list"
  cb_healthUrl :: "string option"
  cb_Labels :: "(string \<times> string) list"
  cb_ExposedPort :: string
  cb_PortBinding :: "(string option \<times> string) option"
  cb_Binds :: "string list"
  cb_limits :: resource_limits

text \<open>The calls that touch no container: networks, volumes, images, rows, the log of the deployment.\<close>

datatype other_call =
    LoadProject | ForServer "string option" | EnsureNetwork | LoadDomains | LoadServer | DnsChallenge | LoadMounts
  | CreateVolume string | EnsureImage string | PutArchive string | InspectVolume string | SwarmDeploy | SwarmRemove | LogStep
  | ContainerPathExists string

record 'w docker_ops =
  op_create :: "create_body \<Rightarrow> string option \<Rightarrow> ('w, string) act"
  op_start :: "string \<Rightarrow> ('w, unit) act"
  op_stop :: "string \<Rightarrow> ('w, unit) act"
  op_remove :: "string \<Rightarrow> ('w, unit) act"
  op_rename :: "string \<Rightarrow> string \<Rightarrow> ('w, unit) act"
  op_inspect :: "string \<Rightarrow> ('w, container_inspect option) act"
  op_find :: "string \<Rightarrow> ('w, host_container option) act"
  op_other :: "other_call \<Rightarrow> ('w, unit) act"

section \<open>Helpers\<close>

definition resourceLimits :: "nat option \<Rightarrow> nat option \<Rightarrow> resource_limits" where
  "resourceLimits cpuMillicores memoryMb =
     (let memory = (case memoryMb of None \<Rightarrow> 0 | Some m \<Rightarrow> m * 1024 * 1024) in
      \<lparr>NanoCpus = (case cpuMillicores of None \<Rightarrow> 0 | Some c \<Rightarrow> c * 1000000), Memory = memory, MemorySwap = memory\<rparr>)"

text \<open>\<open>null\<close> and \<open>0\<close> are no limit.\<close>

definition limited :: "nat option \<Rightarrow> bool" where
  "limited v \<longleftrightarrow> (case v of None \<Rightarrow> False | Some n \<Rightarrow> n \<noteq> 0)"

definition limitsRemoved :: "nat option \<times> nat option \<Rightarrow> nat option \<times> nat option \<Rightarrow> bool" where
  "limitsRemoved before after \<longleftrightarrow>
     limited (fst before) \<and> \<not> limited (fst after) \<or> limited (snd before) \<and> \<not> limited (snd after)"

record full_mount = mount_row +
  mt_containerPath :: string
  mt_hostPath :: "string option"
  mt_readOnly :: bool

definition text_or_empty :: "string option \<Rightarrow> string" where
  "text_or_empty v = (case v of None \<Rightarrow> [] | Some s \<Rightarrow> s)"

definition filePath :: "full_mount \<Rightarrow> string" where
  "filePath m = (if given (mt_service m) then the (mt_service m) @ ''/'' @ text_or_empty (mt_name m) else text_or_empty (mt_name m))"

definition bind_of :: "mount_owner \<Rightarrow> string option \<Rightarrow> full_mount \<Rightarrow> string list" where
  "bind_of owner filesMountpoint m =
     (let ro = (if mt_readOnly m then '':ro'' else []) in
      case mt_type m of
        MVolume \<Rightarrow> [volumeNameFor owner (mount_row.truncate m) @ '':'' @ mt_containerPath m @ ro]
      | MBind \<Rightarrow> [text_or_empty (mt_hostPath m) @ '':'' @ mt_containerPath m @ ro]
      | MFile \<Rightarrow> if given filesMountpoint then [the filesMountpoint @ ''/'' @ filePath m @ '':'' @ mt_containerPath m @ '':ro''] else [])"

definition bindsFor :: "mount_owner \<Rightarrow> full_mount list \<Rightarrow> string option \<Rightarrow> string list" where
  "bindsFor owner mounts filesMountpoint = concat (map (bind_of owner filesMountpoint) mounts)"

definition helper_body :: "string \<Rightarrow> create_body" where
  "helper_body volume = \<lparr>cb_Image = ''busybox:stable'', cb_Env = [], cb_healthUrl = None,
     cb_Labels = [(''com.docker.compose.project'', ''aoox''), (''com.docker.compose.service'', ''mount-helper''), (''com.docker.compose.oneoff'', ''False'')],
     cb_ExposedPort = [], cb_PortBinding = None, cb_Binds = [volume @ '':/files''], cb_limits = resourceLimits None None\<rparr>"

definition prepareMounts :: "'w docker_ops \<Rightarrow> mount_owner \<Rightarrow> full_mount list \<Rightarrow> string \<Rightarrow> ('w, string option) act" where
  "prepareMounts ops owner mounts mountpoint =
     bindE (eachE (\<lambda>m. whenE (mt_type m = MVolume) (op_other ops (CreateVolume (volumeNameFor owner (mount_row.truncate m))))) mounts) (\<lambda>_.
     (let files = filter (\<lambda>m. mt_type m = MFile) mounts; volume = filesVolumeFor owner in
      if files = [] then returnE None
      else
        bindE (op_other ops (CreateVolume volume)) (\<lambda>_.
        bindE (op_other ops (EnsureImage ''busybox:stable'')) (\<lambda>_.
        bindE (op_create ops (helper_body volume) None) (\<lambda>cid.
        bindE (catchE (op_other ops (PutArchive cid)) (\<lambda>e. bindE (quietly (op_remove ops cid)) (\<lambda>_. throwE e))) (\<lambda>_.
        bindE (quietly (op_remove ops cid)) (\<lambda>_.
        bindE (op_other ops (InspectVolume volume)) (\<lambda>_. returnE (Some mountpoint)))))))))"

definition RETRY_DELAYS_MS :: "nat list" where
  "RETRY_DELAYS_MS = [800, 1500, 2500]"

definition is_500 :: "deploy_error \<Rightarrow> bool" where
  "is_500 e \<longleftrightarrow> (case e of DockerEngineError st _ \<Rightarrow> st = 500 | _ \<Rightarrow> False)"

text \<open>One attempt more than there are delays left.\<close>

fun start_attempts :: "('w, unit) act \<Rightarrow> nat option \<Rightarrow> nat list \<Rightarrow> ('w, unit) act" where
  "start_attempts start published delays =
     catchE start (\<lambda>e. case delays of
         [] \<Rightarrow> throwE e
       | d # ds \<Rightarrow> if limited published \<and> is_500 e then start_attempts start published ds else throwE e)"

declare start_attempts.simps [simp del]

definition startWithPortRetry :: "('w, unit) act \<Rightarrow> nat option \<Rightarrow> ('w, unit) act" where
  "startWithPortRetry start published = start_attempts start published RETRY_DELAYS_MS"

text \<open>\<open>/exec(?:ution)? failed|OCI runtime/i\<close>, a mention of the shell, \<open>/no such file|not found/i\<close>.\<close>

definition includes_ci :: "string \<Rightarrow> string \<Rightarrow> bool" where
  "includes_ci s t \<longleftrightarrow> str_includes (toLowerCase s) (toLowerCase t)"

definition quote_or_ws :: "char \<Rightarrow> bool" where
  "quote_or_ws c \<longleftrightarrow> c = CHR 0x22 \<or> c = CHR 0x27 \<or> js_ws c"

definition shell_at :: "string \<Rightarrow> bool" where
  "shell_at s \<longleftrightarrow> (case s of [] \<Rightarrow> False | c # r \<Rightarrow>
     quote_or_ws c \<and>
     (let t = (if starts_with ''/'' r then tl r else r); u = drop 6 t in
      starts_with ''bin/sh'' t \<and> u \<noteq> [] \<and> (quote_or_ws (hd u) \<or> hd u = CHR '':'')))"

fun mentions_shell :: "string \<Rightarrow> bool" where
  "mentions_shell [] = False"
| "mentions_shell (c # s) = (shell_at (c # s) \<or> starts_with (''exec: '' @ [CHR 0x22] @ ''sh'' @ [CHR 0x22]) (c # s) \<or> mentions_shell s)"

definition isMissingShell :: "int \<Rightarrow> string \<Rightarrow> bool" where
  "isMissingShell code out \<longleftrightarrow>
     code \<noteq> 0 \<and> code \<noteq> 127 \<and>
     (includes_ci out ''exec failed'' \<or> includes_ci out ''execution failed'' \<or> includes_ci out ''OCI runtime'') \<and>
     mentions_shell out \<and>
     (includes_ci out ''no such file'' \<or> includes_ci out ''not found'')"

text \<open>The polls until the deadline; the number of rounds the clock allows is an argument.\<close>

fun waitHealthy :: "'w docker_ops \<Rightarrow> string \<Rightarrow> probe_result_log option \<Rightarrow> nat \<Rightarrow> ('w, unit) act" where
  "waitHealthy ops cid last_log 0 = throwE (HealthCheckFailed False last_log)"
| "waitHealthy ops cid last_log (Suc n) =
     bindE (op_inspect ops cid) (\<lambda>ci.
       case ci of
         None \<Rightarrow> throwE (ContainerExited None)
       | Some c \<Rightarrow>
           if \<not> ci_Running c then throwE (ContainerExited (Some (ci_ExitCode c)))
           else if ci_Health c = Some ''healthy'' then returnE ()
           else let l = (case ci_Log c of None \<Rightarrow> last_log | Some x \<Rightarrow> Some x) in
             if (case l of None \<Rightarrow> False | Some x \<Rightarrow> isMissingShell (pr_ExitCode x) (pr_Output x)) then throwE (HealthCheckFailed True l)
             else if ci_Health c = Some ''unhealthy'' then throwE (HealthCheckFailed True l)
             else waitHealthy ops cid l n)"

section \<open>The swap\<close>

record swap_app =
  sa_id :: string
  sa_projectId :: string
  sa_appName :: string
  sa_projectLoaded :: bool
  sa_serverId :: "string option"
  sa_railpack :: bool
  sa_containerPort :: nat
  sa_hostPort :: "nat option"
  sa_hostPortBind :: "string option"
  sa_healthcheckPath :: "string option"
  sa_service :: bool
  sa_currentImage :: "string option"
  sa_cpuMillicores :: "nat option"
  sa_memoryMb :: "nat option"

record swap_override =
  ov_name :: string
  ov_routerName :: string
  ov_domains :: "routed_domain list"
  ov_labels :: "(string \<times> string) list"
  ov_hostPort :: "nat option"

record swap_answers =
  an_env :: "bool \<Rightarrow> deploy_error + string list"
  an_domains :: "routed_domain list"
  an_settings :: proxy_settings
  an_dnsActive :: bool
  an_mounts :: "full_mount list"
  an_mountpoint :: string
  an_rounds :: nat
  an_log :: bool
  an_serviceId :: string
  an_serviceRunning :: "nat option"
  an_sha8 :: "string \<Rightarrow> string"

definition containerNameFor :: "swap_app \<Rightarrow> string" where
  "containerNameFor app = ''aoox-app-'' @ sa_appName app"

definition healthcheck_url :: "swap_app \<Rightarrow> string option" where
  "healthcheck_url app =
     (case sa_healthcheckPath app of
        None \<Rightarrow> None
      | Some p \<Rightarrow> if p = [] then None
          else Some (''http://127.0.0.1:'' @ nat_str (sa_containerPort app) @ (if starts_with ''/'' p then p else ''/'' @ p)))"

definition swap_env :: "swap_app \<Rightarrow> string list \<Rightarrow> string list" where
  "swap_env app env =
     (if sa_railpack app \<and> \<not> list_ex (starts_with ''PORT='') env then env @ [''PORT='' @ nat_str (sa_containerPort app)] else env)"

definition swap_domains :: "swap_answers \<Rightarrow> swap_override option \<Rightarrow> routed_domain list" where
  "swap_domains an ov = (case ov of Some v \<Rightarrow> ov_domains v | None \<Rightarrow> an_domains an)"

definition wants_dns :: "swap_answers \<Rightarrow> swap_override option \<Rightarrow> bool" where
  "wants_dns an ov \<longleftrightarrow> list_ex (\<lambda>d. rd_dns d \<noteq> None) (swap_domains an ov)"

definition swap_hostPort :: "swap_app \<Rightarrow> swap_override option \<Rightarrow> nat option" where
  "swap_hostPort app ov = (case ov of Some v \<Rightarrow> ov_hostPort v | None \<Rightarrow> sa_hostPort app)"

definition swap_name :: "swap_app \<Rightarrow> swap_override option \<Rightarrow> string" where
  "swap_name app ov = (case ov of Some v \<Rightarrow> ov_name v | None \<Rightarrow> containerNameFor app)"

text \<open>\<open>{ ...a, ...b, ...c }\<close>.\<close>

definition swap_labels :: "swap_answers \<Rightarrow> swap_app \<Rightarrow> swap_override option \<Rightarrow> (string \<times> string) list" where
  "swap_labels an app ov =
     (let settings = (if wants_dns an ov then (an_settings an)\<lparr>ps_dnsChallenge := an_dnsActive an\<rparr> else an_settings an) in
      map_of_entries (
        [(''aoox.component'', ''application''), (''aoox.application'', sa_id app), (''aoox.project'', sa_projectId app),
         (''com.docker.compose.project'', ''aoox''), (''com.docker.compose.service'', ''app-'' @ sa_appName app), (''com.docker.compose.oneoff'', ''False'')] @
        labelsFor (an_sha8 an) (case ov of Some v \<Rightarrow> ov_routerName v | None \<Rightarrow> sa_appName app) (sa_containerPort app)
          (swap_domains an ov) settings (ov = None) @
        (case ov of Some v \<Rightarrow> ov_labels v | None \<Rightarrow> [])))"

definition swap_body :: "swap_answers \<Rightarrow> swap_app \<Rightarrow> swap_override option \<Rightarrow> string \<Rightarrow> string list \<Rightarrow> string option \<Rightarrow> create_body" where
  "swap_body an app ov imageRef env filesMountpoint =
     \<lparr>cb_Image = imageRef, cb_Env = env, cb_healthUrl = healthcheck_url app, cb_Labels = swap_labels an app ov,
      cb_ExposedPort = nat_str (sa_containerPort app) @ ''/tcp'',
      cb_PortBinding = (if limited (swap_hostPort app ov) then Some (hostPortBinding (the (swap_hostPort app ov)) (sa_hostPortBind app)) else None),
      cb_Binds = bindsFor (AppOwner (sa_appName app)) (if ov = None then an_mounts an else []) filesMountpoint,
      cb_limits = resourceLimits (sa_cpuMillicores app) (sa_memoryMb app)\<rparr>"

text \<open>The network, the rows and the mounts; the directory of the files volume.\<close>

definition swap_resources :: "'w docker_ops \<Rightarrow> swap_answers \<Rightarrow> swap_app \<Rightarrow> swap_override option \<Rightarrow> ('w, string option) act" where
  "swap_resources ops an app ov =
     bindE (op_other ops EnsureNetwork) (\<lambda>_.
     bindE (whenE (ov = None) (op_other ops LoadDomains)) (\<lambda>_.
     bindE (whenE (given (sa_serverId app)) (op_other ops LoadServer)) (\<lambda>_.
     bindE (whenE (wants_dns an ov) (op_other ops DnsChallenge)) (\<lambda>_.
     bindE (whenE (ov = None) (op_other ops LoadMounts)) (\<lambda>_.
     prepareMounts ops (AppOwner (sa_appName app)) (if ov = None then an_mounts an else []) (an_mountpoint an))))))"

text \<open>Everything before the first container is touched: the environment, the container that has the name, the mounts.\<close>

definition swap_prepare ::
  "'w docker_ops \<Rightarrow> swap_answers \<Rightarrow> swap_app \<Rightarrow> swap_override option \<Rightarrow> ('w, string list \<times> host_container option \<times> string option) act" where
  "swap_prepare ops an app ov =
     bindE (whenE (\<not> sa_projectLoaded app) (op_other ops LoadProject)) (\<lambda>_.
     case an_env an (ov = None) of
       Inl e \<Rightarrow> throwE e
     | Inr env \<Rightarrow>
         bindE (op_other ops (ForServer (sa_serverId app))) (\<lambda>_.
         bindE (op_find ops (swap_name app ov)) (\<lambda>existing.
         bindE (swap_resources ops an app ov) (\<lambda>files.
         returnE (swap_env app env, existing, files)))))"

definition removeFailed :: "'w docker_ops \<Rightarrow> string option \<Rightarrow> string \<Rightarrow> ('w, unit) act" where
  "removeFailed ops cid name =
     quietly (case cid of
        Some i \<Rightarrow> op_remove ops i
      | None \<Rightarrow> bindE (op_find ops name) (\<lambda>f. case f of None \<Rightarrow> returnE () | Some c \<Rightarrow> op_remove ops (hc_id c)))"

text \<open>
  \<open>lacksShell\<close> and the note it leads to: their failures are dropped and their answer only writes a line, so that they are
  one call whose end does not matter.
\<close>

definition note_shell :: "'w docker_ops \<Rightarrow> swap_answers \<Rightarrow> swap_app \<Rightarrow> string \<Rightarrow> ('w, unit) act" where
  "note_shell ops an app cid = whenE (healthcheck_url app \<noteq> None \<and> an_log an) (quietly (op_other ops (ContainerPathExists cid)))"

definition start_and_wait :: "'w docker_ops \<Rightarrow> swap_answers \<Rightarrow> swap_app \<Rightarrow> swap_override option \<Rightarrow> string \<Rightarrow> ('w, unit) act" where
  "start_and_wait ops an app ov cid =
     bindE (note_shell ops an app cid) (\<lambda>_.
     bindE (startWithPortRetry (op_start ops cid) (swap_hostPort app ov)) (\<lambda>_.
       if healthcheck_url app = None then returnE ()
       else bindE (whenE (an_log an) (op_other ops LogStep)) (\<lambda>_. waitHealthy ops cid None (an_rounds an))))"

text \<open>Create, start and wait; a failure carries the id of the container, if it has one yet.\<close>

definition bring_up ::
  "'w docker_ops \<Rightarrow> swap_answers \<Rightarrow> swap_app \<Rightarrow> swap_override option \<Rightarrow> create_body \<Rightarrow> string \<Rightarrow>
   'w \<Rightarrow> (string option \<times> deploy_error + string) \<times> 'w" where
  "bring_up ops an app ov body createName w =
     (case op_create ops body (Some createName) w of
        (Inl e, w1) \<Rightarrow> (Inl (None, e), w1)
      | (Inr cid, w1) \<Rightarrow>
          (case start_and_wait ops an app ov cid w1 of
             (Inl e, w2) \<Rightarrow> (Inl (Some cid, e), w2)
           | (Inr _, w2) \<Rightarrow> (Inr cid, w2)))"

text \<open>The end of a blue/green swap and the last line of the log.\<close>

definition swap_finish ::
  "'w docker_ops \<Rightarrow> swap_answers \<Rightarrow> swap_app \<Rightarrow> bool \<Rightarrow> host_container option \<Rightarrow> string \<Rightarrow> string \<Rightarrow> ('w, string) act" where
  "swap_finish ops an app blueGreen existing cid name =
     bindE (if healthcheck_url app = None then returnE ()
        else bindE (case existing of
            Some old \<Rightarrow> if blueGreen then
                bindE (quietly (op_stop ops (hc_id old))) (\<lambda>_.
                bindE (op_remove ops (hc_id old)) (\<lambda>_.
                op_rename ops cid name))
              else returnE ()
          | None \<Rightarrow> returnE ()) (\<lambda>_.
        whenE (an_log an) (op_other ops LogStep)))
     (\<lambda>_. returnE cid)"

definition blue_green :: "swap_app \<Rightarrow> swap_override option \<Rightarrow> host_container option \<Rightarrow> bool" where
  "blue_green app ov existing \<longleftrightarrow>
     healthcheck_url app \<noteq> None \<and> \<not> limited (swap_hostPort app ov) \<and> ov = None \<and> existing \<noteq> None"

text \<open>
  The previous image, when a plain replace has already removed its container; \<open>again\<close> is \<open>replaceContainer\<close> with
  another image.  The result is what is thrown.
\<close>

definition recoverPrevious :: "(string \<Rightarrow> ('w, string) act) \<Rightarrow> swap_app \<Rightarrow> string \<Rightarrow> deploy_error \<Rightarrow> ('w, string) act" where
  "recoverPrevious again app failedRef cause =
     (case sa_currentImage app of
        None \<Rightarrow> throwE cause
      | Some previous \<Rightarrow>
          if previous = [] \<or> previous = failedRef then throwE cause
          else bindE (catchE (again previous) (\<lambda>e. throwE (Unrecovered cause))) (\<lambda>_. throwE (RecoveredDeployError cause)))"

text \<open>What has to go before the new container is created: a left-over \<open>-next\<close>, or the container that is replaced.\<close>

definition create_name :: "swap_app \<Rightarrow> swap_override option \<Rightarrow> host_container option \<Rightarrow> string" where
  "create_name app ov existing = (if blue_green app ov existing then swap_name app ov @ ''-next'' else swap_name app ov)"

definition clear_place :: "'w docker_ops \<Rightarrow> swap_app \<Rightarrow> swap_override option \<Rightarrow> host_container option \<Rightarrow> ('w, unit) act" where
  "clear_place ops app ov existing =
     (if blue_green app ov existing then
        bindE (op_find ops (create_name app ov existing)) (\<lambda>stale. case stale of None \<Rightarrow> returnE () | Some c \<Rightarrow> op_remove ops (hc_id c))
      else case existing of None \<Rightarrow> returnE () | Some old \<Rightarrow> op_remove ops (hc_id old))"

definition swap_in ::
  "(string \<Rightarrow> ('w, string) act) \<Rightarrow> 'w docker_ops \<Rightarrow> swap_answers \<Rightarrow> swap_app \<Rightarrow> string \<Rightarrow> swap_override option \<Rightarrow> host_container option \<Rightarrow>
   create_body \<Rightarrow> ('w, string) act" where
  "swap_in again ops an app imageRef ov existing body w =
     (case bring_up ops an app ov body (create_name app ov existing) w of
        (Inr cid, w1) \<Rightarrow> swap_finish ops an app (blue_green app ov existing) existing cid (swap_name app ov) w1
      | (Inl (cid, e), w1) \<Rightarrow>
          bindE (whenE (ov = None) (removeFailed ops cid (create_name app ov existing))) (\<lambda>_.
            if \<not> blue_green app ov existing \<and> existing \<noteq> None \<and> ov = None then recoverPrevious again app imageRef e else throwE e) w1)"

definition replace_found ::
  "(string \<Rightarrow> ('w, string) act) \<Rightarrow> 'w docker_ops \<Rightarrow> swap_answers \<Rightarrow> swap_app \<Rightarrow> string \<Rightarrow> swap_override option \<Rightarrow>
   string list \<Rightarrow> host_container option \<Rightarrow> string option \<Rightarrow> ('w, string) act" where
  "replace_found again ops an app imageRef ov env existing files =
     (if sa_service app \<and> ov = None then
        if given (sa_serverId app) then throwE (PlainError ''Swarm services run on the aoox host only'')
        else bindE (op_other ops SwarmDeploy) (\<lambda>_. returnE (an_serviceId an))
      else
        bindE (whenE (ov = None) (quietly (op_other ops SwarmRemove))) (\<lambda>_.
        bindE (clear_place ops app ov existing) (\<lambda>_.
        swap_in again ops an app imageRef ov existing (swap_body an app ov imageRef env files))))"

definition replace_body ::
  "(string \<Rightarrow> ('w, string) act) \<Rightarrow> 'w docker_ops \<Rightarrow> swap_answers \<Rightarrow> swap_app \<Rightarrow> string \<Rightarrow> swap_override option \<Rightarrow> ('w, string) act" where
  "replace_body again ops an app imageRef ov =
     bindE (swap_prepare ops an app ov) (\<lambda>(env, existing, files). replace_found again ops an app imageRef ov env existing files)"

function replaceContainer :: "'w docker_ops \<Rightarrow> swap_answers \<Rightarrow> swap_app \<Rightarrow> string \<Rightarrow> swap_override option \<Rightarrow> ('w, string) act" where
  "replaceContainer ops an app imageRef ov =
     replace_body (\<lambda>previous. if previous \<noteq> imageRef \<and> sa_currentImage app = Some previous
         then replaceContainer ops an app previous None else throwE (PlainError [])) ops an app imageRef ov"
  by pat_completeness auto
termination
  by (relation "measure (\<lambda>(ops, an, app, imageRef, ov). if sa_currentImage app = Some imageRef then 0 else 1)") auto

declare replaceContainer.simps [simp del]

section \<open>After a failure\<close>

datatype swap_status = SRunning | SError

definition statusAfterFailure :: "'w docker_ops \<Rightarrow> swap_answers \<Rightarrow> swap_app \<Rightarrow> ('w, swap_status) act" where
  "statusAfterFailure ops an app =
     (if sa_service app then returnE (case an_serviceRunning an of None \<Rightarrow> SError | Some n \<Rightarrow> if 0 < n then SRunning else SError)
      else catchE
       (bindE (op_other ops (ForServer (sa_serverId app))) (\<lambda>_.
        bindE (op_find ops (containerNameFor app)) (\<lambda>f.
        case f of
          None \<Rightarrow> returnE SError
        | Some c \<Rightarrow>
            bindE (op_inspect ops (hc_id c)) (\<lambda>ci.
            case ci of
              None \<Rightarrow> returnE SError
            | Some i \<Rightarrow> returnE (if ci_Running i \<and> ci_Health i \<noteq> Some ''unhealthy'' \<and> ci_Health i \<noteq> Some ''starting'' then SRunning else SError)))))
       (\<lambda>_. returnE SError))"

datatype failure_note = StillServing | FirstDeployment | NotRestored | AlreadyReplaced

definition failureNote :: "swap_status \<Rightarrow> bool \<Rightarrow> bool \<Rightarrow> failure_note" where
  "failureNote status firstDeployment recoveryFailed =
     (if status = SRunning then StillServing
      else if firstDeployment then FirstDeployment
      else if recoveryFailed then NotRestored
      else AlreadyReplaced)"

text \<open>The status that is stored and the note written to the log.\<close>

definition recordFailure :: "'w docker_ops \<Rightarrow> swap_answers \<Rightarrow> swap_app \<Rightarrow> deploy_error \<Rightarrow> ('w, swap_status \<times> failure_note option) act" where
  "recordFailure ops an app err =
     bindE (statusAfterFailure ops an app) (\<lambda>st.
       returnE (st,
         if (case err of RecoveredDeployError _ \<Rightarrow> True | _ \<Rightarrow> False) \<and> st = SRunning then None
         else Some (failureNote st (\<not> given (sa_currentImage app)) (case err of Unrecovered _ \<Rightarrow> True | _ \<Rightarrow> False))))"

text \<open>
  The part of \<open>run\<close> and \<open>rollback\<close> from the step \<open>starting\<close> on: the image that is running afterwards, or the status and
  note of the failure.
\<close>

definition deploy_image :: "'w docker_ops \<Rightarrow> swap_answers \<Rightarrow> swap_app \<Rightarrow> string \<Rightarrow> 'w \<Rightarrow> ((swap_status \<times> failure_note option) + string) \<times> 'w" where
  "deploy_image ops an app imageRef w =
     (case replaceContainer ops an app imageRef None w of
        (Inr _, w1) \<Rightarrow> (Inr imageRef, w1)
      | (Inl e, w1) \<Rightarrow>
          (case recordFailure ops an app e w1 of
             (Inr st, w2) \<Rightarrow> (Inl st, w2)
           | (Inl _, w2) \<Rightarrow> (Inl (SError, None), w2)))"

end
