(* ===== verification/Container_Swap_Laws.thy ===== *)
theory Container_Swap_Laws
  imports Container_Swap
begin

text \<open>
  Replacing a container under failures of the engine.  The locale \<open>docker_host\<close> states what is used of the Docker
  engine: every call may fail, with or without having taken effect, but touches no container other than its own.  The
  laws are proved with the weakest precondition of an action for its two ends.
\<close>

section \<open>Two ends of an action\<close>

definition wp :: "('w, 'a) act \<Rightarrow> ('a \<Rightarrow> 'w \<Rightarrow> bool) \<Rightarrow> (deploy_error \<Rightarrow> 'w \<Rightarrow> bool) \<Rightarrow> 'w \<Rightarrow> bool" where
  "wp m Q E w \<longleftrightarrow> (case m w of (Inl e, w1) \<Rightarrow> E e w1 | (Inr a, w1) \<Rightarrow> Q a w1)"

named_theorems wp_rules \<open>how the combinators of actions transform their postconditions\<close>

lemma wp_return [wp_rules]: "wp (returnE a) Q E = Q a"
  by (rule ext) (simp add: wp_def returnE_def)

lemma wp_throw [wp_rules]: "wp (throwE e) Q E = E e"
  by (rule ext) (simp add: wp_def throwE_def)

lemma wp_bind [wp_rules]: "wp (bindE m f) Q E = wp m (\<lambda>a. wp (f a) Q E) E"
  by (rule ext) (simp add: wp_def bindE_def split: prod.splits sum.splits)

lemma wp_catch [wp_rules]: "wp (catchE m h) Q E = wp m Q (\<lambda>e. wp (h e) Q E)"
  by (rule ext) (simp add: wp_def catchE_def split: prod.splits sum.splits)

lemma wp_quietly [wp_rules]: "wp (quietly m) Q E = wp m (\<lambda>_. Q ()) (\<lambda>_. Q ())"
  by (simp add: quietly_def wp_rules)

lemma wp_when [wp_rules]: "wp (whenE b m) Q E = (if b then wp m Q E else Q ())"
  by (simp add: whenE_def wp_rules)

lemma wp_mono: "wp m Q E w \<Longrightarrow> (\<And>a w. Q a w \<Longrightarrow> Q' a w) \<Longrightarrow> (\<And>e w. E e w \<Longrightarrow> E' e w) \<Longrightarrow> wp m Q' E' w"
  by (auto simp: wp_def split: prod.splits sum.splits)

lemma wpD_Inr: "wp m Q E w \<Longrightarrow> m w = (Inr a, w') \<Longrightarrow> Q a w'"
  by (simp add: wp_def)

lemma wpD_Inl: "wp m Q E w \<Longrightarrow> m w = (Inl e, w') \<Longrightarrow> E e w'"
  by (simp add: wp_def)

text \<open>An action that keeps a property of the host, whichever way it ends.\<close>

definition keeps :: "('w \<Rightarrow> bool) \<Rightarrow> ('w, 'a) act \<Rightarrow> bool" where
  "keeps P m \<longleftrightarrow> (\<forall>w. P w \<longrightarrow> wp m (\<lambda>_. P) (\<lambda>_. P) w)"

named_theorems keeps_intros \<open>actions that keep a property\<close>

lemma keepsD: "keeps P m \<Longrightarrow> P w \<Longrightarrow> wp m (\<lambda>_. P) (\<lambda>_. P) w"
  by (simp add: keeps_def)

lemma keeps_return [keeps_intros]: "keeps P (returnE a)" and keeps_throw [keeps_intros]: "keeps P (throwE e)"
  by (simp_all add: keeps_def wp_rules)

lemma keeps_bind [keeps_intros]: "keeps P m \<Longrightarrow> (\<And>a. keeps P (f a)) \<Longrightarrow> keeps P (bindE m f)"
  unfolding keeps_def wp_rules by (blast intro: wp_mono)

lemma keeps_catch [keeps_intros]: "keeps P m \<Longrightarrow> (\<And>e. keeps P (h e)) \<Longrightarrow> keeps P (catchE m h)"
  unfolding keeps_def wp_rules by (blast intro: wp_mono)

lemma keeps_quietly [keeps_intros]: "keeps P m \<Longrightarrow> keeps P (quietly m)"
  by (simp add: keeps_def wp_rules)

lemma keeps_when [keeps_intros]: "(b \<Longrightarrow> keeps P m) \<Longrightarrow> keeps P (whenE b m)"
  by (simp add: keeps_def wp_rules)

lemma keeps_if [keeps_intros]: "(b \<Longrightarrow> keeps P m) \<Longrightarrow> (\<not> b \<Longrightarrow> keeps P m') \<Longrightarrow> keeps P (if b then m else m')"
  by simp

lemma keeps_each [keeps_intros]: "(\<And>x. keeps P (f x)) \<Longrightarrow> keeps P (eachE f xs)"
  by (induction xs) (auto intro: keeps_intros)

lemma keeps_attempts [keeps_intros]: "keeps P m \<Longrightarrow> keeps P (start_attempts m p ds)"
  by (induction ds) (subst start_attempts.simps, auto intro!: keeps_intros)+

section \<open>What is used of the engine\<close>

definition kept :: "host_container \<Rightarrow> host_container \<Rightarrow> bool" where
  "kept c c' \<longleftrightarrow> hc_id c' = hc_id c \<and> hc_name c' = hc_name c \<and> hc_image c' = hc_image c \<and> hc_labels c' = hc_labels c"

text \<open>Only the state of one container may differ.\<close>

definition touched :: "string \<Rightarrow> host_container list \<Rightarrow> host_container list \<Rightarrow> bool" where
  "touched i cs cs' \<longleftrightarrow> list_all2 (\<lambda>c c'. if hc_id c = i then kept c c' else c' = c) cs cs'"

definition without :: "string \<Rightarrow> host_container list \<Rightarrow> host_container list" where
  "without i cs = filter (\<lambda>c. hc_id c \<noteq> i) cs"

definition renamed :: "string \<Rightarrow> string \<Rightarrow> host_container list \<Rightarrow> host_container list" where
  "renamed i n cs = map (\<lambda>c. if hc_id c = i then c\<lparr>hc_name := n\<rparr> else c) cs"

definition created :: "create_body \<Rightarrow> string option \<Rightarrow> host_container list \<Rightarrow> host_container \<Rightarrow> bool" where
  "created b nm cs c \<longleftrightarrow> hc_id c \<notin> hc_id ` set cs \<and> hc_name c \<notin> hc_name ` set cs \<and> (\<forall>n. nm = Some n \<longrightarrow> hc_name c = n) \<and>
     hc_image c = cb_Image b \<and> map_of (cb_Labels b) \<subseteq>\<^sub>m map_of (hc_labels c)"

text \<open>The engine gives every container an id and a name of its own.\<close>

definition ok :: "host_container list \<Rightarrow> bool" where
  "ok cs \<longleftrightarrow> distinct (map hc_id cs) \<and> distinct (map hc_name cs)"

definition has :: "host_container \<Rightarrow> host_container list \<Rightarrow> bool" where
  "has c cs \<longleftrightarrow> ok cs \<and> c \<in> set cs"

lemma touched_ids: "touched i cs cs' \<Longrightarrow> map hc_id cs' = map hc_id cs \<and> map hc_name cs' = map hc_name cs"
  unfolding touched_def by (induction rule: list_all2_induct) (auto simp: kept_def split: if_splits)

lemma touched_other: "touched i cs cs' \<Longrightarrow> c \<in> set cs \<Longrightarrow> hc_id c \<noteq> i \<Longrightarrow> c \<in> set cs'"
  unfolding touched_def by (induction rule: list_all2_induct) auto

lemma touched_own: "touched i cs cs' \<Longrightarrow> c \<in> set cs \<Longrightarrow> hc_id c = i \<Longrightarrow> \<exists>c' \<in> set cs'. kept c c'"
  unfolding touched_def by (induction rule: list_all2_induct) auto

lemma kept_trans: "kept a b \<Longrightarrow> kept b c \<Longrightarrow> kept a c"
  by (simp add: kept_def)

lemma unique_id: "ok cs \<Longrightarrow> a \<in> set cs \<Longrightarrow> b \<in> set cs \<Longrightarrow> hc_id a = hc_id b \<Longrightarrow> a = b"
  unfolding ok_def by (metis distinct_map inj_onD)

lemma unique_name: "ok cs \<Longrightarrow> a \<in> set cs \<Longrightarrow> b \<in> set cs \<Longrightarrow> hc_name a = hc_name b \<Longrightarrow> a = b"
  unfolding ok_def by (metis distinct_map inj_onD)

lemma find_named: "ok cs \<Longrightarrow> c \<in> set cs \<Longrightarrow> List.find (\<lambda>x. hc_name x = hc_name c) cs = Some c"
proof (cases "List.find (\<lambda>x. hc_name x = hc_name c) cs")
  case (Some d)
  then have "d \<in> set cs" "hc_name d = hc_name c" by (auto dest: find_SomeD)
  then show "ok cs \<Longrightarrow> c \<in> set cs \<Longrightarrow> ?thesis" using Some unique_name by metis
qed (auto simp: find_None_iff)

lemma ok_without: "ok cs \<Longrightarrow> ok (without i cs)"
  by (simp add: ok_def without_def distinct_map_filter)

lemma ok_created: "ok cs \<Longrightarrow> created b nm cs c \<Longrightarrow> ok (cs @ [c])"
  by (auto simp: ok_def created_def)

lemma ok_touched: "ok cs \<Longrightarrow> touched i cs cs' \<Longrightarrow> ok cs'"
  using touched_ids by (simp add: ok_def)

lemma ok_renamed: "ok cs \<Longrightarrow> n \<notin> hc_name ` set cs \<Longrightarrow> ok (renamed i n cs)"
proof (induction cs)
  case (Cons c cs)
  have "hc_id x \<noteq> i" if "x \<in> set cs" "hc_id c = i" for x using Cons.prems(1) that by (simp add: ok_def) (metis imageI)
  then have same: "renamed i n cs = cs" if "hc_id c = i" using that by (simp add: renamed_def map_idI)
  have ids: "map hc_id (renamed i n cs) = map hc_id cs" by (simp add: renamed_def)
  have names: "hc_name ` set (renamed i n cs) \<subseteq> insert n (hc_name ` set cs)" by (auto simp: renamed_def)
  have IH: "ok (renamed i n cs)" using Cons by (simp add: ok_def)
  show ?case
  proof (cases "hc_id c = i")
    case True then show ?thesis using Cons.prems same by (auto simp: ok_def renamed_def)
  next
    case False
    then have "renamed i n (c # cs) = c # renamed i n cs" by (simp add: renamed_def)
    moreover have "hc_id c \<notin> hc_id ` set (renamed i n cs)" using Cons.prems(1) ids by (metis distinct.simps(2) list.set_map list.simps(9) ok_def)
    moreover have "hc_name c \<notin> hc_name ` set (renamed i n cs)" using Cons.prems names by (auto simp: ok_def)
    ultimately show ?thesis using IH by (simp add: ok_def)
  qed
qed (simp add: ok_def renamed_def)

lemma has_renamed: "has d cs \<Longrightarrow> n \<notin> hc_name ` set cs \<Longrightarrow> has (d\<lparr>hc_name := n\<rparr>) (renamed (hc_id d) n cs)"
proof -
  assume h: "has d cs" and n: "n \<notin> hc_name ` set cs"
  have "d\<lparr>hc_name := n\<rparr> \<in> set (renamed (hc_id d) n cs)"
    unfolding renamed_def set_map by (rule rev_image_eqI [of d]) (use h in \<open>simp_all add: has_def\<close>)
  then show ?thesis using h n ok_renamed by (simp add: has_def)
qed

lemma created_other: "created b nm cs x \<Longrightarrow> has c cs \<Longrightarrow> hc_id x \<noteq> hc_id c"
  by (auto simp: created_def has_def)

lemma has_steps:
  "has c cs \<Longrightarrow> hc_id c \<noteq> i \<Longrightarrow> has c (without i cs)"
  "has c cs \<Longrightarrow> created b nm cs x \<Longrightarrow> has c (cs @ [x])"
  "has c cs \<Longrightarrow> hc_id c \<noteq> i \<Longrightarrow> touched i cs cs' \<Longrightarrow> has c cs'"
  "has c cs \<Longrightarrow> hc_id c \<noteq> i \<Longrightarrow> n \<notin> hc_name ` set cs \<Longrightarrow> has c (renamed i n cs)"
  by (auto simp: has_def ok_without ok_created intro: ok_touched touched_other ok_renamed)
     (auto simp: without_def renamed_def)

text \<open>The container itself: still there with its name and image, running and healthy when it was waited for.\<close>

definition there :: "host_container \<Rightarrow> (host_container \<Rightarrow> bool) \<Rightarrow> host_container list \<Rightarrow> bool" where
  "there c R cs \<longleftrightarrow> ok cs \<and> (\<exists>c' \<in> set cs. kept c c' \<and> R c')"

lemma touched_there: "there c R cs \<Longrightarrow> touched (hc_id c) cs cs' \<Longrightarrow> there c (\<lambda>_. True) cs'"
proof -
  assume "there c R cs" and t: "touched (hc_id c) cs cs'"
  then obtain d where d: "ok cs" "d \<in> set cs" "kept c d" by (auto simp: there_def)
  have "hc_id d = hc_id c" using d(3) by (simp add: kept_def)
  then obtain d' where "d' \<in> set cs'" "kept d d'" using touched_own [OF t d(2)] by blast
  then show ?thesis using d ok_touched [OF d(1) t] kept_trans by (auto simp: there_def)
qed

text \<open>The container that was asked for, up and, when it has a health check, healthy.\<close>

definition serving :: "swap_app \<Rightarrow> create_body \<Rightarrow> string \<Rightarrow> string \<Rightarrow> host_container \<Rightarrow> bool" where
  "serving app b i nm d \<longleftrightarrow> hc_id d = i \<and> hc_name d = nm \<and> hc_image d = cb_Image b \<and> map_of (cb_Labels b) \<subseteq>\<^sub>m map_of (hc_labels d) \<and>
     hc_running d \<and> (healthcheck_url app \<noteq> None \<longrightarrow> hc_health d = Some ''healthy'')"

text \<open>What the preparation finds under the name.\<close>

definition found :: "swap_app \<Rightarrow> swap_override option \<Rightarrow> host_container \<Rightarrow> host_container option \<Rightarrow> bool" where
  "found app ov c ex \<longleftrightarrow> (if hc_name c = swap_name app ov then ex = Some c else (\<forall>d. ex = Some d \<longrightarrow> hc_id d \<noteq> hc_id c))"

text \<open>The container that was found is still there when the preparation ends.\<close>

definition still :: "swap_app \<Rightarrow> swap_override option \<Rightarrow> host_container option \<Rightarrow> host_container list \<Rightarrow> bool" where
  "still app ov ex cs \<longleftrightarrow> ok cs \<and> (\<forall>x. ex = Some x \<longrightarrow> has x cs \<and> hc_name x = swap_name app ov)"

locale docker_host =
  fixes ops :: "'w docker_ops" and view :: "'w \<Rightarrow> host_container list"
  assumes create: "op_create ops b nm w = (r1, w') \<Longrightarrow>
      view w' = view w \<and> isl r1 \<or> (\<exists>c. view w' = view w @ [c] \<and> created b nm (view w) c \<and> (isl r1 \<or> r1 = Inr (hc_id c)))"
    and remove: "op_remove ops i w = (r2, w') \<Longrightarrow> view w' = view w \<and> isl r2 \<or> view w' = without i (view w)"
    and start: "op_start ops i w = (r3, w') \<Longrightarrow> touched i (view w) (view w') \<and> (isl r3 \<or> (\<forall>c \<in> set (view w'). hc_id c = i \<longrightarrow> hc_running c))"
    and stop: "op_stop ops i w = (r4, w') \<Longrightarrow> touched i (view w) (view w')"
    and rename: "op_rename ops i n w = (r5, w') \<Longrightarrow>
      view w' = view w \<and> isl r5 \<or> n \<notin> hc_name ` set (view w) \<and> view w' = renamed i n (view w)"
    and inspect: "op_inspect ops i w = (r6, w') \<Longrightarrow> touched i (view w) (view w') \<and>
      (\<forall>x. r6 = Inr (Some x) \<longrightarrow> (\<exists>c \<in> set (view w'). hc_id c = i \<and> hc_running c = ci_Running x \<and> hc_health c = ci_Health x))"
    and find: "op_find ops n w = (r7, w') \<Longrightarrow> view w' = view w \<and> (isl r7 \<or> r7 = Inr (List.find (\<lambda>c. hc_name c = n) (view w)))"
    and other: "op_other ops k w = (r8, w') \<Longrightarrow> view w' = view w"
begin

lemma wp_create:
  "(\<And>c w'. view w' = view w @ [c] \<Longrightarrow> created b nm (view w) c \<Longrightarrow> Q (hc_id c) w' \<and> (\<forall>e. E e w')) \<Longrightarrow>
   (\<And>e w'. view w' = view w \<Longrightarrow> E e w') \<Longrightarrow> wp (op_create ops b nm) Q E w"
  unfolding wp_def by (cases "op_create ops b nm w") (auto dest!: create split: sum.splits)

lemma wp_remove:
  "(\<And>w'. view w' = without i (view w) \<Longrightarrow> Q () w' \<and> (\<forall>e. E e w')) \<Longrightarrow> (\<And>e w'. view w' = view w \<Longrightarrow> E e w') \<Longrightarrow>
   wp (op_remove ops i) Q E w"
  unfolding wp_def by (cases "op_remove ops i w") (auto dest!: remove split: sum.splits)

lemma wp_rename:
  "(\<And>w'. n \<notin> hc_name ` set (view w) \<Longrightarrow> view w' = renamed i n (view w) \<Longrightarrow> Q () w' \<and> (\<forall>e. E e w')) \<Longrightarrow>
   (\<And>e w'. view w' = view w \<Longrightarrow> E e w') \<Longrightarrow> wp (op_rename ops i n) Q E w"
  unfolding wp_def by (cases "op_rename ops i n w") (auto dest!: rename split: sum.splits)

lemma wp_find:
  "(\<And>w'. view w' = view w \<Longrightarrow> Q (List.find (\<lambda>c. hc_name c = n) (view w)) w' \<and> (\<forall>e. E e w')) \<Longrightarrow> wp (op_find ops n) Q E w"
  unfolding wp_def by (cases "op_find ops n w") (auto dest!: find split: sum.splits)

lemma keeps_touch:
  assumes "\<And>w r w'. m w = (r, w') \<Longrightarrow> touched i (view w) (view w')" and "hc_id c \<noteq> i"
  shows "keeps (\<lambda>w. has c (view w)) m"
  unfolding keeps_def wp_def
proof (intro allI impI)
  fix w assume "has c (view w)"
  then show "case m w of (Inl e, w1) \<Rightarrow> has c (view w1) | (Inr a, w1) \<Rightarrow> has c (view w1)"
    using assms(1) [of w] assms(2) by (cases "m w") (auto intro: has_steps(3) split: sum.splits)
qed

lemma keeps_ops [keeps_intros]:
  "keeps (\<lambda>w. has c (view w)) (op_create ops b nm)"
  "hc_id c \<noteq> i \<Longrightarrow> keeps (\<lambda>w. has c (view w)) (op_remove ops i)"
  "hc_id c \<noteq> i \<Longrightarrow> keeps (\<lambda>w. has c (view w)) (op_rename ops i n)"
  "keeps (\<lambda>w. has c (view w)) (op_find ops n)"
  by (auto simp: keeps_def has_steps intro!: wp_create wp_remove wp_rename wp_find)

lemma keeps_other [keeps_intros]: "keeps (\<lambda>w. P (view w)) (op_other ops k)"
  unfolding keeps_def wp_def using other by (force split: prod.splits sum.splits)

lemma keeps_state [keeps_intros]:
  assumes "hc_id c \<noteq> i"
  shows "keeps (\<lambda>w. has c (view w)) (op_start ops i)" and "keeps (\<lambda>w. has c (view w)) (op_stop ops i)"
    and "keeps (\<lambda>w. has c (view w)) (op_inspect ops i)"
  by (rule keeps_touch [OF _ assms], use start stop inspect in blast)+

lemma keeps_wait [keeps_intros]: "keeps P (op_inspect ops i) \<Longrightarrow> keeps P (waitHealthy ops i l n)"
  by (induction n arbitrary: l) (auto simp: Let_def intro!: keeps_intros split: option.split)

lemma wp_keeps_bind:
  "keeps P m \<Longrightarrow> P w \<Longrightarrow> (\<And>a w. P w \<Longrightarrow> wp (f a) Q E w) \<Longrightarrow> (\<And>e w. P w \<Longrightarrow> E e w) \<Longrightarrow> wp (bindE m f) Q E w"
  unfolding wp_rules by (rule wp_mono [OF keepsD])

lemma keeps_create_then [keeps_intros]:
  assumes "\<And>i. i \<noteq> hc_id c \<Longrightarrow> keeps (\<lambda>w. has c (view w)) (f i)"
  shows "keeps (\<lambda>w. has c (view w)) (bindE (op_create ops b nm) f)"
  unfolding keeps_def wp_rules
proof (intro allI impI wp_create conjI)
  fix w x w' assume w: "has c (view w)" and w': "view w' = view w @ [x]" "created b nm (view w) x"
  have "hc_id x \<noteq> hc_id c" "has c (view w')" using w w' has_steps(2) created_other by force+
  then show "wp (f (hc_id x)) (\<lambda>_ w. has c (view w)) (\<lambda>_ w. has c (view w)) w'" "has c (view w')" using keepsD [OF assms] by blast+
qed auto

lemma keeps_prepareMounts [keeps_intros]: "keeps (\<lambda>w. has c (view w)) (prepareMounts ops owner mounts mp)"
  unfolding prepareMounts_def Let_def
  by (rule keeps_bind, intro keeps_intros, cases "filter (\<lambda>m. mt_type m = MFile) mounts = []")
    (simp_all, (rule keeps_intros | simp)+)

lemma keeps_resources [keeps_intros]: "keeps (\<lambda>w. has c (view w)) (swap_resources ops an app ov)"
  unfolding swap_resources_def by (intro keeps_intros)

lemma found_find: "has c cs \<Longrightarrow> found app ov c (List.find (\<lambda>x. hc_name x = swap_name app ov) cs)"
proof (cases "hc_name c = swap_name app ov")
  case True then show "has c cs \<Longrightarrow> ?thesis" using find_named [of cs c] by (simp add: found_def has_def)
next
  case False
  then show "has c cs \<Longrightarrow> ?thesis" using unique_id by (auto simp: found_def has_def dest!: find_SomeD)
qed

text \<open>
  The preparation in terms of what holds when the name is looked up: a property \<open>P\<close> of the host that ordinary calls keep,
  and one that may depend on what was found.
\<close>

lemma wp_prepare:
  assumes P: "P (view w)" and R: "\<And>cs. P cs \<Longrightarrow> R (List.find (\<lambda>x. hc_name x = swap_name app ov) cs) cs"
    and K: "\<And>ex. keeps (\<lambda>w. R ex (view w)) (swap_resources ops an app ov)"
  shows "wp (swap_prepare ops an app ov) (\<lambda>(env, ex, files) w'. R ex (view w')) (\<lambda>_ w'. P (view w') \<or> (\<exists>ex. R ex (view w'))) w"
    (is "wp _ ?Q ?E w")
proof -
  let ?P = "\<lambda>w. P (view w)"
  have tail: "wp (bindE (swap_resources ops an app ov) (\<lambda>files. returnE (e, ex, files))) ?Q ?E w" if "R ex (view w)" for e ex w
    by (rule wp_keeps_bind [where P = "\<lambda>w. R ex (view w)", OF K that]) (auto simp: wp_rules)
  have look: "wp (bindE (op_find ops (swap_name app ov)) (\<lambda>ex. bindE (swap_resources ops an app ov) (\<lambda>files. returnE (e, ex, files)))) ?Q ?E w"
    if "P (view w)" for e w
    unfolding wp_bind [of "op_find ops (swap_name app ov)"] by (rule wp_find) (use that tail R in simp)
  have "wp (case an_env an (ov = None) of Inl e \<Rightarrow> throwE e | Inr env \<Rightarrow>
      bindE (op_other ops (ForServer (sa_serverId app))) (\<lambda>_. bindE (op_find ops (swap_name app ov)) (\<lambda>ex.
      bindE (swap_resources ops an app ov) (\<lambda>files. returnE (swap_env app env, ex, files))))) ?Q ?E w" if "P (view w)" for w
  proof (cases "an_env an (ov = None)")
    case (Inr env)
    show ?thesis unfolding Inr sum.case by (rule wp_keeps_bind [where P = ?P, OF keeps_other that]) (auto intro: look)
  qed (use that in \<open>simp add: wp_rules\<close>)
  then show ?thesis unfolding swap_prepare_def
    by (intro wp_keeps_bind [where P = ?P, OF keeps_when [OF keeps_other] P]) auto
qed

lemma prepare_has:
  assumes "has c (view w)"
  shows "wp (swap_prepare ops an app ov) (\<lambda>(env, ex, files) w'. has c (view w') \<and> found app ov c ex) (\<lambda>_ w'. has c (view w')) w"
proof -
  have "keeps (\<lambda>w. has c (view w) \<and> found app ov c ex) (swap_resources ops an app ov)" for ex
    using keeps_resources by (auto simp: keeps_def wp_def split: prod.splits sum.splits)
  then show ?thesis
    using assms found_find
    by (intro wp_mono [OF wp_prepare [where P = "has c" and R = "\<lambda>ex cs. has c cs \<and> found app ov c ex"]]) auto
qed

text \<open>The ends of bringing up a container.\<close>

lemma bring_up_cases:
  assumes "bring_up ops an app ov body nm w = (r, w')"
  obtains (refused) e where "op_create ops body (Some nm) w = (Inl e, w')" "r = Inl (None, e)"
  | (failed) i e w1 where "op_create ops body (Some nm) w = (Inr i, w1)" "start_and_wait ops an app ov i w1 = (Inl e, w')" "r = Inl (Some i, e)"
  | (up) i w1 where "op_create ops body (Some nm) w = (Inr i, w1)" "start_and_wait ops an app ov i w1 = (Inr (), w')" "r = Inr i"
  using assms unfolding bring_up_def by (auto split: prod.splits sum.splits)

lemma keeps_note_shell [keeps_intros]: "keeps (\<lambda>w. P (view w)) (note_shell ops an app i)"
  unfolding note_shell_def by (intro keeps_intros)

lemma keeps_start_and_wait [keeps_intros]: "i \<noteq> hc_id c \<Longrightarrow> keeps (\<lambda>w. has c (view w)) (start_and_wait ops an app ov i)"
  unfolding start_and_wait_def startWithPortRetry_def by (auto intro!: keeps_intros)

lemma create_has:
  assumes "has c (view w)"
  shows "wp (op_create ops b nm) (\<lambda>i w'. has c (view w') \<and> i \<noteq> hc_id c) (\<lambda>_ w'. has c (view w')) w"
  by (rule wp_create) (use assms created_other has_steps(2) in force)+

lemma bring_up_has:
  assumes "has c (view w)" and "bring_up ops an app ov body nm w = (r, w')"
  shows "has c (view w') \<and> (\<forall>i e. r = Inl (Some i, e) \<longrightarrow> i \<noteq> hc_id c) \<and> (\<forall>i. r = Inr i \<longrightarrow> i \<noteq> hc_id c)"
  using assms(2)
proof (cases rule: bring_up_cases)
  case (refused e)
  then show ?thesis using wpD_Inl [OF create_has [OF assms(1)] refused(1)] by simp
next
  case (failed i e w1)
  then have "has c (view w1)" "i \<noteq> hc_id c" using wpD_Inr [OF create_has [OF assms(1)] failed(1)] by simp_all
  then show ?thesis using wpD_Inl [OF keepsD [OF keeps_start_and_wait] failed(2)] failed(3) by simp
next
  case (up i w1)
  then have "has c (view w1)" "i \<noteq> hc_id c" using wpD_Inr [OF create_has [OF assms(1)] up(1)] by simp_all
  then show ?thesis using wpD_Inr [OF keepsD [OF keeps_start_and_wait] up(2)] up(3) by simp
qed

lemma keeps_there:
  assumes "\<And>w r w'. m w = (r, w') \<Longrightarrow> touched (hc_id c) (view w) (view w')"
  shows "keeps (\<lambda>w. there c (\<lambda>_. True) (view w)) m"
  unfolding keeps_def wp_def
proof (intro allI impI)
  fix w assume "there c (\<lambda>_. True) (view w)"
  then show "case m w of (Inl e, w1) \<Rightarrow> there c (\<lambda>_. True) (view w1) | (Inr a, w1) \<Rightarrow> there c (\<lambda>_. True) (view w1)"
    using assms [of w] by (cases "m w") (auto intro: touched_there split: sum.splits)
qed

lemma start_once:
  assumes "there c R (view w)"
  shows "wp (op_start ops (hc_id c)) (\<lambda>_ w'. there c hc_running (view w')) (\<lambda>_ w'. there c (\<lambda>_. True) (view w')) w"
proof -
  obtain r w1 where s: "op_start ops (hc_id c) w = (r, w1)" by (cases "op_start ops (hc_id c) w")
  then have t: "there c (\<lambda>_. True) (view w1)" using touched_there [OF assms] start by blast
  have "there c hc_running (view w1)" if "\<not> isl r" using t start [OF s] that by (auto simp: there_def kept_def)
  then show ?thesis using s t by (cases r) (simp_all add: wp_def)
qed

lemma start_there:
  assumes "there c R (view w)"
  shows "wp (start_attempts (op_start ops (hc_id c)) p ds) (\<lambda>_ w'. there c hc_running (view w')) (\<lambda>_ w'. there c (\<lambda>_. True) (view w')) w"
  using assms
proof (induction ds arbitrary: R w)
  case Nil
  show ?case by (subst start_attempts.simps) (simp add: wp_rules start_once [OF Nil])
next
  case (Cons d ds)
  show ?case by (subst start_attempts.simps) (auto simp: wp_rules intro!: wp_mono [OF start_once [OF Cons.prems]] Cons.IH)
qed

lemma wait_there:
  assumes "there c R (view w)"
  shows "wp (waitHealthy ops (hc_id c) l n) (\<lambda>_ w'. there c (\<lambda>d. hc_running d \<and> hc_health d = Some ''healthy'') (view w')) (\<lambda>_ _. True) w"
  using assms
proof (induction n arbitrary: R w l)
  case 0
  show ?case by (simp add: wp_rules)
next
  case (Suc n)
  obtain r w1 where i: "op_inspect ops (hc_id c) w = (r, w1)" by (cases "op_inspect ops (hc_id c) w")
  then have t: "there c (\<lambda>_. True) (view w1)" using touched_there [OF Suc.prems] inspect by blast
  show ?case
  proof (cases "\<exists>x. r = Inr (Some x) \<and> ci_Running x")
    case True
    then obtain x where x: "r = Inr (Some x)" "ci_Running x" by blast
    show ?thesis
    proof (cases "ci_Health x = Some ''healthy''")
      case True
      obtain d where "d \<in> set (view w1)" "hc_id d = hc_id c" "hc_running d" "hc_health d = Some ''healthy''"
        using inspect [OF i] x True by auto
      moreover obtain d' where "d' \<in> set (view w1)" "kept c d'" "ok (view w1)" using t by (auto simp: there_def)
      moreover from calculation have "d = d'" using unique_id [of "view w1" d d'] by (simp add: kept_def)
      ultimately have "there c (\<lambda>d. hc_running d \<and> hc_health d = Some ''healthy'') (view w1)" by (auto simp: there_def)
      then show ?thesis using i x True by (simp add: wp_def bindE_def returnE_def)
    next
      case False
      then show ?thesis using i x Suc.IH [OF t] by (auto simp: wp_def bindE_def returnE_def throwE_def Let_def)
    qed
  next
    case False
    then show ?thesis using i by (cases r) (auto simp: wp_def bindE_def throwE_def split: option.splits)
  qed
qed

lemma started_serves:
  assumes "there c R (view w)"
  shows "wp (bindE (start_attempts (op_start ops (hc_id c)) p ds) (\<lambda>_.
      if healthcheck_url app = None then returnE () else bindE (whenE (an_log an) (op_other ops LogStep)) (\<lambda>_. waitHealthy ops (hc_id c) None (an_rounds an))))
    (\<lambda>_ w'. there c (\<lambda>d. hc_running d \<and> (healthcheck_url app \<noteq> None \<longrightarrow> hc_health d = Some ''healthy'')) (view w')) (\<lambda>_ _. True) w"
  unfolding wp_bind [of "start_attempts (op_start ops (hc_id c)) p ds"]
proof (rule wp_mono [OF start_there [OF assms]])
  fix w1 assume t: "there c hc_running (view w1)"
  have "wp (bindE (whenE (an_log an) (op_other ops LogStep)) (\<lambda>_. waitHealthy ops (hc_id c) None (an_rounds an)))
      (\<lambda>_ w'. there c (\<lambda>d. hc_running d \<and> hc_health d = Some ''healthy'') (view w')) (\<lambda>_ _. True) w1"
    by (rule wp_keeps_bind [where P = "\<lambda>w. there c hc_running (view w)", OF keeps_when [OF keeps_other] t]) (simp_all add: wait_there)
  then show "wp (if healthcheck_url app = None then returnE () else bindE (whenE (an_log an) (op_other ops LogStep)) (\<lambda>_. waitHealthy ops (hc_id c) None (an_rounds an)))
      (\<lambda>_ w'. there c (\<lambda>d. hc_running d \<and> (healthcheck_url app \<noteq> None \<longrightarrow> hc_health d = Some ''healthy'')) (view w')) (\<lambda>_ _. True) w1"
    using t by (simp add: wp_rules)
qed simp

lemma start_and_wait_serves:
  assumes "there c R (view w)"
  shows "wp (start_and_wait ops an app ov (hc_id c))
    (\<lambda>_ w'. there c (\<lambda>d. hc_running d \<and> (healthcheck_url app \<noteq> None \<longrightarrow> hc_health d = Some ''healthy'')) (view w')) (\<lambda>_ _. True) w"
  unfolding start_and_wait_def startWithPortRetry_def
  by (rule wp_keeps_bind [where P = "\<lambda>w. there c R (view w)", OF keeps_note_shell assms started_serves]) simp_all

lemma bring_up_serves:
  assumes "ok (view w)" and "bring_up ops an app ov b nm w = (Inr i, w')"
  shows "\<exists>d. has d (view w') \<and> serving app b i nm d"
proof -
  obtain w1 where c: "op_create ops b (Some nm) w = (Inr i, w1)" and s: "start_and_wait ops an app ov i w1 = (Inr (), w')"
    using assms(2) by (cases rule: bring_up_cases) auto
  obtain x where x: "view w1 = view w @ [x]" "created b (Some nm) (view w) x" "i = hc_id x" using create [OF c] by auto
  then have "there x (\<lambda>_. True) (view w1)" using ok_created [OF assms(1)] by (simp add: there_def kept_def)
  then have "there x (\<lambda>d. hc_running d \<and> (healthcheck_url app \<noteq> None \<longrightarrow> hc_health d = Some ''healthy'')) (view w')"
    using wpD_Inr [OF start_and_wait_serves] s x(3) by blast
  then obtain d where "ok (view w')" "d \<in> set (view w')" "kept x d" "hc_running d" "healthcheck_url app \<noteq> None \<longrightarrow> hc_health d = Some ''healthy''"
    by (auto simp: there_def)
  then show ?thesis using x(2,3) by (auto simp: has_def serving_def created_def kept_def)
qed

lemma keeps_find_remove [keeps_intros]:
  assumes "hc_name c \<noteq> n"
  shows "keeps (\<lambda>w. has c (view w)) (bindE (op_find ops n) (\<lambda>f. case f of None \<Rightarrow> returnE () | Some x \<Rightarrow> op_remove ops (hc_id x)))"
  unfolding keeps_def wp_bind
proof (intro allI impI, rule wp_find, intro conjI allI)
  fix w w' assume w: "has c (view w)" and v: "view w' = view w"
  show "has c (view w')" using w v by simp
  show "wp (case List.find (\<lambda>x. hc_name x = n) (view w) of None \<Rightarrow> returnE () | Some x \<Rightarrow> op_remove ops (hc_id x))
      (\<lambda>_ w. has c (view w)) (\<lambda>_ w. has c (view w)) w'"
  proof (cases "List.find (\<lambda>x. hc_name x = n) (view w)")
    case (Some x)
    then have "hc_id x \<noteq> hc_id c" using w assms unique_id [of "view w" x c] by (auto simp: has_def dest!: find_SomeD)
    then show ?thesis using Some keepsD [OF keeps_ops(2) [of c "hc_id x"], of w'] w v by simp
  qed (use w v in \<open>simp add: wp_rules\<close>)
qed

lemma keeps_removeFailed [keeps_intros]:
  "(\<And>i. ci = Some i \<Longrightarrow> i \<noteq> hc_id c) \<Longrightarrow> hc_name c \<noteq> n \<Longrightarrow> keeps (\<lambda>w. has c (view w)) (removeFailed ops ci n)"
  unfolding removeFailed_def by (cases ci) (auto intro!: keeps_intros)

lemma keeps_clear_place:
  assumes "hc_name c \<noteq> create_name app ov ex" and "\<And>d. \<not> blue_green app ov ex \<Longrightarrow> ex = Some d \<Longrightarrow> hc_id d \<noteq> hc_id c"
  shows "keeps (\<lambda>w. has c (view w)) (clear_place ops app ov ex)"
proof (cases "blue_green app ov ex")
  case True then show ?thesis unfolding clear_place_def using keeps_find_remove [OF assms(1)] by simp
next
  case False then show ?thesis unfolding clear_place_def using assms(2) by (cases ex) (auto intro: keeps_intros)
qed

lemma wp_swap_in:
  assumes "\<And>i w1. bring_up ops an app ov b (create_name app ov ex) w = (Inr i, w1) \<Longrightarrow>
      wp (swap_finish ops an app (blue_green app ov ex) ex i (swap_name app ov)) Q E w1"
    and "\<And>ci e w1. bring_up ops an app ov b (create_name app ov ex) w = (Inl (ci, e), w1) \<Longrightarrow>
      wp (bindE (whenE (ov = None) (removeFailed ops ci (create_name app ov ex))) (\<lambda>_.
        if \<not> blue_green app ov ex \<and> ex \<noteq> None \<and> ov = None then recoverPrevious again app img e else throwE e)) Q E w1"
  shows "wp (swap_in again ops an app img ov ex b) Q E w"
proof -
  obtain r w1 where "bring_up ops an app ov b (create_name app ov ex) w = (r, w1)" by (cases "bring_up ops an app ov b (create_name app ov ex) w")
  then show ?thesis using assms unfolding wp_def swap_in_def by (cases r) (auto split: prod.splits)
qed

lemma keeps_recover [keeps_intros]: "(\<And>p. keeps P (again p)) \<Longrightarrow> keeps P (recoverPrevious again app f e)"
  unfolding recoverPrevious_def by (auto intro!: keeps_intros split: option.split)

lemma keeps_finish [keeps_intros]:
  assumes "i \<noteq> hc_id c" and "\<And>d. ex = Some d \<Longrightarrow> hc_id d \<noteq> hc_id c"
  shows "keeps (\<lambda>w. has c (view w)) (swap_finish ops an app bg ex i nm)"
  unfolding swap_finish_def using assms by (cases ex) (auto intro!: keeps_intros)

lemma keeps_swap_in:
  assumes "hc_name c \<noteq> create_name app ov ex" and ex: "\<And>d. ex = Some d \<Longrightarrow> hc_id d \<noteq> hc_id c"
    and again: "\<And>p. ex \<noteq> None \<Longrightarrow> keeps (\<lambda>w. has c (view w)) (again p)"
  shows "keeps (\<lambda>w. has c (view w)) (swap_in again ops an app img ov ex b)"
  unfolding keeps_def
proof (intro allI impI, rule wp_swap_in)
  fix w i w1 assume "has c (view w)" and b: "bring_up ops an app ov b (create_name app ov ex) w = (Inr i, w1)"
  then have "has c (view w1)" "i \<noteq> hc_id c" using bring_up_has by blast+
  then show "wp (swap_finish ops an app (blue_green app ov ex) ex i (swap_name app ov)) (\<lambda>_ w. has c (view w)) (\<lambda>_ w. has c (view w)) w1"
    using keepsD [OF keeps_finish] ex by blast
next
  fix w ci e w1 assume "has c (view w)" and b: "bring_up ops an app ov b (create_name app ov ex) w = (Inl (ci, e), w1)"
  then have "has c (view w1)" "\<And>i. ci = Some i \<Longrightarrow> i \<noteq> hc_id c" using bring_up_has by blast+
  then show "wp (bindE (whenE (ov = None) (removeFailed ops ci (create_name app ov ex))) (\<lambda>_.
      if \<not> blue_green app ov ex \<and> ex \<noteq> None \<and> ov = None then recoverPrevious again app img e else throwE e))
      (\<lambda>_ w. has c (view w)) (\<lambda>_ w. has c (view w)) w1"
    using assms(1) again by (intro keepsD [where P = "\<lambda>w. has c (view w)"]) (auto intro!: keeps_intros)
qed

text \<open>No other container is touched, however the swap ends.\<close>

lemma body_frame:
  assumes "hc_name c \<noteq> swap_name app ov" and "hc_name c \<noteq> swap_name app ov @ ''-next''"
    and again: "\<And>p. keeps (\<lambda>w. has c (view w)) (again p)"
  shows "keeps (\<lambda>w. has c (view w)) (replace_body again ops an app img ov)"
proof -
  let ?P = "\<lambda>w. has c (view w)"
  have rest: "keeps ?P (replace_found again ops an app img ov env ex files)"
    if "found app ov c ex" for env ex files
  proof -
    have ex: "hc_id d \<noteq> hc_id c" if "ex = Some d" for d using \<open>found app ov c ex\<close> assms(1) that by (simp add: found_def)
    have nm: "hc_name c \<noteq> create_name app ov ex" using assms(1,2) by (simp add: create_name_def)
    have "keeps ?P (clear_place ops app ov ex)" using keeps_clear_place [OF nm] ex by blast
    moreover have "keeps ?P (swap_in again ops an app img ov ex b)" for b by (rule keeps_swap_in [OF nm ex again])
    ultimately show ?thesis unfolding replace_found_def by (auto intro!: keeps_intros)
  qed
  show ?thesis unfolding replace_body_def
    unfolding keeps_def wp_bind by (intro allI impI, rule wp_mono [OF prepare_has]) (auto intro: keepsD [OF rest])
qed

lemma keeps_ok [keeps_intros]:
  "keeps (\<lambda>w. ok (view w)) (op_create ops b nm)" "keeps (\<lambda>w. ok (view w)) (op_remove ops i)"
  "keeps (\<lambda>w. ok (view w)) (op_rename ops i n)" "keeps (\<lambda>w. ok (view w)) (op_find ops n)"
  by (auto simp: keeps_def ok_without ok_created ok_renamed intro!: wp_create wp_remove wp_rename wp_find)

lemma ok_resources: "keeps (\<lambda>w. ok (view w)) (swap_resources ops an app ov)"
  unfolding swap_resources_def prepareMounts_def Let_def by (auto intro!: keeps_intros)

lemma prepare_still:
  assumes "ok (view w)"
  shows "wp (swap_prepare ops an app ov) (\<lambda>(env, ex, files) w'. still app ov ex (view w')) (\<lambda>_ _. True) w"
proof -
  have "keeps (\<lambda>w. still app ov ex (view w)) (swap_resources ops an app ov)" for ex
  proof (cases ex)
    case None
    then show ?thesis using ok_resources by (simp add: still_def)
  next
    case (Some x)
    then show ?thesis using keeps_resources [of x an app ov] by (auto simp: still_def has_def keeps_def wp_def split: prod.splits sum.splits)
  qed
  then show ?thesis using assms
    by (intro wp_mono [OF wp_prepare [where P = ok and R = "still app ov"]]) (auto simp: still_def has_def dest!: find_SomeD)
qed

lemma ok_clear_place: "keeps (\<lambda>w. ok (view w)) (clear_place ops app ov ex)"
  unfolding clear_place_def by (auto intro!: keeps_intros split: option.split)

text \<open>The end of a swap keeps the new container, under its own name or the final one.\<close>

lemma finish_serves:
  assumes d: "has d (view w)" "hc_id d = i" and ex: "\<And>x. bg \<Longrightarrow> ex = Some x \<Longrightarrow> hc_id x \<noteq> i"
  shows "wp (swap_finish ops an app bg ex i nm)
    (\<lambda>j w'. j = i \<and> has (if healthcheck_url app \<noteq> None \<and> bg \<and> ex \<noteq> None then d\<lparr>hc_name := nm\<rparr> else d) (view w'))
    (\<lambda>_ w'. has d (view w') \<or> has (d\<lparr>hc_name := nm\<rparr>) (view w')) w" (is "wp _ ?Q ?E w")
proof -
  have log: "wp (bindE (whenE (an_log an) (op_other ops LogStep)) (\<lambda>_. returnE i)) (\<lambda>j w'. j = i \<and> has c (view w')) (\<lambda>_ w'. has c (view w')) w"
    if "has c (view w)" for c w
    by (rule wp_keeps_bind [where P = "\<lambda>w. has c (view w)", OF keeps_when [OF keeps_other] that]) (simp_all add: wp_rules)
  consider (none) "healthcheck_url app = None" | (plain) u where "healthcheck_url app = Some u" "\<not> (bg \<and> ex \<noteq> None)"
    | (swap) u x where "healthcheck_url app = Some u" "bg" "ex = Some x"
    by (cases ex; cases "healthcheck_url app") blast+
  then show ?thesis
  proof cases
    case none
    then show ?thesis using d by (simp add: swap_finish_def wp_rules)
  next
    case (plain u)
    have "wp (bindE (whenE (an_log an) (op_other ops LogStep)) (\<lambda>_. returnE i)) ?Q ?E w"
      by (rule wp_mono [OF log [OF d(1)]]) (use plain in auto)
    then show ?thesis using plain by (cases ex) (simp_all add: swap_finish_def wp_bind wp_return)
  next
    case (swap u x)
    have x: "hc_id d \<noteq> hc_id x" using ex [OF swap(2,3)] d(2) by simp
    have ren: "wp (bindE (op_rename ops i nm) (\<lambda>_. bindE (whenE (an_log an) (op_other ops LogStep)) (\<lambda>_. returnE i))) ?Q ?E w1"
      if "has d (view w1)" for w1
      unfolding wp_bind [of "op_rename ops i nm"]
    proof (rule wp_rename, intro conjI allI)
      fix w' assume "nm \<notin> hc_name ` set (view w1)" "view w' = renamed i nm (view w1)"
      then have h: "has (d\<lparr>hc_name := nm\<rparr>) (view w')" using has_renamed [OF that] d(2) by simp
      show "wp (bindE (whenE (an_log an) (op_other ops LogStep)) (\<lambda>_. returnE i)) ?Q ?E w'"
        by (rule wp_mono [OF log [OF h]]) (use swap in auto)
      show "?E e w'" for e using h by simp
    qed (use that in simp)
    have "wp (bindE (quietly (op_stop ops (hc_id x))) (\<lambda>_. bindE (op_remove ops (hc_id x)) (\<lambda>_.
        bindE (op_rename ops i nm) (\<lambda>_. bindE (whenE (an_log an) (op_other ops LogStep)) (\<lambda>_. returnE i))))) ?Q ?E w"
      by (rule wp_keeps_bind [where P = "\<lambda>w. has d (view w)", OF keeps_quietly [OF keeps_state(2) [OF x]] d(1)],
          rule wp_keeps_bind [where P = "\<lambda>w. has d (view w)", OF keeps_ops(2) [OF x]]) (assumption | erule ren | erule disjI1)+
    then show ?thesis using swap by (simp add: swap_finish_def wp_bind wp_return)
  qed
qed

end

end
