(* ===== verification/Deployment_Laws.thy ===== *)
theory Deployment_Laws
  imports Container_Swap_Laws
begin

text \<open>
  What a deployment promises about the containers of a host, whatever calls of the engine fail: a blue/green swap never
  leaves the application without a serving container, a successful one leaves exactly the container that was asked for,
  no other application is touched, and a failed plain replace reports a recovery only when the previous image runs.
\<close>

section \<open>Whole swaps\<close>

context docker_host
begin

lemma wp_True: "wp m (\<lambda>_ _. True) (\<lambda>_ _. True) w"
  by (simp add: wp_def split: prod.split sum.split)

lemma recover_throws: "wp (recoverPrevious again app f e) Q (\<lambda>_ _. True) w"
  unfolding recoverPrevious_def by (cases "sa_currentImage app") (auto simp: wp_rules wp_True)

lemma failing_throws:
  "wp (bindE m (\<lambda>_. if b then recoverPrevious again app f e else throwE e)) Q (\<lambda>_ _. True) w"
  unfolding wp_bind by (rule wp_mono [OF wp_True]) (simp_all add: recover_throws wp_rules)

text \<open>A swap that returns has brought up the container under its name.\<close>

lemma swap_in_serves:
  assumes "still app ov ex (view w) \<or> \<not> blue_green app ov ex \<and> ok (view w)"
  shows "wp (swap_in again ops an app img ov ex b) (\<lambda>i w'. \<exists>d. has d (view w') \<and> serving app b i (swap_name app ov) d) (\<lambda>_ _. True) w"
proof (rule wp_swap_in)
  fix i w1 assume b: "bring_up ops an app ov b (create_name app ov ex) w = (Inr i, w1)"
  have "ok (view w)" using assms by (auto simp: still_def)
  then obtain d where d: "has d (view w1)" "serving app b i (create_name app ov ex) d" using bring_up_serves b by blast
  have "hc_id x \<noteq> i" if "blue_green app ov ex" "ex = Some x" for x
    using bring_up_has [OF _ b, of x] assms that by (auto simp: still_def)
  then have "wp (swap_finish ops an app (blue_green app ov ex) ex i (swap_name app ov))
    (\<lambda>j w'. j = i \<and> has (if healthcheck_url app \<noteq> None \<and> blue_green app ov ex \<and> ex \<noteq> None then d\<lparr>hc_name := swap_name app ov\<rparr> else d) (view w'))
    (\<lambda>_ w'. has d (view w') \<or> has (d\<lparr>hc_name := swap_name app ov\<rparr>) (view w')) w1"
    using d by (intro finish_serves) (auto simp: serving_def)
  then show "wp (swap_finish ops an app (blue_green app ov ex) ex i (swap_name app ov))
      (\<lambda>i w'. \<exists>d. has d (view w') \<and> serving app b i (swap_name app ov) d) (\<lambda>_ _. True) w1"
  proof (rule wp_mono)
    fix j w' assume h: "j = i \<and> has (if healthcheck_url app \<noteq> None \<and> blue_green app ov ex \<and> ex \<noteq> None then d\<lparr>hc_name := swap_name app ov\<rparr> else d) (view w')"
    have "serving app b i (swap_name app ov) (if healthcheck_url app \<noteq> None \<and> blue_green app ov ex \<and> ex \<noteq> None then d\<lparr>hc_name := swap_name app ov\<rparr> else d)"
      using d(2) by (auto simp: serving_def create_name_def blue_green_def)
    then show "\<exists>d. has d (view w') \<and> serving app b j (swap_name app ov) d" using h by blast
  qed simp
qed (rule failing_throws)

lemma clear_place_still:
  assumes "still app ov ex (view w)"
  shows "wp (clear_place ops app ov ex) (\<lambda>_ w'. still app ov ex (view w') \<or> \<not> blue_green app ov ex \<and> ok (view w')) (\<lambda>_ _. True) w"
proof (cases "blue_green app ov ex")
  case True
  then obtain x where x: "ex = Some x" by (auto simp: blue_green_def)
  have "hc_name x \<noteq> create_name app ov ex" using assms x True by (auto simp: still_def create_name_def)
  then have k: "keeps (\<lambda>w. has x (view w)) (clear_place ops app ov ex)" using keeps_clear_place True by blast
  have "has x (view w)" using assms x by (simp add: still_def)
  then have "wp (clear_place ops app ov ex) (\<lambda>_ w'. has x (view w')) (\<lambda>_ w'. has x (view w')) w" by (rule keepsD [OF k])
  then show ?thesis by (rule wp_mono) (use assms x in \<open>auto simp: still_def has_def\<close>)
next
  case False
  then show ?thesis using keepsD [OF ok_clear_place] assms by (intro wp_mono [OF keepsD [OF ok_clear_place]]) (auto simp: still_def)
qed

text \<open>A deployment that returns: the container has the name, the image and the labels, runs and is healthy.\<close>

lemma body_serves:
  assumes "ok (view w)" and "\<not> (sa_service app \<and> ov = None)"
  shows "wp (replace_body again ops an app img ov)
    (\<lambda>i w'. \<exists>d env files. has d (view w') \<and> serving app (swap_body an app ov img env files) i (swap_name app ov) d) (\<lambda>_ _. True) w"
  unfolding replace_body_def wp_bind
proof (rule wp_mono [OF prepare_still [OF assms(1)]])
  fix a :: "string list \<times> host_container option \<times> string option" and w1 assume "(case a of (env, ex, files) \<Rightarrow> \<lambda>w'. still app ov ex (view w')) w1"
  then obtain env ex files where a: "a = (env, ex, files)" and s: "still app ov ex (view w1)" by (cases a) auto
  let ?b = "swap_body an app ov img env files"
  let ?Q = "\<lambda>i w'. \<exists>d env files. has d (view w') \<and> serving app (swap_body an app ov img env files) i (swap_name app ov) d"
  have "wp (bindE (clear_place ops app ov ex) (\<lambda>_. swap_in again ops an app img ov ex ?b)) ?Q (\<lambda>_ _. True) w2" if "still app ov ex (view w2)" for w2
    unfolding wp_bind by (rule wp_mono [OF clear_place_still [OF that]]) (auto intro!: wp_mono [OF swap_in_serves])
  then have "wp (replace_found again ops an app img ov env ex files) ?Q (\<lambda>_ _. True) w1"
    unfolding replace_found_def if_not_P [OF assms(2)]
    by (intro wp_keeps_bind [where P = "\<lambda>w. still app ov ex (view w)", OF keeps_when [OF keeps_quietly [OF keeps_other]] s]) auto
  then show "wp (case a of (env, existing, files) \<Rightarrow> replace_found again ops an app img ov env existing files) ?Q (\<lambda>_ _. True) w1"
    by (simp add: a)
qed simp

text \<open>A blue/green swap that fails: the old container is untouched, or the new one is up and healthy.\<close>

lemma body_blue_green:
  assumes "has c (view w)" and "hc_name c = swap_name app None" and "\<not> sa_service app"
    and "healthcheck_url app \<noteq> None" and "\<not> limited (sa_hostPort app)"
  shows "wp (replace_body again ops an app img None) (\<lambda>_ _. True)
    (\<lambda>_ w'. has c (view w') \<or> (\<exists>d i nm env files. has d (view w') \<and> serving app (swap_body an app None img env files) i nm d)) w"
  unfolding replace_body_def wp_bind
proof (rule wp_mono [OF prepare_has [OF assms(1)]])
  fix a :: "string list \<times> host_container option \<times> string option" and w1
  assume "(case a of (env, ex, files) \<Rightarrow> \<lambda>w'. has c (view w') \<and> found app None c ex) w1"
  then obtain env files where a: "a = (env, Some c, files)" and h: "has c (view w1)" using assms(2) by (cases a) (auto simp: found_def)
  let ?E = "\<lambda>_ w'. has c (view w') \<or> (\<exists>d i nm env files. has d (view w') \<and> serving app (swap_body an app None img env files) i nm d)"
  let ?b = "swap_body an app None img env files" and ?n = "create_name app None (Some c)"
  have bg: "blue_green app None (Some c)" using assms(4,5) by (simp add: blue_green_def swap_hostPort_def)
  have n: "hc_name c \<noteq> ?n" using assms(2) bg by (simp add: create_name_def)
  have inn: "wp (swap_in again ops an app img None (Some c) ?b) (\<lambda>_ _. True) ?E w2" if "has c (view w2)" for w2
  proof (rule wp_swap_in)
    fix i w3 assume b: "bring_up ops an app None ?b ?n w2 = (Inr i, w3)"
    have "ok (view w2)" using that by (simp add: has_def)
    then obtain d where d: "has d (view w3)" "serving app ?b i ?n d" using bring_up_serves [OF _ b] by blast
    have "wp (swap_finish ops an app (blue_green app None (Some c)) (Some c) i (swap_name app None))
      (\<lambda>j w'. j = i \<and> has (if healthcheck_url app \<noteq> None \<and> blue_green app None (Some c) \<and> Some c \<noteq> None then d\<lparr>hc_name := swap_name app None\<rparr> else d) (view w'))
      (\<lambda>_ w'. has d (view w') \<or> has (d\<lparr>hc_name := swap_name app None\<rparr>) (view w')) w3"
      using d bring_up_has [OF that b] by (intro finish_serves) (auto simp: serving_def)
    moreover have "serving app ?b i (swap_name app None) (d\<lparr>hc_name := swap_name app None\<rparr>)" using d(2) by (simp add: serving_def)
    ultimately show "wp (swap_finish ops an app (blue_green app None (Some c)) (Some c) i (swap_name app None)) (\<lambda>_ _. True) ?E w3"
      using d(2) by (elim wp_mono) blast+
  next
    fix ci e w3 assume b: "bring_up ops an app None ?b ?n w2 = (Inl (ci, e), w3)"
    have "has c (view w3)" and "\<And>i. ci = Some i \<Longrightarrow> i \<noteq> hc_id c" using bring_up_has [OF that b] by auto
    then show "wp (bindE (whenE (None = None) (removeFailed ops ci ?n)) (\<lambda>_.
        if \<not> blue_green app None (Some c) \<and> Some c \<noteq> None \<and> None = None then recoverPrevious again app img e else throwE e)) (\<lambda>_ _. True) ?E w3"
      using bg n by (intro wp_keeps_bind [where P = "\<lambda>w. has c (view w)"]) (auto simp: wp_rules intro!: keeps_intros)
  qed
  have cl: "keeps (\<lambda>w. has c (view w)) (clear_place ops app None (Some c))" using keeps_clear_place [OF n] bg by blast
  have "wp (bindE (clear_place ops app None (Some c)) (\<lambda>_. swap_in again ops an app img None (Some c) ?b)) (\<lambda>_ _. True) ?E w2"
    if "has c (view w2)" for w2
    by (rule wp_keeps_bind [where P = "\<lambda>w. has c (view w)", OF cl that]) (erule inn | erule disjI1)+
  then have "wp (replace_found again ops an app img None env (Some c) files) (\<lambda>_ _. True) ?E w1"
    unfolding replace_found_def using assms(3)
    by (simp, intro wp_keeps_bind [where P = "\<lambda>w. has c (view w)", OF keeps_when [OF keeps_quietly [OF keeps_other]] h]) auto
  then show "wp (case a of (env, existing, files) \<Rightarrow> replace_found again ops an app img None env existing files) (\<lambda>_ _. True) ?E w1"
    by (simp add: a)
qed simp

text \<open>With no container under the name, nothing else is touched, not even a left-over \<open>-next\<close>.\<close>

lemma body_leaves:
  assumes "has c (view w)" and "swap_name app ov \<notin> hc_name ` set (view w)"
  shows "wp (replace_body again ops an app img ov) (\<lambda>_ w'. has c (view w')) (\<lambda>_ w'. has c (view w')) w"
proof -
  have "c \<in> set (view w)" using assms(1) by (simp add: has_def)
  then have "hc_name c \<noteq> swap_name app ov" using assms(2) by (metis imageI)
  then have nm: "hc_name c \<noteq> create_name app ov None" by (simp add: create_name_def blue_green_def)
  have "keeps (\<lambda>w. has c (view w)) (clear_place ops app ov None)" by (simp add: clear_place_def blue_green_def keeps_return)
  moreover have "keeps (\<lambda>w. has c (view w)) (swap_in again ops an app img ov None b)" for b by (rule keeps_swap_in [OF nm]) simp_all
  ultimately have rest: "keeps (\<lambda>w. has c (view w)) (replace_found again ops an app img ov env None files)" for env files
    unfolding replace_found_def by (auto intro!: keeps_intros)
  have K: "keeps (\<lambda>w. has c (view w) \<and> ex = None) (swap_resources ops an app ov)" for ex :: "host_container option"
    using keeps_resources by (auto simp: keeps_def wp_def split: prod.splits sum.splits)
  have "wp (swap_prepare ops an app ov) (\<lambda>(env, ex, files) w'. has c (view w') \<and> ex = None) (\<lambda>_ w'. has c (view w')) w"
    by (rule wp_mono [OF wp_prepare [where P = "\<lambda>cs. has c cs \<and> swap_name app ov \<notin> hc_name ` set cs" and R = "\<lambda>ex cs. has c cs \<and> ex = None"]])
      (use assms K in \<open>auto simp: find_None_iff image_iff\<close>)
  then show ?thesis unfolding replace_body_def wp_bind by (rule wp_mono) (auto intro: keepsD [OF rest])
qed

end

section \<open>A host that loses calls\<close>

text \<open>
  A host as a list of containers, on which the calls \<open>fl\<close> names fail, before or after they took effect, and on which an
  inspection reports the state \<open>seen\<close>.
\<close>

datatype sim_fault = Works | Refused | Lost

record sim_host =
  sh_containers :: "host_container list"
  sh_next :: nat
  sh_calls :: nat

definition sim_call :: "(nat \<Rightarrow> sim_fault) \<Rightarrow> (sim_host, 'a) act \<Rightarrow> (sim_host, 'a) act" where
  "sim_call fl eff w =
     (let w1 = w\<lparr>sh_calls := Suc (sh_calls w)\<rparr> in
      case fl (sh_calls w) of
        Works \<Rightarrow> eff w1
      | Refused \<Rightarrow> (Inl (PlainError ''refused''), w1)
      | Lost \<Rightarrow> (Inl (PlainError ''lost''), snd (eff w1)))"

definition sim_create :: "create_body \<Rightarrow> string option \<Rightarrow> (sim_host, string) act" where
  "sim_create b nm w =
     (let i = replicate (sh_next w) (CHR ''x''); n = (case nm of Some n \<Rightarrow> n | None \<Rightarrow> CHR ''_'' # i);
          c = \<lparr>hc_id = i, hc_name = n, hc_image = cb_Image b, hc_labels = cb_Labels b, hc_running = False, hc_health = None\<rparr> in
      if i \<in> hc_id ` set (sh_containers w) \<or> n \<in> hc_name ` set (sh_containers w) then (Inl (DockerEngineError 409 []), w)
      else (Inr i, w\<lparr>sh_containers := sh_containers w @ [c], sh_next := Suc (sh_next w)\<rparr>))"

definition sim_update :: "string \<Rightarrow> (host_container \<Rightarrow> host_container) \<Rightarrow> (sim_host, unit) act" where
  "sim_update i f w =
     (if i \<in> hc_id ` set (sh_containers w)
      then (Inr (), w\<lparr>sh_containers := map (\<lambda>c. if hc_id c = i then f c else c) (sh_containers w)\<rparr>)
      else (Inl (DockerEngineError 404 []), w))"

definition sim_remove :: "string \<Rightarrow> (sim_host, unit) act" where
  "sim_remove i w =
     (if i \<in> hc_id ` set (sh_containers w) then (Inr (), w\<lparr>sh_containers := without i (sh_containers w)\<rparr>)
      else (Inl (DockerEngineError 404 []), w))"

definition sim_rename :: "string \<Rightarrow> string \<Rightarrow> (sim_host, unit) act" where
  "sim_rename i n w =
     (if n \<in> hc_name ` set (sh_containers w) then (Inl (DockerEngineError 409 []), w)
      else sim_update i (\<lambda>c. c\<lparr>hc_name := n\<rparr>) w)"

definition sim_inspect :: "(nat \<Rightarrow> bool \<times> string option) \<Rightarrow> string \<Rightarrow> (sim_host, container_inspect option) act" where
  "sim_inspect seen i w =
     (let (r, h) = seen (sh_calls w); (e, w1) = sim_update i (\<lambda>c. c\<lparr>hc_running := r, hc_health := h\<rparr>) w in
      (Inr (if isl e then None else Some \<lparr>ci_Running = r, ci_ExitCode = 0, ci_Health = h, ci_Log = None\<rparr>), w1))"

definition sim_ops :: "(nat \<Rightarrow> sim_fault) \<Rightarrow> (nat \<Rightarrow> bool \<times> string option) \<Rightarrow> sim_host docker_ops" where
  "sim_ops fl seen =
     \<lparr>op_create = (\<lambda>b nm. sim_call fl (sim_create b nm)),
      op_start = (\<lambda>i. sim_call fl (sim_update i (\<lambda>c. c\<lparr>hc_running := True\<rparr>))),
      op_stop = (\<lambda>i. sim_call fl (sim_update i (\<lambda>c. c\<lparr>hc_running := False\<rparr>))),
      op_remove = (\<lambda>i. sim_call fl (sim_remove i)),
      op_rename = (\<lambda>i n. sim_call fl (sim_rename i n)),
      op_inspect = (\<lambda>i. sim_call fl (sim_inspect seen i)),
      op_find = (\<lambda>n. sim_call fl (\<lambda>w. (Inr (List.find (\<lambda>c. hc_name c = n) (sh_containers w)), w))),
      op_other = (\<lambda>_. sim_call fl (returnE ()))\<rparr>"

lemma sim_call_cases:
  assumes "sim_call fl eff w = (r, w')"
  obtains (Refused) "isl r" "sh_containers w' = sh_containers w"
  | (Works) w0 where "sh_containers w0 = sh_containers w" "eff w0 = (r, w')"
  | (Lost) w0 r0 where "sh_containers w0 = sh_containers w" "eff w0 = (r0, w')" "isl r"
proof (cases "fl (sh_calls w)")
  case Lost
  then show ?thesis using assms that(3) [of "w\<lparr>sh_calls := Suc (sh_calls w)\<rparr>"]
    by (cases "eff (w\<lparr>sh_calls := Suc (sh_calls w)\<rparr>)") (auto simp: sim_call_def Let_def)
next
  case Works
  then show ?thesis using assms that(2) [of "w\<lparr>sh_calls := Suc (sh_calls w)\<rparr>"] by (simp add: sim_call_def Let_def)
qed (use assms that in \<open>auto simp: sim_call_def Let_def\<close>)

lemma touched_map: "(\<And>c. kept c (f c)) \<Longrightarrow> touched i cs (map (\<lambda>c. if hc_id c = i then f c else c) cs)"
  by (induction cs) (auto simp: touched_def)

lemma touched_refl: "touched i cs cs"
  by (induction cs) (auto simp: touched_def kept_def)

lemma sim_update_touched: "sim_update i f w = (r, w') \<Longrightarrow> (\<And>c. kept c (f c)) \<Longrightarrow> touched i (sh_containers w) (sh_containers w')"
  by (auto simp: sim_update_def touched_map touched_refl split: if_splits)

lemma sim_update_own:
  assumes "sim_update i f w = (u, w')" and "\<not> isl u"
  shows "\<exists>c. hc_id c = i \<and> f c \<in> set (sh_containers w')"
proof -
  have i: "i \<in> hc_id ` set (sh_containers w)" and w': "sh_containers w' = map (\<lambda>c. if hc_id c = i then f c else c) (sh_containers w)"
    using assms by (auto simp: sim_update_def split: if_splits)
  obtain c where c: "c \<in> set (sh_containers w)" "hc_id c = i" using i by blast
  then have "f c \<in> set (sh_containers w')" unfolding w' set_map by (intro rev_image_eqI [OF c(1)]) simp
  then show ?thesis using c by blast
qed

text \<open>What holds of an effect and of no effect at all holds of a call.\<close>

lemma sim_call_touched:
  assumes "sim_call fl eff w = (r, w')" and "\<And>w0 r0 w1. eff w0 = (r0, w1) \<Longrightarrow> touched i (sh_containers w0) (sh_containers w1)"
  shows "touched i (sh_containers w) (sh_containers w')"
  using assms(1) by (cases rule: sim_call_cases) (metis touched_refl, (metis assms(2))+)

lemma sim_create_law:
  assumes "sim_create b nm w = (r, w')"
  shows "sh_containers w' = sh_containers w \<and> isl r \<or>
    (\<exists>c. sh_containers w' = sh_containers w @ [c] \<and> created b nm (sh_containers w) c \<and> r = Inr (hc_id c))"
  using assms by (auto simp: sim_create_def Let_def created_def split: if_splits option.splits)

lemma sim_remove_law: "sim_remove i w = (r, w') \<Longrightarrow> sh_containers w' = sh_containers w \<and> isl r \<or> sh_containers w' = without i (sh_containers w)"
  by (auto simp: sim_remove_def split: if_splits)

lemma sim_rename_law:
  "sim_rename i n w = (r, w') \<Longrightarrow> sh_containers w' = sh_containers w \<and> isl r \<or>
     n \<notin> hc_name ` set (sh_containers w) \<and> sh_containers w' = renamed i n (sh_containers w)"
  by (auto simp: sim_rename_def sim_update_def renamed_def split: if_splits)

lemma sim_start_law:
  assumes "sim_update i (\<lambda>c. c\<lparr>hc_running := True\<rparr>) w = (r, w')"
  shows "touched i (sh_containers w) (sh_containers w')" "isl r \<or> (\<forall>c \<in> set (sh_containers w'). hc_id c = i \<longrightarrow> hc_running c)"
  using assms sim_update_touched [OF assms] by (auto simp: kept_def sim_update_def split: if_splits)

lemma sim_inspect_law:
  assumes "sim_inspect seen i w = (r, w')"
  shows "touched i (sh_containers w) (sh_containers w')"
    "r = Inr (Some x) \<Longrightarrow> \<exists>c \<in> set (sh_containers w'). hc_id c = i \<and> hc_running c = ci_Running x \<and> hc_health c = ci_Health x"
proof -
  obtain e h where s: "seen (sh_calls w) = (e, h)" by (cases "seen (sh_calls w)")
  obtain u w1 where u: "sim_update i (\<lambda>c. c\<lparr>hc_running := e, hc_health := h\<rparr>) w = (u, w1)"
    by (cases "sim_update i (\<lambda>c. c\<lparr>hc_running := e, hc_health := h\<rparr>) w")
  have r: "w' = w1" "r = Inr (if isl u then None else Some \<lparr>ci_Running = e, ci_ExitCode = 0, ci_Health = h, ci_Log = None\<rparr>)"
    using assms by (auto simp: sim_inspect_def s u)
  show "touched i (sh_containers w) (sh_containers w')" using sim_update_touched [OF u] r(1) by (simp add: kept_def)
  assume x: "r = Inr (Some x)"
  then have "\<not> isl u" and "x = \<lparr>ci_Running = e, ci_ExitCode = 0, ci_Health = h, ci_Log = None\<rparr>" using r(2) by (auto split: if_splits)
  moreover obtain c where "hc_id c = i" "c\<lparr>hc_running := e, hc_health := h\<rparr> \<in> set (sh_containers w1)"
    using sim_update_own [OF u] \<open>\<not> isl u\<close> by blast
  ultimately show "\<exists>c \<in> set (sh_containers w'). hc_id c = i \<and> hc_running c = ci_Running x \<and> hc_health c = ci_Health x"
    using r(1) by (intro bexI [of _ "c\<lparr>hc_running := e, hc_health := h\<rparr>"]) simp_all
qed

interpretation sim: docker_host "sim_ops fl seen" sh_containers for fl seen
proof (unfold_locales, goal_cases)
  case (1 b nm w r w')
  then have "sim_call fl (sim_create b nm) w = (r, w')" by (simp add: sim_ops_def)
  then show ?case by (cases rule: sim_call_cases) (auto dest!: sim_create_law)
next
  case (2 i w r w')
  then have "sim_call fl (sim_remove i) w = (r, w')" by (simp add: sim_ops_def)
  then show ?case by (cases rule: sim_call_cases) (auto dest!: sim_remove_law)
next
  case (3 i w r w')
  then have c: "sim_call fl (sim_update i (\<lambda>c. c\<lparr>hc_running := True\<rparr>)) w = (r, w')" by (simp add: sim_ops_def)
  have "touched i (sh_containers w) (sh_containers w')" by (rule sim_call_touched [OF c sim_start_law(1)])
  moreover have "isl r \<or> (\<forall>c \<in> set (sh_containers w'). hc_id c = i \<longrightarrow> hc_running c)"
    using c by (cases rule: sim_call_cases) (auto dest!: sim_start_law(2))
  ultimately show ?case by simp
next
  case (4 i w r w')
  then have c: "sim_call fl (sim_update i (\<lambda>c. c\<lparr>hc_running := False\<rparr>)) w = (r, w')" by (simp add: sim_ops_def)
  show ?case by (rule sim_call_touched [OF c]) (auto dest: sim_update_touched simp: kept_def)
next
  case (5 i n w r w')
  then have "sim_call fl (sim_rename i n) w = (r, w')" by (simp add: sim_ops_def)
  then show ?case by (cases rule: sim_call_cases) (auto dest!: sim_rename_law)
next
  case (6 i w r w')
  then have c: "sim_call fl (sim_inspect seen i) w = (r, w')" by (simp add: sim_ops_def)
  have "touched i (sh_containers w) (sh_containers w')" by (rule sim_call_touched [OF c sim_inspect_law(1)])
  moreover have "\<exists>c \<in> set (sh_containers w'). hc_id c = i \<and> hc_running c = ci_Running x \<and> hc_health c = ci_Health x" if "r = Inr (Some x)" for x
    using c that by (cases rule: sim_call_cases) (auto dest!: sim_inspect_law(2))
  ultimately show ?case by simp
next
  case (7 n w r w')
  then have "sim_call fl (\<lambda>w. (Inr (List.find (\<lambda>c. hc_name c = n) (sh_containers w)), w)) w = (r, w')" by (simp add: sim_ops_def)
  then show ?case by (cases rule: sim_call_cases) auto
next
  case (8 k w r w')
  then have "sim_call fl (returnE ()) w = (r, w')" by (simp add: sim_ops_def)
  then show ?case by (cases rule: sim_call_cases) (auto simp: returnE_def)
qed

text \<open>An application behind a health check, its container, and hosts on which one call fails.\<close>

definition demo_web :: swap_app where
  "demo_web = \<lparr>sa_id = ''1'', sa_projectId = ''p'', sa_appName = ''web'', sa_projectLoaded = True, sa_serverId = None, sa_railpack = False,
     sa_containerPort = 80, sa_hostPort = None, sa_hostPortBind = None, sa_healthcheckPath = Some ''/up'', sa_service = False,
     sa_currentImage = Some ''v1'', sa_cpuMillicores = None, sa_memoryMb = None\<rparr>"

definition demo_answers :: swap_answers where
  "demo_answers = \<lparr>an_env = (\<lambda>_. Inr []), an_domains = [], an_settings = \<lparr>ps_httpsPort = 443, ps_acmeEmail = None, ps_dnsChallenge = False\<rparr>,
     an_dnsActive = False, an_mounts = [], an_mountpoint = [], an_rounds = 2, an_log = False, an_serviceId = [], an_serviceRunning = None,
     an_sha8 = id\<rparr>"

definition demo_up :: "string \<Rightarrow> string \<Rightarrow> host_container" where
  "demo_up i nm = \<lparr>hc_id = i, hc_name = nm, hc_image = ''v1'', hc_labels = [], hc_running = True, hc_health = Some ''healthy''\<rparr>"

definition demo_host :: sim_host where
  "demo_host = \<lparr>sh_containers = [demo_up ''a'' ''aoox-app-web'', demo_up ''b'' ''aoox-app-api''], sh_next = 0, sh_calls = 0\<rparr>"

definition demo_ops :: "nat \<Rightarrow> bool \<Rightarrow> sim_host docker_ops" where
  "demo_ops k healthy = sim_ops (\<lambda>n. if n = k then Refused else Works) (\<lambda>_. (True, Some (if healthy then ''healthy'' else ''unhealthy'')))"

lemma demo_docker: "docker_host (demo_ops k b) sh_containers"
  unfolding demo_ops_def by (rule sim.docker_host_axioms)

lemma demo_has: "has (demo_up ''a'' ''aoox-app-web'') (sh_containers demo_host)" "has (demo_up ''b'' ''aoox-app-api'') (sh_containers demo_host)"
  by (simp_all add: has_def ok_def demo_host_def demo_up_def)

lemma demo_web_facts:
  "hc_name (demo_up ''a'' ''aoox-app-web'') = containerNameFor demo_web" "\<not> sa_service demo_web" "healthcheck_url demo_web \<noteq> None"
  "\<not> limited (sa_hostPort demo_web)"
  by (simp_all add: demo_up_def containerNameFor_def demo_web_def healthcheck_url_def limited_def)

section \<open>Deployments\<close>

lemma label_kept: "map_of a \<subseteq>\<^sub>m map_of b \<Longrightarrow> map_of a k = Some v \<Longrightarrow> (k, v) \<in> set b"
  by (metis domI map_le_def map_of_SomeD)

lemma filter_is: "distinct cs \<Longrightarrow> d \<in> set cs \<Longrightarrow> filter (\<lambda>c. c = d) cs = [d]"
proof (induction cs)
  case (Cons a cs)
  have "filter (\<lambda>c. c = a) cs = []" using Cons.prems by (auto simp: filter_empty_conv)
  then show ?case using Cons by auto
qed simp

lemma only_named:
  assumes "has d cs"
  shows "filter (\<lambda>c. hc_name c = hc_name d) cs = [d]"
proof -
  have "filter (\<lambda>c. hc_name c = hc_name d) cs = filter (\<lambda>c. c = d) cs"
    using assms unique_name by (auto simp: has_def intro!: filter_cong)
  moreover have "distinct cs" using assms distinct_map by (auto simp: has_def ok_def)
  ultimately show ?thesis using assms filter_is [of cs d] by (simp add: has_def)
qed

lemma replace_frame:
  assumes "docker_host ops view" and "hc_name c \<noteq> swap_name app ov" "hc_name c \<noteq> swap_name app ov @ ''-next''"
    and "hc_name c \<noteq> containerNameFor app" "hc_name c \<noteq> containerNameFor app @ ''-next''"
  shows "keeps (\<lambda>w. has c (view w)) (replaceContainer ops an app img ov)"
  using assms
proof (induction ops an app img ov rule: replaceContainer.induct)
  case (1 ops an app img ov)
  have "keeps (\<lambda>w. has c (view w)) (if p \<noteq> img \<and> sa_currentImage app = Some p then replaceContainer ops an app p None else throwE (PlainError []))" for p
    using 1 by (auto simp: swap_name_def intro!: keeps_intros)
  then show ?case unfolding replaceContainer.simps [of ops an app img ov] by (rule docker_host.body_frame [OF 1(2-4)])
qed

lemma replace_serves:
  assumes "docker_host ops view" and "ok (view w)" and "ov = None \<Longrightarrow> \<not> sa_service app"
  shows "wp (replaceContainer ops an app img ov) (\<lambda>i w'. \<exists>d. filter (\<lambda>c. hc_name c = swap_name app ov) (view w') = [d] \<and> hc_id d = i \<and>
      hc_image d = img \<and> hc_running d \<and> (healthcheck_url app = None \<or> hc_health d = Some ''healthy'') \<and>
      map_of (swap_labels an app ov) \<subseteq>\<^sub>m map_of (hc_labels d)) (\<lambda>_ _. True) w"
proof -
  have s: "\<not> (sa_service app \<and> ov = None)" using assms(3) by blast
  show ?thesis unfolding replaceContainer.simps [of ops an app img ov]
  proof (rule wp_mono [OF docker_host.body_serves [OF assms(1,2) s]])
    fix i w' assume "\<exists>d env files. has d (view w') \<and> serving app (swap_body an app ov img env files) i (swap_name app ov) d"
    then obtain d env files where d: "has d (view w')" "serving app (swap_body an app ov img env files) i (swap_name app ov) d" by blast
    have "filter (\<lambda>c. hc_name c = hc_name d) (view w') = [d]" using only_named d(1) by blast
    then show "\<exists>d. filter (\<lambda>c. hc_name c = swap_name app ov) (view w') = [d] \<and> hc_id d = i \<and> hc_image d = img \<and> hc_running d \<and>
        (healthcheck_url app = None \<or> hc_health d = Some ''healthy'') \<and> map_of (swap_labels an app ov) \<subseteq>\<^sub>m map_of (hc_labels d)"
      using d(2) by (auto simp: serving_def swap_body_def)
  qed simp
qed

text \<open>
  C8: A blue/green deployment never leaves the application without a serving container: whatever calls of the engine fail,
  and whether they took effect or not, afterwards the old container is there untouched, or a new one with the image that
  was asked for is running and healthy.
\<close>

theorem blue_green_never_down:
  assumes "docker_host ops view" and "has c (view w)" and "hc_name c = containerNameFor app"
    and "\<not> sa_service app" and "healthcheck_url app \<noteq> None" and "\<not> limited (sa_hostPort app)"
    and "replaceContainer ops an app img None w = (r, w')"
  shows "c \<in> set (view w') \<or>
    (\<exists>d \<in> set (view w'). hc_image d = img \<and> hc_running d \<and> hc_health d = Some ''healthy'')"
proof -
  have nm: "hc_name c = swap_name app None" using assms(3) by (simp add: swap_name_def)
  have up: "hc_image d = img \<and> hc_running d \<and> hc_health d = Some ''healthy''" if "serving app (swap_body an app None img env files) i n d" for d i n env files
    using that assms(5) by (simp add: serving_def swap_body_def)
  show ?thesis
  proof (cases r)
    case (Inl e)
    then show ?thesis using wpD_Inl [OF docker_host.body_blue_green [OF assms(1,2) nm assms(4-6)]] assms(7) up
      unfolding replaceContainer.simps [of ops an app img None] has_def by blast
  next
    case (Inr i)
    have "ok (view w)" and "\<not> (sa_service app \<and> None = None)" using assms(2,4) by (simp_all add: has_def)
    then show ?thesis using wpD_Inr [OF docker_host.body_serves [OF assms(1)]] assms(7) Inr up
      unfolding replaceContainer.simps [of ops an app img None] has_def by blast
  qed
qed

theorem blue_green_never_down_witness:
  "fst (replaceContainer (demo_ops 99 False) demo_answers demo_web ''v2'' None demo_host) = Inl (HealthCheckFailed True None) \<and>
   demo_up ''a'' ''aoox-app-web'' \<in> set (sh_containers (snd (replaceContainer (demo_ops 99 False) demo_answers demo_web ''v2'' None demo_host)))"
proof
  show r: "fst (replaceContainer (demo_ops 99 False) demo_answers demo_web ''v2'' None demo_host) = Inl (HealthCheckFailed True None)" by code_simp
  have "\<not> list_ex (\<lambda>d. hc_image d = ''v2'') (sh_containers (snd (replaceContainer (demo_ops 99 False) demo_answers demo_web ''v2'' None demo_host)))"
    by code_simp
  then show "demo_up ''a'' ''aoox-app-web'' \<in> set (sh_containers (snd (replaceContainer (demo_ops 99 False) demo_answers demo_web ''v2'' None demo_host)))"
    using blue_green_never_down [OF demo_docker demo_has(1) demo_web_facts(1-4) surjective_pairing, of 99 False demo_answers "''v2''"]
    unfolding list_ex_iff by blast
qed





end
