(* ===== verification/Deployment_Recovery.thy ===== *)
theory Deployment_Recovery
  imports Deployment_Laws
begin

text \<open>
  What the runner says after a failed deployment: a recovery is reported only when the previous image is up again, and a
  rename that fails at the end of a blue/green swap leaves a \<open>-next\<close> that no later plain deployment removes.
\<close>

section \<open>Errors of the engine\<close>

definition recovered :: "deploy_error \<Rightarrow> bool" where
  "recovered e \<longleftrightarrow> (case e of RecoveredDeployError _ \<Rightarrow> True | _ \<Rightarrow> False)"

lemma recovered_simps [simp]:
  "\<not> recovered (PlainError s)" "\<not> recovered (DockerEngineError n s)" "\<not> recovered (ContainerExited c)"
  "\<not> recovered (HealthCheckFailed b l)" "\<not> recovered (Unrecovered e)" "recovered (RecoveredDeployError e)"
  by (simp_all add: recovered_def)

text \<open>An action that never throws the error of a recovery.\<close>

definition plain :: "('w, 'a) act \<Rightarrow> bool" where
  "plain m \<longleftrightarrow> (\<forall>w. wp m (\<lambda>_ _. True) (\<lambda>e _. \<not> recovered e) w)"

lemma plainD: "plain m \<Longrightarrow> m w = (Inl e, w') \<Longrightarrow> \<not> recovered e"
  unfolding plain_def by (drule spec [of _ w]) (simp add: wp_def)

lemma plain_wp: "plain m \<Longrightarrow> (\<And>e w. \<not> recovered e \<Longrightarrow> E e w) \<Longrightarrow> wp m (\<lambda>_ _. True) E w"
  by (rule wp_mono [of m "\<lambda>_ _. True" "\<lambda>e _. \<not> recovered e"]) (simp_all add: plain_def)

named_theorems plain_intros \<open>actions that never throw the error of a recovery\<close>

lemma plain_return [plain_intros]: "plain (returnE a)" and plain_throw [plain_intros]: "\<not> recovered e \<Longrightarrow> plain (throwE e)"
  by (simp_all add: plain_def wp_rules)

lemma plain_bind [plain_intros]: "plain m \<Longrightarrow> (\<And>a. plain (f a)) \<Longrightarrow> plain (bindE m f)"
  unfolding plain_def wp_rules by (blast intro: wp_mono)

lemma plain_catch [plain_intros]: "plain m \<Longrightarrow> (\<And>e. \<not> recovered e \<Longrightarrow> plain (h e)) \<Longrightarrow> plain (catchE m h)"
  unfolding plain_def wp_rules by (blast intro: wp_mono)

lemma plain_quietly [plain_intros]: "plain (quietly m)"
  by (simp add: plain_def wp_rules wp_def split: prod.split sum.split)

lemma plain_when [plain_intros]: "plain m \<Longrightarrow> plain (whenE b m)"
  by (simp add: whenE_def plain_return)

lemma plain_if [plain_intros]: "(b \<Longrightarrow> plain m) \<Longrightarrow> (\<not> b \<Longrightarrow> plain m') \<Longrightarrow> plain (if b then m else m')"
  by simp

lemma plain_each [plain_intros]: "(\<And>x. plain (f x)) \<Longrightarrow> plain (eachE f xs)"
  by (induction xs) (auto intro: plain_intros)

lemma plain_attempts [plain_intros]: "plain m \<Longrightarrow> plain (start_attempts m p ds)"
  by (induction ds) (subst start_attempts.simps, auto intro!: plain_intros)+

lemma plain_wait [plain_intros]: "plain (op_inspect ops i) \<Longrightarrow> plain (waitHealthy ops i l n)"
  by (induction n arbitrary: l) (auto simp: Let_def intro!: plain_intros split: option.split)

text \<open>The client of the engine throws its own errors; the error of a recovery is made by the runner.\<close>

locale docker_client = docker_host ops view for ops :: "'w docker_ops" and view +
  assumes plain_create [plain_intros]: "plain (op_create ops b nm)"
    and plain_remove [plain_intros]: "plain (op_remove ops i)"
    and plain_start [plain_intros]: "plain (op_start ops i)"
    and plain_stop [plain_intros]: "plain (op_stop ops i)"
    and plain_rename [plain_intros]: "plain (op_rename ops i n)"
    and plain_inspect [plain_intros]: "plain (op_inspect ops i)"
    and plain_find [plain_intros]: "plain (op_find ops n)"
    and plain_other [plain_intros]: "plain (op_other ops k)"
begin

lemma plain_prepareMounts [plain_intros]: "plain (prepareMounts ops owner mounts mp)"
  unfolding prepareMounts_def Let_def by (auto intro!: plain_intros)

lemma plain_prepare:
  assumes "\<And>e. an_env an (ov = None) = Inl e \<Longrightarrow> \<not> recovered e"
  shows "plain (swap_prepare ops an app ov)"
  unfolding swap_prepare_def swap_resources_def using assms by (auto intro!: plain_intros split: sum.split)

lemma plain_clear_place [plain_intros]: "plain (clear_place ops app ov ex)"
  unfolding clear_place_def by (auto intro!: plain_intros split: option.split)

lemma plain_start_and_wait [plain_intros]: "plain (start_and_wait ops an app ov i)"
  unfolding start_and_wait_def startWithPortRetry_def note_shell_def by (intro plain_intros)

lemma plain_finish [plain_intros]: "plain (swap_finish ops an app bg ex i nm)"
  unfolding swap_finish_def by (auto intro!: plain_intros split: option.split)

lemma bring_up_plain: "bring_up ops an app ov b nm w = (Inl (ci, e), w') \<Longrightarrow> \<not> recovered e"
  by (elim bring_up_cases) (auto dest: plainD [OF plain_create] plainD [OF plain_start_and_wait])

lemma ok_touch:
  assumes "\<And>w r w'. m w = (r, w') \<Longrightarrow> touched i (view w) (view w')"
  shows "keeps (\<lambda>w. ok (view w)) m"
  unfolding keeps_def wp_def
proof (intro allI impI)
  fix w assume "ok (view w)"
  then show "case m w of (Inl e, w1) \<Rightarrow> ok (view w1) | (Inr a, w1) \<Rightarrow> ok (view w1)"
    using assms [of w] by (cases "m w") (auto intro: ok_touched split: sum.splits)
qed

lemma ok_state [keeps_intros]:
  "keeps (\<lambda>w. ok (view w)) (op_start ops i)" "keeps (\<lambda>w. ok (view w)) (op_inspect ops i)"
  by (rule ok_touch [where i = i], use start inspect in blast)+

lemma ok_bring_up:
  assumes "ok (view w)" and "bring_up ops an app ov b nm w = (r, w')"
  shows "ok (view w')"
proof -
  have s: "keeps (\<lambda>w. ok (view w)) (start_and_wait ops an app ov i)" for i
    unfolding start_and_wait_def startWithPortRetry_def by (intro keeps_intros)
  have c: "keeps (\<lambda>w. ok (view w)) (op_create ops b (Some nm))" by (rule keeps_ok(1))
  show ?thesis using assms(2)
  proof (cases rule: bring_up_cases)
    case (refused e)
    show ?thesis by (rule wpD_Inl [OF keepsD [OF c assms(1)] refused(1)])
  next
    case (failed i e w1)
    show ?thesis by (rule wpD_Inl [OF keepsD [OF s wpD_Inr [OF keepsD [OF c assms(1)] failed(1)]] failed(2)])
  next
    case (up i w1)
    show ?thesis by (rule wpD_Inr [OF keepsD [OF s wpD_Inr [OF keepsD [OF c assms(1)] up(1)]] up(2)])
  qed
qed

lemma wp_plain_bind:
  assumes "plain m" and "wp m Q' (\<lambda>_ _. True) w" and "\<And>a w. Q' a w \<Longrightarrow> wp (f a) Q E w" and "\<And>e w. \<not> recovered e \<Longrightarrow> E e w"
  shows "wp (bindE m f) Q E w"
proof -
  have "wp m (\<lambda>_ _. True) (\<lambda>e _. \<not> recovered e) w" using assms(1) by (simp add: plain_def)
  then have "wp m Q' (\<lambda>e _. \<not> recovered e) w" using assms(2) by (simp add: wp_def split: prod.splits sum.splits)
  then show ?thesis unfolding wp_bind by (rule wp_mono) (use assms(3,4) in auto)
qed

lemma wp_keeps_plain_bind:
  assumes "keeps P m" and "plain m" and "P w" and "\<And>a w. P w \<Longrightarrow> wp (f a) Q E w" and "\<And>e w. \<not> recovered e \<Longrightarrow> E e w"
  shows "wp (bindE m f) Q E w"
  by (rule wp_plain_bind [OF assms(2) wp_mono [OF keepsD [OF assms(1,3)]] assms(4)]) (use assms(5) in auto)

lemma recover_goal:
  assumes "\<not> recovered e" and "\<And>p. p \<noteq> img \<Longrightarrow> sa_currentImage app = Some p \<Longrightarrow> wp (again p) (\<lambda>_. G) (\<lambda>_ _. True) w"
  shows "wp (recoverPrevious again app img e) (\<lambda>_ _. True) (\<lambda>e' w'. recovered e' \<longrightarrow> G w') w"
  unfolding recoverPrevious_def using assms by (auto simp: wp_rules split: option.split)

lemma swap_in_recovers:
  assumes "ok (view w)"
    and again: "\<And>p w. p \<noteq> img \<Longrightarrow> sa_currentImage app = Some p \<Longrightarrow> ok (view w) \<Longrightarrow> wp (again p) (\<lambda>_. G) (\<lambda>_ _. True) w"
  shows "wp (swap_in again ops an app img ov ex b) (\<lambda>_ _. True) (\<lambda>e w'. recovered e \<longrightarrow> G w') w"
proof (rule wp_swap_in)
  fix i w1
  show "wp (swap_finish ops an app (blue_green app ov ex) ex i (swap_name app ov)) (\<lambda>_ _. True) (\<lambda>e w'. recovered e \<longrightarrow> G w') w1"
    by (rule plain_wp [OF plain_finish]) simp
next
  fix ci e w1 assume b: "bring_up ops an app ov b (create_name app ov ex) w = (Inl (ci, e), w1)"
  have e: "\<not> recovered e" and o: "ok (view w1)" using bring_up_plain [OF b] ok_bring_up [OF assms(1) b] by auto
  have k: "keeps (\<lambda>w. ok (view w)) (whenE (ov = None) (removeFailed ops ci (create_name app ov ex)))"
    unfolding removeFailed_def by (auto intro!: keeps_intros split: option.split)
  have p: "plain (whenE (ov = None) (removeFailed ops ci (create_name app ov ex)))" unfolding removeFailed_def by (intro plain_intros)
  show "wp (bindE (whenE (ov = None) (removeFailed ops ci (create_name app ov ex))) (\<lambda>_.
      if \<not> blue_green app ov ex \<and> ex \<noteq> None \<and> ov = None then recoverPrevious again app img e else throwE e))
      (\<lambda>_ _. True) (\<lambda>e w'. recovered e \<longrightarrow> G w') w1"
    by (rule wp_keeps_plain_bind [OF k p o]) (auto simp: wp_rules e intro!: recover_goal [OF e] again)
qed

lemma body_recovers:
  assumes "ok (view w)" and "\<And>e. an_env an (ov = None) = Inl e \<Longrightarrow> \<not> recovered e"
    and again: "\<And>p w. p \<noteq> img \<Longrightarrow> sa_currentImage app = Some p \<Longrightarrow> ok (view w) \<Longrightarrow> wp (again p) (\<lambda>_. G) (\<lambda>_ _. True) w"
  shows "wp (replace_body again ops an app img ov) (\<lambda>_ _. True) (\<lambda>e w'. recovered e \<longrightarrow> G w') w"
  unfolding replace_body_def
proof (rule wp_plain_bind [OF plain_prepare [OF assms(2)] prepare_still [OF assms(1)]])
  fix a :: "string list \<times> host_container option \<times> string option" and w1 assume "(case a of (env, ex, files) \<Rightarrow> \<lambda>w'. still app ov ex (view w')) w1"
  then obtain env ex files where a: "a = (env, ex, files)" and o: "ok (view w1)" by (cases a) (auto simp: still_def)
  let ?E = "\<lambda>e w'. recovered e \<longrightarrow> G w'"
  have cl: "wp (bindE (clear_place ops app ov ex) (\<lambda>_. swap_in again ops an app img ov ex b)) (\<lambda>_ _. True) ?E w2" if "ok (view w2)" for b w2
    by (rule wp_keeps_plain_bind [OF ok_clear_place plain_clear_place that]) (use swap_in_recovers again in auto)
  have svc: "plain (bindE (op_other ops SwarmDeploy) (\<lambda>_. returnE (an_serviceId an)))" by (intro plain_intros)
  have "wp (bindE (op_other ops SwarmDeploy) (\<lambda>_. returnE (an_serviceId an))) (\<lambda>_ _. True) ?E w1"
    by (rule plain_wp [OF svc]) simp
  moreover have "wp (bindE (whenE (ov = None) (quietly (op_other ops SwarmRemove))) (\<lambda>_.
      bindE (clear_place ops app ov ex) (\<lambda>_. swap_in again ops an app img ov ex b))) (\<lambda>_ _. True) ?E w1" for b
    by (rule wp_keeps_plain_bind [where P = "\<lambda>w. ok (view w)", OF keeps_when [OF keeps_quietly [OF keeps_other]] plain_when [OF plain_quietly] o])
      (use cl in auto)
  ultimately have "wp (replace_found again ops an app img ov env ex files) (\<lambda>_ _. True) ?E w1"
    unfolding replace_found_def by (simp add: wp_throw)
  then show "wp (case a of (env, existing, files) \<Rightarrow> replace_found again ops an app img ov env existing files) (\<lambda>_ _. True) ?E w1"
    by (simp add: a)
qed auto

end

lemma plain_iff: "plain m \<longleftrightarrow> (\<forall>w e w'. m w = (Inl e, w') \<longrightarrow> \<not> recovered e)"
  unfolding plain_def wp_def by (auto split: prod.splits sum.splits)

lemma sim_plain: "plain m \<Longrightarrow> plain (sim_call fl m)"
  by (auto simp: plain_iff sim_call_def Let_def split: sim_fault.splits)

lemma sim_effects_plain:
  "plain (sim_create b nm)" "plain (sim_update i f)" "plain (sim_remove i)" "plain (sim_rename i n)" "plain (sim_inspect seen i)"
  "plain (\<lambda>w. (Inr (g w), w))"
  by (auto simp: plain_iff sim_create_def sim_update_def sim_remove_def sim_rename_def sim_inspect_def Let_def split: if_splits prod.splits)

interpretation sim_client: docker_client "sim_ops fl seen" sh_containers for fl seen
  by unfold_locales (simp_all add: sim_ops_def sim_plain sim_effects_plain plain_return)

section \<open>After a failed deployment\<close>

text \<open>
  C10: A recovery is reported only when it took place: when a deployment ends with \<open>RecoveredDeployError\<close>, exactly one
  container has the name of the application, it has the image the application had before, which is not the image that
  failed, and it is running (and healthy).
\<close>

theorem recovery_is_real:
  assumes "docker_client ops view" and "ok (view w)" and "\<not> sa_service app"
    and "\<And>e. an_env an True = Inl e \<Longrightarrow> \<not> recovered e"
    and "replaceContainer ops an app img None w = (Inl (RecoveredDeployError e), w')"
  shows "\<exists>d prev. sa_currentImage app = Some prev \<and> prev \<noteq> img \<and> filter (\<lambda>c. hc_name c = containerNameFor app) (view w') = [d] \<and>
    hc_image d = prev \<and> hc_running d \<and> (healthcheck_url app = None \<or> hc_health d = Some ''healthy'')" (is "?G w'")
proof -
  have dh: "docker_host ops view" using assms(1) by (rule docker_client.axioms)
  have "wp (if p \<noteq> img \<and> sa_currentImage app = Some p then replaceContainer ops an app p None else throwE (PlainError [])) (\<lambda>_. ?G) (\<lambda>_ _. True) w1"
    if "p \<noteq> img" "sa_currentImage app = Some p" "ok (view w1)" for p w1
  proof -
    have "wp (replaceContainer ops an app p None) (\<lambda>_. ?G) (\<lambda>_ _. True) w1"
      by (rule wp_mono [OF replace_serves [OF dh that(3) assms(3)]]) (use that in \<open>auto simp: swap_name_def\<close>)
    then show ?thesis using that by simp
  qed
  then have "wp (replaceContainer ops an app img None) (\<lambda>_ _. True) (\<lambda>e w'. recovered e \<longrightarrow> ?G w') w"
    unfolding replaceContainer.simps [of ops an app img None] using assms(4)
    by (intro docker_client.body_recovers [OF assms(1,2)]) simp_all
  from wpD_Inl [OF this assms(5)] show ?thesis by simp
qed

theorem recovery_is_real_witness:
  "let run = replaceContainer (demo_ops 7 True) demo_answers (demo_web\<lparr>sa_hostPort := Some 8\<rparr>) ''v2'' None demo_host in
   fst run = Inl (RecoveredDeployError (PlainError ''refused'')) \<and>
   (\<exists>d. filter (\<lambda>c. hc_name c = containerNameFor demo_web) (sh_containers (snd run)) = [d] \<and> hc_image d = ''v1'' \<and> hc_running d)"
proof -
  let ?app = "demo_web\<lparr>sa_hostPort := Some 8\<rparr>"
  let ?run = "replaceContainer (demo_ops 7 True) demo_answers ?app ''v2'' None demo_host"
  have f: "fst ?run = Inl (RecoveredDeployError (PlainError ''refused''))" by code_simp
  then have r: "?run = (Inl (RecoveredDeployError (PlainError ''refused'')), snd ?run)" by (metis surjective_pairing)
  have dc: "docker_client (demo_ops 7 True) sh_containers" unfolding demo_ops_def by (rule sim_client.docker_client_axioms)
  have o: "ok (sh_containers demo_host)" using demo_has(1) by (simp add: has_def)
  have s: "\<not> sa_service ?app" by (simp add: demo_web_def)
  have env: "\<not> recovered e" if "an_env demo_answers True = Inl e" for e using that by (simp add: demo_answers_def)
  from recovery_is_real [OF dc o s env r]
  have "\<exists>d. filter (\<lambda>c. hc_name c = containerNameFor demo_web) (sh_containers (snd ?run)) = [d] \<and> hc_image d = ''v1'' \<and> hc_running d"
    by (auto simp: containerNameFor_def demo_web_def)
  then show ?thesis using f by (simp add: Let_def)
qed


text \<open>The swap whose last call, the rename, is refused, and the deployment after it.\<close>

definition demo_unrenamed :: sim_host where
  "demo_unrenamed = snd (deploy_image (demo_ops 12 True) demo_answers demo_web ''v2'' demo_host)"

definition demo_left :: host_container where
  "demo_left = last (sh_containers demo_unrenamed)"


end
