(* ===== verification/Webhooks.thy ===== *)
theory Webhooks
  imports Image_Watcher "HOL-Library.Word"
begin

text \<open>
  Deployments triggered by a git provider: \<open>src/modules/application/webhook-deploy\<close> (the service, the signature and
  the check of the source address), the same for compose stacks (\<open>compose/webhook-deploy-compose\<close>), and the rows of
  pull-request previews (\<open>application/preview.service.ts\<close>).

  Parameters: \<open>hmacHex\<close>, the hexadecimal HMAC-SHA256 of the runtime; \<open>isIP\<close> of its \<open>net\<close> module (0, 4 or 6); the
  decryption of the stored secret; what GitHub answers; and whether the engine removes a preview's container.
\<close>

unbundle bit_operations_syntax

section \<open>Source addresses\<close>

definition CACHE_MS :: int where "CACHE_MS = 3600000"

text \<open>The module's \<open>cache\<close> before and after; \<open>None\<close> for a fetch that throws or answers something else.\<close>

definition githubHookRanges :: "int \<Rightarrow> string list option \<Rightarrow> (string list \<times> int) option \<Rightarrow> string list \<times> (string list \<times> int) option" where
  "githubHookRanges now fetched cache =
     (case cache of
        Some (ranges, at) \<Rightarrow>
          if now - at < CACHE_MS then (ranges, cache)
          else (case fetched of Some hooks \<Rightarrow> (hooks, Some (hooks, now)) | None \<Rightarrow> (ranges, cache))
      | None \<Rightarrow> (case fetched of Some hooks \<Rightarrow> (hooks, Some (hooks, now)) | None \<Rightarrow> ([], None)))"

text \<open>\<open>/^::ffff:(\d+\.\d+\.\d+\.\d+)$/i\<close>.\<close>

definition digits_part :: "string \<Rightarrow> bool" where
  "digits_part p \<longleftrightarrow> p \<noteq> [] \<and> list_all is_digit p"

definition normalize_ip :: "string \<Rightarrow> string" where
  "normalize_ip ip =
     (let t = trim ip; r = drop 7 t; ps = split_on (CHR ''.'') r in
      if toLowerCase (take 7 t) = ''::ffff:'' \<and> length ps = 4 \<and> list_all digits_part ps then r else t)"

text \<open>\<open>Number(s)\<close> of decimal digits and of the empty text; every other spelling counts as \<open>NaN\<close>.\<close>

definition decimal_number :: "string \<Rightarrow> nat option" where
  "decimal_number s = (let t = trim s in if list_all is_digit t then Some (str_val t) else None)"

definition ipv4ToBytes :: "string \<Rightarrow> 8 word list option" where
  "ipv4ToBytes ip =
     (let parts = map decimal_number (split_on (CHR ''.'') ip) in
      if length parts = 4 \<and> list_all (\<lambda>p. case p of None \<Rightarrow> False | Some n \<Rightarrow> n \<le> 255) parts
      then Some (map (\<lambda>p. word_of_nat (the p)) parts) else None)"

text \<open>\<open>s.split('::')\<close>.\<close>

fun split_colons :: "string \<Rightarrow> string list" where
  "split_colons [] = [[]]"
| "split_colons [c] = [[c]]"
| "split_colons (c # d # s) =
     (if c = CHR '':'' \<and> d = CHR '':'' then [] # split_colons s
      else case split_colons (d # s) of [] \<Rightarrow> [[c]] | w # ws \<Rightarrow> (c # w) # ws)"

definition hex_digit_val :: "char \<Rightarrow> nat option" where
  "hex_digit_val c =
     (let n = of_char (lower_char c) :: nat in
      if is_digit c then Some (n - 48) else if 97 \<le> n \<and> n \<le> 102 then Some (n - 87) else None)"

text \<open>A text that matches \<open>/^[0-9a-f]{0,4}$/i\<close>, as \<open>parseInt(h || '0', 16)\<close>.\<close>

definition hextet :: "string \<Rightarrow> nat option" where
  "hextet h =
     (if length h \<le> 4 \<and> list_all (\<lambda>c. hex_digit_val c \<noteq> None) h
      then Some (foldl (\<lambda>a c. a * 16 + the (hex_digit_val c)) 0 h) else None)"

definition ipv6ToBytes :: "string \<Rightarrow> 8 word list option" where
  "ipv6ToBytes ip =
     (let halves = split_colons ip;
          parts = (\<lambda>h. if h = [] then [] else split_on (CHR '':'') h);
          front = parts (hd halves); back = (if length halves = 2 then parts (halves ! 1) else []);
          hextets = (if length halves = 2 then front @ replicate (8 - length front - length back) ''0'' @ back else front)
      in if 2 < length halves \<or> length halves = 2 \<and> 8 < length front + length back then None
         else if length hextets \<noteq> 8 \<or> \<not> list_all (\<lambda>h. hextet h \<noteq> None) hextets then None
         else Some (concat (map (\<lambda>h. [word_of_nat (the (hextet h) div 256), word_of_nat (the (hextet h) mod 256)]) hextets)))"

text \<open>\<open>take\<close> bits of every byte, from the front, until the bits are used up.\<close>

definition byte_mask :: "nat \<Rightarrow> 8 word" where
  "byte_mask k = (if k = 0 then 0 else push_bit (8 - k) 0xFF)"

fun same_prefix :: "nat \<Rightarrow> 8 word list \<Rightarrow> 8 word list \<Rightarrow> bool" where
  "same_prefix remaining (a # as) (b # bs) =
     (let k = min 8 remaining in
      if a AND byte_mask k \<noteq> b AND byte_mask k then False else same_prefix (remaining - k) as bs)"
| "same_prefix remaining _ _ = True"

definition last_slash :: "string \<Rightarrow> (string \<times> string) option" where
  "last_slash s = (if CHR ''/'' \<in> set s
     then Some (rev (tl (dropWhile (\<lambda>c. c \<noteq> CHR ''/'') (rev s))), rev (takeWhile (\<lambda>c. c \<noteq> CHR ''/'') (rev s))) else None)"

definition ipInCidr :: "(string \<Rightarrow> nat) \<Rightarrow> string \<Rightarrow> string \<Rightarrow> bool" where
  "ipInCidr isIP ip cidr =
     (case last_slash cidr of
        None \<Rightarrow> False
      | Some (net, suffix) \<Rightarrow>
          let a = normalize_ip ip; version = isIP a; bytes = (if version = 4 then ipv4ToBytes else ipv6ToBytes) in
          if version = 0 \<or> version \<noteq> isIP net then False
          else case (decimal_number suffix, bytes a, bytes net) of
              (Some bits, Some ipBytes, Some rangeBytes) \<Rightarrow> bits \<le> length ipBytes * 8 \<and> same_prefix bits ipBytes rangeBytes
            | _ \<Rightarrow> False)"

definition isGithubHookIp :: "(string \<Rightarrow> nat) \<Rightarrow> string option \<Rightarrow> string list \<Rightarrow> bool" where
  "isGithubHookIp isIP ip ranges \<longleftrightarrow> text_given ip \<and> list_ex (ipInCidr isIP (the ip)) ranges"

section \<open>Signatures\<close>

record webhook_headers =
  hubSignature256 :: "string option"
  gitlabToken :: "string option"

definition safeEqual :: "string \<Rightarrow> string \<Rightarrow> bool" where
  "safeEqual a b \<longleftrightarrow> length a = length b \<and> list_all2 (=) a b"

definition verifyWebhookSignature :: "(string \<Rightarrow> string \<Rightarrow> string) \<Rightarrow> string \<Rightarrow> string option \<Rightarrow> webhook_headers \<Rightarrow> bool" where
  "verifyWebhookSignature hmacHex secret rawBody headers \<longleftrightarrow>
     text_given (hubSignature256 headers) \<and> rawBody \<noteq> None \<and>
       safeEqual (''sha256='' @ hmacHex secret (the rawBody)) (the (hubSignature256 headers)) \<or>
     text_given (gitlabToken headers) \<and> safeEqual secret (the (gitlabToken headers))"

section \<open>Payloads\<close>

record pushed_commit =
  pc_message :: "string option"
  pc_added :: "string list option"
  pc_modified :: "string list option"
  pc_removed :: "string list option"

text \<open>The optional chains of the source (\<open>pr.head.repo?.full_name\<close>) are one optional field each.\<close>

record pull_request =
  pr_title :: "string option"
  pr_html_url :: "string option"
  pr_headRef :: "string option"
  pr_headSha :: "string option"
  pr_headRepo :: "string option"
  pr_baseRepo :: "string option"

record merge_request =
  mr_action :: "string option"
  mr_iid :: "nat option"
  mr_title :: "string option"
  mr_url :: "string option"
  mr_source_branch :: "string option"
  mr_lastCommit :: "string option"
  mr_source_project_id :: "int option"
  mr_target_project_id :: "int option"

record push_payload =
  pp_ref :: "string option"
  pp_object_kind :: "string option"
  pp_deleted :: bool
  pp_created :: bool
  pp_forced :: bool
  pp_after :: "string option"
  pp_headMessage :: "string option"
  pp_headId :: "string option"
  pp_pusher :: "string option"
  pp_checkout_sha :: "string option"
  pp_total_commits_count :: "nat option"
  pp_commits :: "pushed_commit list option"
  pp_user_name :: "string option"
  pp_action :: "string option"
  pp_number :: "nat option"
  pp_pull_request :: "pull_request option"
  pp_object_attributes :: "merge_request option"

definition COMMIT_MESSAGE_MAX :: nat where "COMMIT_MESSAGE_MAX = 200"
definition PAYLOAD_COMMIT_CAP :: nat where "PAYLOAD_COMMIT_CAP = 20"

definition or_null :: "'a option \<Rightarrow> 'a option \<Rightarrow> 'a option" where
  "or_null a b = (case a of None \<Rightarrow> b | Some x \<Rightarrow> Some x)"

definition list_of :: "'a list option \<Rightarrow> 'a list" where
  "list_of v = (case v of None \<Rightarrow> [] | Some l \<Rightarrow> l)"

definition commit_files :: "pushed_commit \<Rightarrow> string list" where
  "commit_files c = list_of (pc_added c) @ list_of (pc_modified c) @ list_of (pc_removed c)"

definition under_root :: "string \<Rightarrow> string \<Rightarrow> bool" where
  "under_root root f \<longleftrightarrow> f = root \<or> starts_with (root @ ''/'') f"

fun commits_touch :: "string \<Rightarrow> pushed_commit list \<Rightarrow> bool" where
  "commits_touch root [] = False"
| "commits_touch root (c # cs) =
     (if pc_added c = None \<or> pc_modified c = None \<or> pc_removed c = None \<or> commit_files c = [] then True
      else if list_ex (under_root root) (commit_files c) then True
      else commits_touch root cs)"

definition pushTouchesRoot :: "push_payload \<Rightarrow> string option \<Rightarrow> bool" where
  "pushTouchesRoot payload root =
     (if \<not> text_given root then True
      else case pp_commits payload of
          None \<Rightarrow> True
        | Some commits \<Rightarrow>
            if commits = [] then True
            else if length commits \<ge> PAYLOAD_COMMIT_CAP then True
            else if (case pp_total_commits_count payload of None \<Rightarrow> False | Some n \<Rightarrow> n > length commits) then True
            else if pp_forced payload \<or> pp_created payload then True
            else commits_touch (the root) commits)"

record push_commit_info =
  ci_sha :: "string option"
  ci_message :: "string option"
  ci_pusherName :: "string option"

definition parsePushCommit :: "push_payload \<Rightarrow> push_commit_info" where
  "parsePushCommit payload =
     (let rawMessage = or_null (pp_headMessage payload)
            (case pp_commits payload of None \<Rightarrow> None | Some cs \<Rightarrow> if cs = [] then None else pc_message (last cs)) in
      \<lparr>ci_sha = or_null (pp_after payload) (pp_checkout_sha payload),
       ci_message = (if text_given rawMessage then Some (take COMMIT_MESSAGE_MAX (hd (split_on LF (the rawMessage)))) else None),
       ci_pusherName = or_null (pp_pusher payload) (pp_user_name payload)\<rparr>)"

datatype pr_kind = PrUpdate | PrClose

record pull_request_event =
  pe_kind :: pr_kind
  pe_number :: nat
  pe_title :: string
  pe_branch :: string
  pe_sha :: "string option"
  pe_url :: "string option"
  pe_fromFork :: bool

definition or_text :: "string option \<Rightarrow> string \<Rightarrow> string" where
  "or_text v d = (case v of None \<Rightarrow> d | Some s \<Rightarrow> s)"

definition kind_of :: "string list \<Rightarrow> string list \<Rightarrow> string \<Rightarrow> pr_kind option" where
  "kind_of upd cls action = (if action \<in> set upd then Some PrUpdate else if action \<in> set cls then Some PrClose else None)"

definition number_given :: "nat option \<Rightarrow> bool" where
  "number_given n \<longleftrightarrow> (case n of None \<Rightarrow> False | Some k \<Rightarrow> k \<noteq> 0)"

definition github_pr :: "push_payload \<Rightarrow> pull_request \<Rightarrow> pull_request_event option" where
  "github_pr payload pr =
     (case kind_of [''opened'', ''synchronize'', ''reopened''] [''closed''] (or_text (pp_action payload) []) of
        None \<Rightarrow> None
      | Some k \<Rightarrow>
          if \<not> number_given (pp_number payload) \<or> \<not> text_given (pr_headRef pr) then None
          else let n = the (pp_number payload) in
            Some \<lparr>pe_kind = k, pe_number = n, pe_title = or_text (pr_title pr) (''PR #'' @ nat_str n), pe_branch = the (pr_headRef pr),
              pe_sha = pr_headSha pr, pe_url = pr_html_url pr, pe_fromFork = (text_given (pr_headRepo pr) \<and> pr_headRepo pr \<noteq> pr_baseRepo pr)\<rparr>)"

definition gitlab_mr :: "merge_request \<Rightarrow> pull_request_event option" where
  "gitlab_mr mr =
     (case kind_of [''open'', ''update'', ''reopen''] [''close'', ''merge''] (or_text (mr_action mr) []) of
        None \<Rightarrow> None
      | Some k \<Rightarrow>
          if \<not> number_given (mr_iid mr) \<or> \<not> text_given (mr_source_branch mr) then None
          else let n = the (mr_iid mr) in
            Some \<lparr>pe_kind = k, pe_number = n, pe_title = or_text (mr_title mr) (''MR !'' @ nat_str n), pe_branch = the (mr_source_branch mr),
              pe_sha = mr_lastCommit mr, pe_url = mr_url mr,
              pe_fromFork = (mr_source_project_id mr \<noteq> None \<and> mr_target_project_id mr \<noteq> None \<and> mr_source_project_id mr \<noteq> mr_target_project_id mr)\<rparr>)"

definition parsePullRequest :: "push_payload \<Rightarrow> string option \<Rightarrow> pull_request_event option" where
  "parsePullRequest payload event =
     (if event = Some ''pull_request'' \<and> pp_pull_request payload \<noteq> None then github_pr payload (the (pp_pull_request payload))
      else if pp_object_kind payload = Some ''merge_request'' \<and> pp_object_attributes payload \<noteq> None then gitlab_mr (the (pp_object_attributes payload))
      else None)"

section \<open>Previews\<close>

datatype preview_status = PvBuilding | PvRunning | PvFailed | PvClosed

record preview_row =
  pv_id :: string
  pv_applicationId :: string
  pv_prNumber :: nat
  pv_title :: string
  pv_branch :: string
  pv_commitSha :: "string option"
  pv_prUrl :: "string option"
  pv_host :: "string option"
  pv_status :: preview_status

record hook_app =
  ha_app :: watched_app
  ha_appName :: string
  ha_webhookToken :: string
  ha_secretEncrypted :: "string option"
  ha_gitBranch :: string
  ha_watchRootOnly :: bool
  ha_rootDirectory :: "string option"
  ha_serverId :: "string option"
  ha_previewsEnabled :: bool
  ha_previewDomain :: "string option"

definition ha_id :: "hook_app \<Rightarrow> string" where
  "ha_id app = wa_id (ha_app app)"

record hook_state =
  hs_apps :: "hook_app list"
  hs_watch :: watch_state
  hs_previews :: "preview_row list"
  hs_active :: "string list"
  hs_builds :: "(string \<times> string) list"

text \<open>The configuration, the functions of the runtime and the engine's answer; \<open>hc_newId\<close> is the id of the next row.\<close>

record hook_config =
  hc_decrypt :: "string \<Rightarrow> string"
  hc_hmacHex :: "string \<Rightarrow> string \<Rightarrow> string"
  hc_isIP :: "string \<Rightarrow> nat"
  hc_verifyGithubIp :: bool
  hc_ranges :: "string list"
  hc_previewDomain :: "string option"
  hc_newId :: string
  hc_removes :: "string \<Rightarrow> bool"

definition PREVIEW_MAX :: nat where "PREVIEW_MAX = 5"

definition preview_container :: "hook_app \<Rightarrow> nat \<Rightarrow> string" where
  "preview_container app n = ''aoox-app-'' @ ha_appName app @ ''-pr'' @ nat_str n"

definition trimmed_given :: "string option \<Rightarrow> string option" where
  "trimmed_given v = (case v of None \<Rightarrow> None | Some s \<Rightarrow> if trim s = [] then None else Some (trim s))"

definition baseDomain :: "hook_config \<Rightarrow> hook_app \<Rightarrow> string option" where
  "baseDomain cfg app = or_null (trimmed_given (ha_previewDomain app)) (trimmed_given (hc_previewDomain cfg))"

definition hostFor :: "hook_config \<Rightarrow> hook_app \<Rightarrow> nat \<Rightarrow> string option" where
  "hostFor cfg app n = map_option (\<lambda>base. ha_appName app @ ''-pr'' @ nat_str n @ ''.'' @ base) (baseDomain cfg app)"

definition findByPr :: "hook_state \<Rightarrow> string \<Rightarrow> nat \<Rightarrow> preview_row option" where
  "findByPr s aid n = find (\<lambda>r. pv_applicationId r = aid \<and> pv_prNumber r = n) (hs_previews s)"

definition open_previews :: "hook_state \<Rightarrow> string \<Rightarrow> nat" where
  "open_previews s aid = length (filter (\<lambda>r. pv_applicationId r = aid \<and> pv_status r \<in> {PvBuilding, PvRunning, PvFailed}) (hs_previews s))"

definition fill_preview :: "hook_config \<Rightarrow> hook_app \<Rightarrow> pull_request_event \<Rightarrow> preview_row \<Rightarrow> preview_row" where
  "fill_preview cfg app pr r = r\<lparr>pv_title := take 255 (pe_title pr), pv_branch := pe_branch pr, pv_commitSha := pe_sha pr, pv_prUrl := pe_url pr,
     pv_host := (if text_given (ha_serverId app) then None else hostFor cfg app (pe_number pr)), pv_status := PvBuilding\<rparr>"

definition new_preview :: "string \<Rightarrow> string \<Rightarrow> nat \<Rightarrow> preview_row" where
  "new_preview i aid n = \<lparr>pv_id = i, pv_applicationId = aid, pv_prNumber = n, pv_title = [], pv_branch = [], pv_commitSha = None,
     pv_prUrl = None, pv_host = None, pv_status = PvBuilding\<rparr>"

text \<open>The build is started unless one for the row is running; \<open>hs_builds\<close> records the builds with their branch.\<close>

definition start_build :: "preview_row \<Rightarrow> hook_state \<Rightarrow> hook_state" where
  "start_build r s = (if pv_id r \<in> set (hs_active s) then s
     else s\<lparr>hs_active := pv_id r # hs_active s, hs_builds := hs_builds s @ [(pv_id r, pv_branch r)]\<rparr>)"

definition upsert :: "hook_config \<Rightarrow> hook_app \<Rightarrow> pull_request_event \<Rightarrow> hook_state \<Rightarrow> preview_row option \<times> hook_state" where
  "upsert cfg app pr s =
     (case findByPr s (ha_id app) (pe_number pr) of
        Some r \<Rightarrow>
          let r' = fill_preview cfg app pr r in
          (Some r', start_build r' (s\<lparr>hs_previews := map (\<lambda>x. if pv_id x = pv_id r then r' else x) (hs_previews s)\<rparr>))
      | None \<Rightarrow>
          if open_previews s (ha_id app) \<ge> PREVIEW_MAX then (None, s)
          else let r' = fill_preview cfg app pr (new_preview (hc_newId cfg) (ha_id app) (pe_number pr)) in
            (Some r', start_build r' (s\<lparr>hs_previews := hs_previews s @ [r']\<rparr>)))"

text \<open>The end of a build: \<open>log.finish\<close> writes the status, and the row is no longer active.\<close>

definition finish_build :: "string \<Rightarrow> bool \<Rightarrow> hook_state \<Rightarrow> hook_state" where
  "finish_build i success s = s\<lparr>hs_previews := map (\<lambda>r. if pv_id r = i then r\<lparr>pv_status := (if success then PvRunning else PvFailed)\<rparr> else r) (hs_previews s),
     hs_active := filter (\<lambda>j. j \<noteq> i) (hs_active s)\<rparr>"

text \<open>The container first: when the engine fails, the row stays.\<close>

definition destroy_preview :: "hook_config \<Rightarrow> hook_app \<Rightarrow> preview_row \<Rightarrow> hook_state \<Rightarrow> hook_state option" where
  "destroy_preview cfg app r s =
     (if hc_removes cfg (preview_container app (pv_prNumber r))
      then Some (s\<lparr>hs_previews := filter (\<lambda>x. pv_id x \<noteq> pv_id r) (hs_previews s)\<rparr>) else None)"

section \<open>Deliveries\<close>

record webhook_auth =
  au_rawBody :: "string option"
  au_headers :: webhook_headers
  au_sourceIp :: "string option"
  au_isGithub :: bool

datatype hook_reason = UnknownWebhook | BadSignature | BadSource | EngineFailed

datatype ignored_reason = PreviewsDisabled | Fork | PreviewLimit | OtherEvent "string option" | BranchDeleted | OtherRef string | OutsideRoot | TemplateStack

datatype hook_answer =
    Queued nat "string option" "string option" "string option"
  | Ignored ignored_reason
  | Busy
  | Preview string
  | PreviewClosed "string option"

text \<open>The secret, the signature and the source address, the same for applications and stacks.\<close>

definition hook_secret :: "hook_config \<Rightarrow> string option \<Rightarrow> string option" where
  "hook_secret cfg enc = (if text_given enc then (let s = hc_decrypt cfg (the enc) in if s = [] then None else Some s) else None)"

definition check_delivery :: "hook_config \<Rightarrow> string option \<Rightarrow> webhook_auth \<Rightarrow> (hook_reason, unit) res" where
  "check_delivery cfg enc auth =
     (case hook_secret cfg enc of
        None \<Rightarrow> Inr ()
      | Some secret \<Rightarrow>
          if \<not> verifyWebhookSignature (hc_hmacHex cfg) secret (au_rawBody auth) (au_headers auth) then Inl (Unauthorized BadSignature)
          else if au_isGithub auth \<and> hc_verifyGithubIp cfg \<and> hc_ranges cfg \<noteq> [] \<and> \<not> isGithubHookIp (hc_isIP cfg) (au_sourceIp auth) (hc_ranges cfg)
          then Inl (Unauthorized BadSource)
          else Inr ())"

definition is_push :: "push_payload \<Rightarrow> string option \<Rightarrow> bool" where
  "is_push payload event \<longleftrightarrow> \<not> text_given event \<or> event = Some ''push'' \<or> str_includes (toLowerCase (the event)) ''push'' \<or> pp_object_kind payload = Some ''push''"

definition handle_pr :: "hook_config \<Rightarrow> hook_app \<Rightarrow> pull_request_event \<Rightarrow> hook_state \<Rightarrow> (hook_reason, hook_answer \<times> hook_state) res" where
  "handle_pr cfg app pr s =
     (if \<not> ha_previewsEnabled app then Inr (Ignored PreviewsDisabled, s)
      else if pe_kind pr = PrClose then
        (case findByPr s (ha_id app) (pe_number pr) of
           None \<Rightarrow> Inr (PreviewClosed None, s)
         | Some r \<Rightarrow> (case destroy_preview cfg app r s of None \<Rightarrow> Inl (ServerError EngineFailed) | Some s' \<Rightarrow> Inr (PreviewClosed (Some (pv_id r)), s')))
      else if pe_fromFork pr then Inr (Ignored Fork, s)
      else case upsert cfg app pr s of
          (None, s') \<Rightarrow> Inr (Ignored PreviewLimit, s')
        | (Some r, s') \<Rightarrow> Inr (Preview (pv_id r), s'))"

text \<open>Why a push to an application is ignored, if it is.\<close>

definition push_ignored :: "hook_app \<Rightarrow> push_payload \<Rightarrow> string option \<Rightarrow> ignored_reason option" where
  "push_ignored app payload event =
     (if \<not> is_push payload event then Some (OtherEvent event)
      else if pp_deleted payload then Some BranchDeleted
      else if \<not> wa_isImage (ha_app app) \<and> text_given (pp_ref payload) \<and> the (pp_ref payload) \<noteq> ''refs/heads/'' @ ha_gitBranch app
      then Some (OtherRef (the (pp_ref payload)))
      else if \<not> wa_isImage (ha_app app) \<and> ha_watchRootOnly app \<and> \<not> pushTouchesRoot payload (ha_rootDirectory app) then Some OutsideRoot
      else None)"

definition handle_push :: "hook_app \<Rightarrow> push_payload \<Rightarrow> string option \<Rightarrow> hook_state \<Rightarrow> hook_answer \<times> hook_state" where
  "handle_push app payload event s =
     (case push_ignored app payload event of
        Some reason \<Rightarrow> (Ignored reason, s)
      | None \<Rightarrow>
          let commit = parsePushCommit payload in
          case queue (ha_app app) (ci_message commit) None (hs_watch s) of
            Inl _ \<Rightarrow> (Busy, s)
          | Inr (i, w) \<Rightarrow> (Queued i (ci_sha commit) (ci_message commit) (ci_pusherName commit), s\<lparr>hs_watch := w\<rparr>))"

definition webhook_execute ::
  "hook_config \<Rightarrow> string \<Rightarrow> push_payload \<Rightarrow> string option \<Rightarrow> webhook_auth \<Rightarrow> hook_state \<Rightarrow> (hook_reason, hook_answer \<times> hook_state) res" where
  "webhook_execute cfg token payload event auth s =
     (case find (\<lambda>a. ha_webhookToken a = token) (hs_apps s) of
        None \<Rightarrow> Inl (NotFound UnknownWebhook)
      | Some app \<Rightarrow>
          if \<not> safeEqual (ha_webhookToken app) token then Inl (NotFound UnknownWebhook)
          else rbind (check_delivery cfg (ha_secretEncrypted app) auth) (\<lambda>_.
            case parsePullRequest payload event of
              Some pr \<Rightarrow> handle_pr cfg app pr s
            | None \<Rightarrow> Inr (handle_push app payload event s)))"

section \<open>Stacks\<close>

record hook_stack =
  st_id :: string
  st_webhookToken :: string
  st_secretEncrypted :: "string option"
  st_fromGit :: bool
  st_gitBranch :: string

record stack_state =
  ss_stacks :: "hook_stack list"
  ss_active :: "string list"
  ss_runs :: "(string \<times> string option) list"

definition stack_ignored :: "hook_stack \<Rightarrow> push_payload \<Rightarrow> string option \<Rightarrow> ignored_reason option" where
  "stack_ignored app payload event =
     (if \<not> st_fromGit app then Some TemplateStack
      else if \<not> is_push payload event then Some (OtherEvent event)
      else if pp_deleted payload then Some BranchDeleted
      else if text_given (pp_ref payload) \<and> the (pp_ref payload) \<noteq> ''refs/heads/'' @ st_gitBranch app then Some (OtherRef (the (pp_ref payload)))
      else None)"

definition webhook_execute_compose ::
  "hook_config \<Rightarrow> string \<Rightarrow> push_payload \<Rightarrow> string option \<Rightarrow> webhook_auth \<Rightarrow> stack_state \<Rightarrow> (hook_reason, hook_answer \<times> stack_state) res" where
  "webhook_execute_compose cfg token payload event auth s =
     (case find (\<lambda>a. st_webhookToken a = token) (ss_stacks s) of
        None \<Rightarrow> Inl (NotFound UnknownWebhook)
      | Some app \<Rightarrow>
          if \<not> safeEqual (st_webhookToken app) token then Inl (NotFound UnknownWebhook)
          else rbind (check_delivery cfg (st_secretEncrypted app) auth) (\<lambda>_.
            case stack_ignored app payload event of
              Some reason \<Rightarrow> Inr (Ignored reason, s)
            | None \<Rightarrow>
                if st_id app \<in> set (ss_active s) then Inr (Busy, s)
                else let sha = or_null (pp_headId payload) (or_null (pp_after payload) (pp_checkout_sha payload)) in
                  Inr (Queued (length (ss_runs s)) sha None None,
                    s\<lparr>ss_active := st_id app # ss_active s, ss_runs := ss_runs s @ [(st_id app, sha)]\<rparr>)))"

end
