(* ===== verification/Webhook_Laws.thy ===== *)
theory Webhook_Laws
  imports Webhooks
begin

text \<open>
  Deliveries of a git provider: what it takes for one to change anything, that the check of the source address is the
  comparison of network prefixes, and the limit on previews.
\<close>

unbundle bit_operations_syntax

section \<open>Networks\<close>

text \<open>The address as one number.\<close>

fun addr :: "8 word list \<Rightarrow> nat" where
  "addr [] = 0"
| "addr (b # bs) = unat b * 2 ^ (8 * length bs) + addr bs"

lemma addr_less: "addr bs < 2 ^ (8 * length bs)"
proof (induction bs)
  case (Cons b bs)
  have "unat b < 2 ^ LENGTH(8)" by (rule unsigned_less)
  then have "unat b < 256" by simp
  have "addr (b # bs) < (unat b + 1) * 2 ^ (8 * length bs)" using Cons.IH by simp
  also have "\<dots> \<le> 256 * 2 ^ (8 * length bs)" using \<open>unat b < 256\<close> by (intro mult_le_mono1) simp
  also have "(256 :: nat) * 2 ^ (8 * length bs) = 2 ^ (8 * length (b # bs))" by (simp add: power_add)
  finally show ?case .
qed simp

lemma byte_mask_eq:
  assumes "k \<le> 8"
  shows "a AND byte_mask k = b AND byte_mask k \<longleftrightarrow> unat a div 2 ^ (8 - k) = unat b div 2 ^ (8 - k)"
proof -
  have m: "bit (byte_mask k) i \<longleftrightarrow> 8 - k \<le> i \<and> i < 8" for i
  proof (cases "k = 0")
    case False
    have e: "(0xFF :: 8 word) = mask 8" by (simp add: mask_eq_exp_minus_1)
    have ff: "bit (0xFF :: 8 word) n \<longleftrightarrow> n < 8" for n unfolding e bit_mask_iff by auto
    show ?thesis unfolding byte_mask_def if_not_P [OF False] bit_push_bit_iff ff using False assms by auto
  qed (simp add: byte_mask_def)
  have "a AND byte_mask k = b AND byte_mask k \<longleftrightarrow> (\<forall>i. 8 - k \<le> i \<and> i < 8 \<longrightarrow> bit a i = bit b i)"
    by (auto simp: bit_eq_iff bit_and_iff m)
  also have "\<dots> \<longleftrightarrow> drop_bit (8 - k) a = drop_bit (8 - k) b"
  proof
    assume h: "\<forall>i. 8 - k \<le> i \<and> i < 8 \<longrightarrow> bit a i = bit b i"
    have "bit a (8 - k + n) = bit b (8 - k + n)" for n
      using h bit_imp_le_length [of a "8 - k + n"] bit_imp_le_length [of b "8 - k + n"] by (cases "8 - k + n < 8") auto
    then show "drop_bit (8 - k) a = drop_bit (8 - k) b" by (simp add: bit_eq_iff bit_drop_bit_eq)
  next
    assume "drop_bit (8 - k) a = drop_bit (8 - k) b"
    then have "bit (drop_bit (8 - k) a) n = bit (drop_bit (8 - k) b) n" for n by simp
    then have "bit a (8 - k + n) = bit b (8 - k + n)" for n by (simp add: bit_drop_bit_eq)
    then show "\<forall>i. 8 - k \<le> i \<and> i < 8 \<longrightarrow> bit a i = bit b i" by (metis le_add_diff_inverse)
  qed
  also have "\<dots> \<longleftrightarrow> unat a div 2 ^ (8 - k) = unat b div 2 ^ (8 - k)"
    by (simp only: word_unat_eq_iff unat_drop_bit_eq) (simp add: drop_bit_eq_div)
  finally show ?thesis .
qed

lemma div_high:
  fixes x y :: nat
  assumes "y < 2 ^ n" and "k \<le> n"
  shows "(x * 2 ^ n + y) div 2 ^ k = x * 2 ^ (n - k) + y div 2 ^ k"
proof -
  have "2 ^ n = (2 :: nat) ^ (n - k) * 2 ^ k" using assms(2) by (simp flip: power_add)
  then have e: "x * 2 ^ n + y = y + x * 2 ^ (n - k) * 2 ^ k" by simp
  show ?thesis unfolding e by simp
qed

lemma div_low:
  fixes x y :: nat
  assumes "y < 2 ^ n"
  shows "(x * 2 ^ n + y) div 2 ^ (n + k) = x div 2 ^ k"
  using assms by (simp add: power_add div_mult2_eq)

lemma high_low_eq:
  fixes x y :: nat
  assumes "y < 2 ^ m" and "y' < 2 ^ m"
  shows "x * 2 ^ m + y = x' * 2 ^ m + y' \<longleftrightarrow> x = x' \<and> y = y'"
proof
  assume e: "x * 2 ^ m + y = x' * 2 ^ m + y'"
  have "(x * 2 ^ m + y) div 2 ^ m = x" "(x' * 2 ^ m + y') div 2 ^ m = x'" using assms by simp_all
  then have "x = x'" using e by simp
  then show "x = x' \<and> y = y'" using e by simp
qed simp

text \<open>
  C33: The comparison of masked bytes is the comparison of network prefixes: for addresses of the same length and a prefix
  length within them, the loop answers yes exactly when the two addresses, read as numbers, agree after the host bits are
  shifted out.
\<close>

theorem same_prefix_is_network:
  assumes "length as = length bs" and "bits \<le> 8 * length as"
  shows "same_prefix bits as bs \<longleftrightarrow> addr as div 2 ^ (8 * length as - bits) = addr bs div 2 ^ (8 * length bs - bits)"
  using assms
proof (induction as bs arbitrary: bits rule: list_induct2)
  case (Cons a as b bs)
  let ?n = "8 * length as"
  have l: "length bs = length as" using Cons.hyps by simp
  have lt: "addr as < 2 ^ ?n" "addr bs < 2 ^ ?n" using addr_less [of as] addr_less [of bs] l by simp_all
  show ?case
  proof (cases "bits < 8")
    case True
    have z: "same_prefix 0 as bs" using Cons.IH [of 0] lt l by simp
    have e: "8 * length (a # as) - bits = ?n + (8 - bits)" "8 * length (b # bs) - bits = ?n + (8 - bits)" using True l by simp_all
    have "addr (a # as) div 2 ^ (?n + (8 - bits)) = unat a div 2 ^ (8 - bits)" "addr (b # bs) div 2 ^ (?n + (8 - bits)) = unat b div 2 ^ (8 - bits)"
      using div_low [OF lt(1)] div_low [OF lt(2)] l by simp_all
    then show ?thesis using z byte_mask_eq [of bits a b] True unfolding e by simp
  next
    case False
    have k: "bits - 8 \<le> ?n" using Cons.prems by simp
    have e: "8 * length (a # as) - bits = ?n - (bits - 8)" "8 * length (b # bs) - bits = ?n - (bits - 8)" using False l by simp_all
    have d: "addr as div 2 ^ (?n - (bits - 8)) < 2 ^ (bits - 8)" "addr bs div 2 ^ (?n - (bits - 8)) < 2 ^ (bits - 8)"
      using lt k by (simp_all add: less_mult_imp_div_less flip: power_add)
    have "addr (a # as) div 2 ^ (?n - (bits - 8)) = addr (b # bs) div 2 ^ (?n - (bits - 8)) \<longleftrightarrow>
        unat a = unat b \<and> addr as div 2 ^ (?n - (bits - 8)) = addr bs div 2 ^ (?n - (bits - 8))"
      using div_high [OF lt(1), of "?n - (bits - 8)" "unat a"] div_high [OF lt(2), of "?n - (bits - 8)" "unat b"] high_low_eq [OF d] l k by simp
    moreover have "a AND byte_mask 8 = b AND byte_mask 8 \<longleftrightarrow> unat a = unat b" using byte_mask_eq [of 8 a b] by simp
    ultimately show ?thesis using Cons.IH [OF k] False l unfolding e by simp
  qed
qed simp

theorem same_prefix_is_network_witness:
  "same_prefix 20 [192, 30, 255, 1] [192, 30, 252, 0] \<and> \<not> same_prefix 23 [192, 30, 255, 1] [192, 30, 252, 0] \<and>
   addr [192, 30, 255, 1] div 2 ^ 12 = addr [192, 30, 252, 0] div 2 ^ 12"
  using same_prefix_is_network [of "[192, 30, 255, 1]" "[192, 30, 252, 0]" 20] same_prefix_is_network [of "[192, 30, 255, 1]" "[192, 30, 252, 0]" 23]
  by simp

section \<open>Deliveries\<close>

lemma safeEqual_eq [simp]: "safeEqual a b \<longleftrightarrow> a = b"
  by (auto simp: safeEqual_def list.rel_eq)

text \<open>What proves that a delivery knows the secret of the application.\<close>

definition authentic :: "hook_config \<Rightarrow> string option \<Rightarrow> webhook_auth \<Rightarrow> bool" where
  "authentic cfg enc auth \<longleftrightarrow>
     (case hook_secret cfg enc of
        None \<Rightarrow> True
      | Some secret \<Rightarrow>
          (\<exists>body. au_rawBody auth = Some body \<and> hubSignature256 (au_headers auth) = Some (''sha256='' @ hc_hmacHex cfg secret body)) \<or>
          gitlabToken (au_headers auth) = Some secret)"

lemma text_given_iff: "text_given v \<longleftrightarrow> (\<exists>t. v = Some t \<and> t \<noteq> [])"
  by (auto simp: text_given_def split: option.splits)

lemma check_delivery_authentic: "check_delivery cfg enc auth = Inr () \<Longrightarrow> authentic cfg enc auth"
  by (auto simp: check_delivery_def authentic_def verifyWebhookSignature_def text_given_iff split: option.splits if_splits)

text \<open>A push that is not ignored: of the configured branch when it names one, and under the root when only that is watched.\<close>

lemma push_not_ignored:
  assumes "push_ignored app payload event = None"
  shows "is_push payload event" "\<not> pp_deleted payload"
    "wa_isImage (ha_app app) \<or> pp_ref payload \<in> {None, Some [], Some (''refs/heads/'' @ ha_gitBranch app)}"
    "wa_isImage (ha_app app) \<or> \<not> ha_watchRootOnly app \<or> pushTouchesRoot payload (ha_rootDirectory app)"
  using assms by (auto simp: push_ignored_def text_given_iff split: if_splits)

text \<open>A push is passed over only when the payload shows that every changed file is outside of the root.\<close>

lemma commits_touch_False:
  "\<not> commits_touch root cs \<longleftrightarrow> (\<forall>c \<in> set cs. pc_added c \<noteq> None \<and> pc_modified c \<noteq> None \<and> pc_removed c \<noteq> None \<and> commit_files c \<noteq> [] \<and>
     (\<forall>f \<in> set (commit_files c). \<not> under_root root f))"
  by (induction cs) (auto simp: list_ex_iff)

lemma pushTouchesRoot_False:
  assumes "\<not> pushTouchesRoot payload root"
  obtains r cs where "root = Some r" "r \<noteq> []" "pp_commits payload = Some cs" "cs \<noteq> []" "length cs < PAYLOAD_COMMIT_CAP"
    "\<not> pp_forced payload" "\<not> pp_created payload"
    "\<And>c f. c \<in> set cs \<Longrightarrow> commit_files c \<noteq> [] \<and> (f \<in> set (commit_files c) \<longrightarrow> \<not> under_root r f)"
  using assms by (auto simp: pushTouchesRoot_def text_given_iff commits_touch_False split: option.splits if_splits)

section \<open>Previews\<close>

definition previews_ok :: "hook_state \<Rightarrow> bool" where
  "previews_ok s \<longleftrightarrow> distinct (map pv_id (hs_previews s)) \<and> distinct (map (\<lambda>r. (pv_applicationId r, pv_prNumber r)) (hs_previews s)) \<and>
     (\<forall>r \<in> set (hs_previews s). pv_status r \<noteq> PvClosed) \<and> (\<forall>aid. open_previews s aid \<le> PREVIEW_MAX)"

lemma start_build_simps [simp]:
  "hs_previews (start_build r s) = hs_previews s" "hs_watch (start_build r s) = hs_watch s" "hs_apps (start_build r s) = hs_apps s"
  by (simp_all add: start_build_def)

lemma fill_preview_simps [simp]:
  "pv_id (fill_preview cfg app pr r) = pv_id r" "pv_applicationId (fill_preview cfg app pr r) = pv_applicationId r"
  "pv_prNumber (fill_preview cfg app pr r) = pv_prNumber r" "pv_status (fill_preview cfg app pr r) = PvBuilding"
  by (simp_all add: fill_preview_def)

definition other_previews :: "string \<Rightarrow> nat \<Rightarrow> hook_state \<Rightarrow> preview_row list" where
  "other_previews aid n s = filter (\<lambda>r. pv_applicationId r \<noteq> aid \<or> pv_prNumber r \<noteq> n) (hs_previews s)"

lemma findByPr_Some: "findByPr s aid n = Some r \<Longrightarrow> r \<in> set (hs_previews s) \<and> pv_applicationId r = aid \<and> pv_prNumber r = n"
  by (auto simp: findByPr_def dest: find_SomeD)

lemma findByPr_None: "findByPr s aid n = None \<Longrightarrow> r \<in> set (hs_previews s) \<Longrightarrow> (pv_applicationId r, pv_prNumber r) \<noteq> (aid, n)"
  by (auto simp: findByPr_def find_None_iff)

lemma same_row: "distinct (map pv_id rs) \<Longrightarrow> x \<in> set rs \<Longrightarrow> r \<in> set rs \<Longrightarrow> pv_id x = pv_id r \<Longrightarrow> x = r"
  by (metis distinct_map inj_onD)

lemma filter_map_same:
  assumes "\<And>x. x \<in> set rs \<Longrightarrow> P (f x) = P x" and "\<And>x. x \<in> set rs \<Longrightarrow> P x \<Longrightarrow> f x = x"
  shows "filter P (map f rs) = filter P rs"
  using assms by (induction rs) auto

lemma upsert_others:
  assumes "upsert cfg app pr s = (res, s')" and "distinct (map pv_id (hs_previews s))"
  shows "other_previews (ha_id app) (pe_number pr) s' = other_previews (ha_id app) (pe_number pr) s" "hs_watch s' = hs_watch s" "hs_apps s' = hs_apps s"
proof -
  have "other_previews (ha_id app) (pe_number pr) s' = other_previews (ha_id app) (pe_number pr) s \<and> hs_watch s' = hs_watch s \<and> hs_apps s' = hs_apps s"
  proof (cases "findByPr s (ha_id app) (pe_number pr)")
    case None
    then show ?thesis using assms(1) by (auto simp: upsert_def other_previews_def new_preview_def Let_def split: if_splits)
  next
    case (Some r)
    have "filter (\<lambda>r. pv_applicationId r \<noteq> ha_id app \<or> pv_prNumber r \<noteq> pe_number pr) (map (\<lambda>x. if pv_id x = pv_id r then fill_preview cfg app pr r else x) (hs_previews s)) =
        filter (\<lambda>r. pv_applicationId r \<noteq> ha_id app \<or> pv_prNumber r \<noteq> pe_number pr) (hs_previews s)"
      using same_row [OF assms(2)] findByPr_Some [OF Some] by (intro filter_map_same) auto
    then show ?thesis using assms(1) Some by (auto simp: upsert_def other_previews_def Let_def)
  qed
  then show "other_previews (ha_id app) (pe_number pr) s' = other_previews (ha_id app) (pe_number pr) s" "hs_watch s' = hs_watch s" "hs_apps s' = hs_apps s"
    by auto
qed

lemma handle_pr_others:
  assumes "handle_pr cfg app pr s = Inr (ans, s')" and "distinct (map pv_id (hs_previews s))" and "s' \<noteq> s"
  shows "ha_previewsEnabled app \<and> (pe_kind pr = PrClose \<or> \<not> pe_fromFork pr) \<and> hs_watch s' = hs_watch s \<and> hs_apps s' = hs_apps s \<and>
    other_previews (ha_id app) (pe_number pr) s' = other_previews (ha_id app) (pe_number pr) s"
proof (cases "pe_kind pr = PrClose")
  case True
  then obtain r where r: "findByPr s (ha_id app) (pe_number pr) = Some r" "s' = s\<lparr>hs_previews := filter (\<lambda>x. pv_id x \<noteq> pv_id r) (hs_previews s)\<rparr>"
    and en: "ha_previewsEnabled app"
    using assms(1,3) by (auto simp: handle_pr_def destroy_preview_def split: if_splits option.splits)
  have "other_previews (ha_id app) (pe_number pr) s' = other_previews (ha_id app) (pe_number pr) s"
    unfolding r(2) other_previews_def using same_row [OF assms(2)] findByPr_Some [OF r(1)] by (auto simp: intro!: filter_cong)
  then show ?thesis using r(2) True en by simp
next
  case False
  then have "ha_previewsEnabled app" "\<not> pe_fromFork pr" "\<exists>res. upsert cfg app pr s = (res, s')"
    using assms(1,3) by (auto simp: handle_pr_def split: if_splits option.splits prod.splits)
  then show ?thesis using upsert_others [OF _ assms(2)] by blast
qed

lemma handle_push_change:
  assumes "handle_push app payload event s = (ans, s')" and "s' \<noteq> s"
  shows "push_ignored app payload event = None \<and> active_count (hs_watch s) (ha_id app) = 0 \<and> hs_apps s' = hs_apps s \<and> hs_previews s' = hs_previews s \<and>
    wapps (hs_watch s') = wapps (hs_watch s) \<and>
    (\<exists>d. deps (hs_watch s') = deps (hs_watch s) @ [d] \<and> dep_app d = ha_id app \<and> dep_status d = DQueued)"
  using assms by (auto simp: handle_push_def queue_def ha_id_def Let_def split: option.splits sum.splits if_splits)


section \<open>The limit on previews\<close>

text \<open>Deliveries and the ends of builds, in any order; a new row gets an id of its own.\<close>

inductive hook_reachable :: "hook_state \<Rightarrow> bool" where
  start: "hs_previews s = [] \<Longrightarrow> hook_reachable s"
| delivery: "hook_reachable s \<Longrightarrow> hc_newId cfg \<notin> pv_id ` set (hs_previews s) \<Longrightarrow>
    webhook_execute cfg token payload event auth s = Inr (ans, s') \<Longrightarrow> hook_reachable s'"
| built: "hook_reachable s \<Longrightarrow> hook_reachable (finish_build i success s)"

lemma open_all:
  assumes "\<And>r. r \<in> set (hs_previews s) \<Longrightarrow> pv_status r \<noteq> PvClosed"
  shows "open_previews s aid = length (filter (\<lambda>r. pv_applicationId r = aid) (hs_previews s))"
proof -
  have "pv_status r \<in> {PvBuilding, PvRunning, PvFailed}" if "r \<in> set (hs_previews s)" for r using assms [OF that] by (cases "pv_status r") auto
  then show ?thesis unfolding open_previews_def by (auto intro!: arg_cong [of _ _ length] filter_cong)
qed

lemma previews_ok_iff:
  "previews_ok s \<longleftrightarrow> distinct (map pv_id (hs_previews s)) \<and> distinct (map (\<lambda>r. (pv_applicationId r, pv_prNumber r)) (hs_previews s)) \<and>
     (\<forall>r \<in> set (hs_previews s). pv_status r \<noteq> PvClosed) \<and> (\<forall>aid. length (filter (\<lambda>r. pv_applicationId r = aid) (hs_previews s)) \<le> PREVIEW_MAX)"
  using open_all [of s] by (auto simp: previews_ok_def)

text \<open>Rewriting a row keeps the rest of the invariant when it keeps the row's identity.\<close>

lemma previews_ok_map:
  assumes "previews_ok s" and "hs_previews s' = map f (hs_previews s)"
    and "\<And>r. r \<in> set (hs_previews s) \<Longrightarrow> pv_id (f r) = pv_id r \<and> pv_applicationId (f r) = pv_applicationId r \<and> pv_prNumber (f r) = pv_prNumber r \<and> pv_status (f r) \<noteq> PvClosed"
  shows "previews_ok s'"
proof -
  have "map pv_id (hs_previews s') = map pv_id (hs_previews s)"
    "map (\<lambda>r. (pv_applicationId r, pv_prNumber r)) (hs_previews s') = map (\<lambda>r. (pv_applicationId r, pv_prNumber r)) (hs_previews s)"
    unfolding assms(2) using assms(3) by simp_all
  moreover have "length (filter (\<lambda>r. pv_applicationId r = aid) (hs_previews s')) = length (filter (\<lambda>r. pv_applicationId r = aid) (hs_previews s))" for aid
    unfolding assms(2) filter_map length_map comp_def using assms(3) by (auto intro!: arg_cong [of _ _ length] filter_cong)
  moreover have "\<forall>r \<in> set (hs_previews s'). pv_status r \<noteq> PvClosed" unfolding assms(2) using assms(3) by auto
  ultimately show ?thesis using assms(1) unfolding previews_ok_iff by simp
qed

lemma previews_ok_upsert:
  assumes "previews_ok s" and "hc_newId cfg \<notin> pv_id ` set (hs_previews s)" and "upsert cfg app pr s = (res, s')"
  shows "previews_ok s'"
proof (cases "findByPr s (ha_id app) (pe_number pr)")
  case (Some r)
  then have s': "hs_previews s' = map (\<lambda>x. if pv_id x = pv_id r then fill_preview cfg app pr r else x) (hs_previews s)"
    using assms(3) by (auto simp: upsert_def Let_def)
  have d: "distinct (map pv_id (hs_previews s))" "\<And>r. r \<in> set (hs_previews s) \<Longrightarrow> pv_status r \<noteq> PvClosed" using assms(1) by (auto simp: previews_ok_iff)
  show ?thesis
  proof (rule previews_ok_map [OF assms(1) s'])
    fix x assume x: "x \<in> set (hs_previews s)"
    then have "x = r" if "pv_id x = pv_id r" using same_row [OF d(1) x] findByPr_Some [OF Some] that by blast
    then show "pv_id (if pv_id x = pv_id r then fill_preview cfg app pr r else x) = pv_id x \<and>
      pv_applicationId (if pv_id x = pv_id r then fill_preview cfg app pr r else x) = pv_applicationId x \<and>
      pv_prNumber (if pv_id x = pv_id r then fill_preview cfg app pr r else x) = pv_prNumber x \<and>
      pv_status (if pv_id x = pv_id r then fill_preview cfg app pr r else x) \<noteq> PvClosed" using d(2) [OF x] by auto
  qed
next
  case None
  have d: "\<And>r. r \<in> set (hs_previews s) \<Longrightarrow> pv_status r \<noteq> PvClosed" using assms(1) by (auto simp: previews_ok_iff)
  show ?thesis
  proof (cases "open_previews s (ha_id app) \<ge> PREVIEW_MAX")
    case True
    then show ?thesis using assms(1,3) None by (simp add: upsert_def)
  next
    case False
    then have s': "hs_previews s' = hs_previews s @ [fill_preview cfg app pr (new_preview (hc_newId cfg) (ha_id app) (pe_number pr))]"
      using assms(3) None by (auto simp: upsert_def Let_def)
    have "length (filter (\<lambda>r. pv_applicationId r = ha_id app) (hs_previews s)) < PREVIEW_MAX" using False open_all [OF d] by simp
    moreover have "(ha_id app, pe_number pr) \<notin> (\<lambda>r. (pv_applicationId r, pv_prNumber r)) ` set (hs_previews s)"
      using findByPr_None [OF None] by force
    ultimately show ?thesis using assms(1,2) unfolding previews_ok_iff s' by (auto simp: new_preview_def)
  qed
qed

lemma previews_ok_filter:
  assumes "previews_ok s" and "hs_previews s' = filter P (hs_previews s)"
  shows "previews_ok s'"
proof -
  have "length (filter Q (filter P rs)) \<le> length (filter Q rs)" for Q and rs :: "preview_row list"
    using length_filter_le [of P "filter Q rs"] by (simp add: conj_commute)
  then have "length (filter (\<lambda>r. pv_applicationId r = aid) (hs_previews s')) \<le> length (filter (\<lambda>r. pv_applicationId r = aid) (hs_previews s))" for aid
    unfolding assms(2) by blast
  then show ?thesis using assms(1) unfolding previews_ok_iff assms(2) by (auto simp: distinct_map_filter intro: order_trans)
qed

lemma destroy_previews: "destroy_preview cfg app r s = Some s' \<Longrightarrow> hs_previews s' = filter (\<lambda>x. pv_id x \<noteq> pv_id r) (hs_previews s)"
  by (auto simp: destroy_preview_def split: if_splits)

lemma handle_pr_previews:
  assumes "handle_pr cfg app pr s = Inr (ans, s')"
  shows "s' = s \<or> (\<exists>r. destroy_preview cfg app r s = Some s') \<or> (\<exists>res. upsert cfg app pr s = (res, s'))"
  using assms by (auto simp: handle_pr_def split: if_splits option.splits prod.splits)

lemma handle_push_previews: "handle_push app payload event s = (ans, s') \<Longrightarrow> hs_previews s' = hs_previews s"
  by (auto simp: handle_push_def Let_def split: option.splits sum.splits)


text \<open>A delivery that opens the first preview, and one that queues a deployment.\<close>

definition demo_hook :: hook_app where
  "demo_hook = \<lparr>ha_app = \<lparr>wa_id = ''a'', wa_isImage = False, wa_status = Idle, wa_imageRef = None, wa_autoUpdate = False, wa_intervalMinutes = 5,
     wa_followTags = False, wa_lastTag = None, wa_imageDigest = None, wa_checkedAt = None, wa_currentImage = None\<rparr>, ha_appName = ''web'',
     ha_webhookToken = ''t'', ha_secretEncrypted = Some ''k'', ha_gitBranch = ''main'', ha_watchRootOnly = False, ha_rootDirectory = None,
     ha_serverId = None, ha_previewsEnabled = True, ha_previewDomain = None\<rparr>"

definition demo_hooks :: hook_state where
  "demo_hooks = \<lparr>hs_apps = [demo_hook], hs_watch = \<lparr>wapps = [ha_app demo_hook], deps = []\<rparr>, hs_previews = [], hs_active = [], hs_builds = []\<rparr>"

definition demo_config :: hook_config where
  "demo_config = \<lparr>hc_decrypt = (\<lambda>s. s @ ''1''), hc_hmacHex = (\<lambda>k b. k @ b), hc_isIP = (\<lambda>_. 0), hc_verifyGithubIp = False, hc_ranges = [],
     hc_previewDomain = None, hc_newId = ''r'', hc_removes = (\<lambda>_. True)\<rparr>"

definition demo_payload :: push_payload where
  "demo_payload = \<lparr>pp_ref = Some ''refs/heads/main'', pp_object_kind = None, pp_deleted = False, pp_created = False, pp_forced = False, pp_after = None,
     pp_headMessage = None, pp_headId = None, pp_pusher = None, pp_checkout_sha = None, pp_total_commits_count = None, pp_commits = None, pp_user_name = None,
     pp_action = Some ''opened'', pp_number = Some 7, pp_pull_request = Some \<lparr>pr_title = None, pr_html_url = None, pr_headRef = Some ''fix'',
       pr_headSha = None, pr_headRepo = None, pr_baseRepo = None\<rparr>, pp_object_attributes = None\<rparr>"

definition demo_auth :: webhook_auth where
  "demo_auth = \<lparr>au_rawBody = Some ''b'', au_headers = \<lparr>hubSignature256 = Some ''sha256=k1b'', gitlabToken = None\<rparr>, au_sourceIp = None, au_isGithub = True\<rparr>"

definition demo_delivery :: "string \<Rightarrow> (hook_reason, hook_answer \<times> hook_state) res" where
  "demo_delivery event = webhook_execute demo_config ''t'' demo_payload (Some event) demo_auth demo_hooks"



end
