(* ===== verification/Spec2Isabelle.thy ===== *)
theory Spec2Isabelle
  imports Env_Change_Laws Access_Laws Account_Laws Totp Variable_History Env_Resolver_Laws Monitor_Laws Resource_Alerts
    Query_Laws Image_Watcher_Laws Docker_Laws Proxy_Laws Deployment_Recovery Webhook_Laws
begin

text \<open>
  \<^bold>\<open>A model of the aoox API\<close>

  The program (\<open>src/src/modules\<close>) is the backend of a self-hosted platform: people sign in or use API
  tokens, are members of projects, and keep configuration of applications and compose stacks in shared
  variable sets, which become the environment of their containers.  Logs are masked, applications are
  watched, images are updated, databases can be browsed, and what deleted resources left on the Docker host is
  cleaned up.  This development models the parts that decide who may do what, what is stored, what a container
  gets to see, what is sent to an engine, what may be removed and when people are alerted.

  \<^bold>\<open>Theories and the code they model\<close>

  \<^item> \<open>Prelude\<close>: what the source uses of JavaScript (trimming, lines, plain objects with their prototype,
    insertion-ordered maps), the result type of a handler (\<open>exn + 'a\<close>, one constructor per HTTP error), and
    the locale \<open>fresh_namer\<close> for searches of a free name.
  \<^item> \<open>Env_Text\<close>, with the laws in \<open>Env_Text_Laws\<close> and \<open>Env_Change_Laws\<close>: \<open>variable-set/env-text.ts\<close>, the
    \<open>KEY=VALUE\<close> text format with notes, flags and \<open>${{scope.name}}\<close> references.
  \<^item> \<open>Access_Control\<close>, laws in \<open>Access_Laws\<close>: the request context and guards (\<open>auth/request-context.ts\<close>,
    \<open>auth/jwt-auth.guard.ts\<close>, \<open>auth/roles.guard.ts\<close>), API tokens (\<open>api-token\<close>), roles on projects and
    the membership operations (\<open>project\<close>).  State: the record \<open>directory\<close>, one list per table.
  \<^item> \<open>Accounts\<close>, laws in \<open>Account_Laws\<close>: users, setup, sign-in, second factor and invitations (\<open>user\<close>,
    \<open>auth\<close>, \<open>invitation\<close>).  State: \<open>account_state\<close>.
  \<^item> \<open>Totp\<close>: \<open>auth/two-factor/totp.ts\<close>, base 32 with its 32-bit accumulator and the one-time passwords.
  \<^item> \<open>Set_Names\<close>: \<open>variable-set/variable-set-names.ts\<close>, names and slugs of variable sets.
  \<^item> \<open>Variable_Sets\<close>, laws in \<open>Variable_Access_Laws\<close>, \<open>Variable_Set_Laws\<close> and \<open>Variable_History\<close>: the
    services of variable sets, their environments, versions and links (\<open>variable-set\<close>).  State:
    \<open>vs_state\<close>, which contains the \<open>directory\<close>.
  \<^item> \<open>Managed_Databases\<close>: engine recipes, host port binding and connections of managed databases
    (\<open>managed-database/engines.ts\<close>, \<open>managed-database/managed-database.service.ts\<close>, \<open>docker/host-port-bind.ts\<close>).
  \<^item> \<open>Env_Resolver\<close>, laws in \<open>Env_Resolver_Laws\<close>: \<open>application/env-resolver.service.ts\<close>, from linked sets, secret
    source and own variables to the environment of a container.
  \<^item> \<open>Log_Redaction\<close>, laws in \<open>Redaction_Laws\<close>: \<open>application/log-redaction.ts\<close>.
  \<^item> \<open>Alarms\<close>: the contract of a watcher.  \<open>Monitors\<close>, laws in \<open>Monitor_Laws\<close>: HTTP monitors, their checks,
    incidents and messages (\<open>http-monitor\<close>), state \<open>mon_state\<close>.  \<open>Resource_Alerts\<close>: rules on CPU and memory
    (\<open>resource-alert\<close>).
  \<^item> \<open>Retention\<close>: the clean-ups of job runs and backups, and the contract they share with the version
    history of variable sets and the query history.
  \<^item> \<open>Query_Guard\<close> and \<open>Data_Browser\<close>, laws in \<open>Query_Laws\<close>: the data browser of managed databases
    (\<open>managed-database/data-browser\<close>, \<open>managed-database/schemas\<close>, \<open>managed-database/query-history\<close>), from the
    text a user types to the script and environment of the helper container and back from its output.  What the
    container prints is the parameter \<open>engine_io\<close>.
  \<^item> \<open>Image_Versions\<close>, laws in \<open>Image_Version_Laws\<close>: \<open>registry/semver.ts\<close> and \<open>application/image-reference.ts\<close>.
    \<open>Image_Watcher\<close>, laws in \<open>Image_Watcher_Laws\<close>: the automatic updates of image applications
    (\<open>application/image-update-watcher.service.ts\<close>), the deployment queue and what a finished deployment writes back.
    State: \<open>watch_state\<close>.
  \<^item> \<open>Docker_Hygiene\<close> and \<open>Docker_Sharing\<close>, laws in \<open>Docker_Laws\<close>: orphaned containers and volumes and the pruning
    of images (\<open>maintenance\<close>), host ports (\<open>host-port\<close>), routed domains (\<open>domain-conflict\<close>) and protected images
    (\<open>docker-manager/image-protection.ts\<close>).  State: the rows \<open>platform\<close> and the host \<open>daemon\<close>.
  \<^item> \<open>Proxy_Labels\<close>, laws in \<open>Proxy_Laws\<close>: the router labels of a container and certificate modes (\<open>proxy/proxy.service.ts\<close>,
    \<open>proxy/middleware-ref.ts\<close>, \<open>proxy/read-timeout.ts\<close>, \<open>application/cert-mode.ts\<close>).
  \<^item> \<open>Container_Swap\<close>, laws in \<open>Container_Swap_Laws\<close>, \<open>Deployment_Laws\<close> and \<open>Deployment_Recovery\<close>: how the deployment
    runner replaces the container of an application (\<open>application/deployment-runner.service.ts\<close>), as actions that may
    throw at every call of the engine.  The state of the host is a type variable; the calls are the record \<open>docker_ops\<close>.
  \<^item> \<open>Webhooks\<close>, laws in \<open>Webhook_Laws\<close>: deliveries of git providers to applications and stacks
    (\<open>application/webhook-deploy\<close>, \<open>compose/webhook-deploy-compose\<close>) and pull-request previews
    (\<open>application/preview.service.ts\<close>).  State: \<open>hook_state\<close>, which contains the deployment queue.

  \<^bold>\<open>Conventions\<close>

  A string is a list of characters U+0000 to U+00FF; the rules of the source for other characters
  (Unicode white space, decomposition beyond Latin-1) are outside the model.  A table is a list of rows in
  no particular order, with the unique indexes of the schema stated as well-formedness where a lemma needs
  them.  A handler is a function from the state and the request to an error or the new state and answer;
  a database transaction with its row lock is one step, and where the source works without a transaction
  (\<open>role_check\<close> and \<open>role_save\<close>) the steps are separate definitions.  The clock, random identifiers and
  the cryptographic functions are parameters, and what is used of them (decryption inverts encryption) is a
  hypothesis of the theorems that need it.  All functions are total.  The only fuel is that of \<open>first_free\<close>,
  one round more than there are names in use, which the locale \<open>fresh_namer\<close> proves to be enough; loops over
  text recurse on the text, and the loop that settles a cut of a log stream ends because the cut moves left.

  \<^bold>\<open>Interfaces\<close>

  \<open>fresh_namer\<close> (a candidate sequence and a test) is interpreted on set names and slugs;
  \<open>scoped_decision\<close> (a permission that a token scope can only narrow) on project roles, variable access
  and values; \<open>retention\<close> (keep the newest rows) on job runs, backups, instance snapshots, versions,
  incidents and the query history; \<open>quoted\<close> (a rendering that a reader of the target language takes back) on SQL
  identifiers, literals, assignments and shell words; \<open>precedence\<close> (a comparison that is a preorder) on versions; \<open>alarm\<close> (raise when entering, clear when leaving an alarmed state) on the monitor rule and the
  rule of resource alerts.  \<open>docker_host\<close> states what is used of the Docker engine - a call may fail, before or after
  it took effect, but touches its own container only - and \<open>docker_client\<close> adds that the client throws its own errors;
  both are interpreted on a simulated host, for every pattern of calls that fail or are lost.

  \<^bold>\<open>What is shown\<close>

  \<^item> Access: a token never exceeds its user nor its scope, the three computations of project roles agree,
    membership changes are local and take effect at once; values of variable sets are revealed exactly to those
    who may use them and leak to nobody else, not even through comparisons.
  \<^item> Accounts: sequential operations keep an owner and unique addresses (and an interleaving of two demotions
    does not); invitations and backup codes work once; a second factor cannot be skipped.
  \<^item> Variable sets: validation and clean-up of text are characterised exactly, writes are read back, a stale
    write is refused, promotions copy what was asked, the history ends with the current content.
  \<^item> Containers and logs: the resolver refines a specification without cache; what it reports as secret is
    hidden by the redactor, raw and URL-encoded, and masking a stream equals masking the whole text.
  \<^item> Watching: the counting rule refines a history-based description, incidents are outages, an alert is
    justified by a complete window; two lost-state behaviours of the monitor service are exhibited.
  \<^item> Browsing: an accepted row edit hits the row of the given primary key and nothing else, read back with the
    engine's own grammar; members stay in read-only sessions; exports are read back; what the statement check
    overlooks is exhibited.
  \<^item> Updating: version comparison is the precedence of semantic versioning, an automatic update stays on its
    version line, is taken back when it fails and is tried at most once per list of tags.
  \<^item> Cleaning and sharing: a clean-up keeps everything a row needs, pruning keeps every image that is referred
    to, a port is granted exactly when it is free, and the check for domain conflicts finds exactly the hosts that the
    labels of an application route.
  \<^item> Deploying: whatever calls fail, a blue/green deployment never takes the application down, a success means that
    exactly the container asked for is up, a reported recovery took place, and no other container is touched; the one
    left-over that a failed rename leaves behind is exhibited.
  \<^item> Webhooks: a delivery changes something only with the token and a proof of the secret, and then only what it is
    about; previews stay within their limit; masked bytes compare networks.

  \<^bold>\<open>Not modelled\<close>

  Everything whose content is a conversation with Docker, a proxy, a DNS or mail provider, an S3 store or an
  ssh host; the TypeORM migrations; the listing endpoints, which only shape rows into views; the wording of
  messages; the rounding of floating-point percentages.  Of a deployment, the build of the image and
  the calls of a swarm service are single steps.  Left for later: project export and import, the rendering of the
  proxy's configuration, the job runner.
\<close>

end
